(* ===== verification/Prelude.thy ===== *)
theory Prelude
  imports Main "HOL-Library.Word"
begin

text \<open>
  What the components share: the machine types of the Go source, a state monad with errors in
  which the methods of the consensus engine are written, the rules its proofs run on, and generic
  facts about lists, bytes and words.

  A Go method \<open>func (x *T) f(a A) (B, error)\<close> becomes a function \<open>f :: A \<Rightarrow> (T, err, B) action\<close>: it
  takes the receiver's state and gives back either an error or a value, and the state it left
  behind.  An error does not undo the updates made before it, as in Go.
\<close>

section \<open>Machine types\<close>

type_synonym byte = "8 word"
type_synonym bytes = "8 word list"
type_synonym u64 = "64 word"
type_synonym hash = "256 word" \<comment> \<open>\<open>common.Hash\<close>, 32 bytes\<close>
type_synonym address = "160 word" \<comment> \<open>\<open>common.Address\<close>, 20 bytes\<close>

text \<open>\<open>(*big.Int).Uint64\<close>: the low 64 bits.\<close>

definition Uint64 :: "int \<Rightarrow> u64" where
  "Uint64 n = word_of_int n"

lemma Uint64_of_nat: "n < 2 ^ 64 \<Longrightarrow> unat (Uint64 (int n)) = n"
  by (simp add: Uint64_def unat_of_nat take_bit_nat_eq_self)

lemma uint_Uint64: "0 \<le> n \<Longrightarrow> n < 2 ^ 64 \<Longrightarrow> uint (Uint64 n) = n"
  by (simp add: Uint64_def uint_word_of_int take_bit_int_eq_self)

lemma unat_lt2p: "unat (w :: 'a::len word) < 2 ^ LENGTH('a)"
  by (rule unsigned_less)

lemma unat_byte: "unat (b :: byte) < 256"
  using unat_lt2p [of b] by simp

lemma unat_of_nat_u64: "n < 2 ^ 64 \<Longrightarrow> unat (of_nat n :: u64) = n"
  by (simp add: unat_of_nat take_bit_nat_eq_self)

section \<open>A state monad with errors\<close>

type_synonym ('s, 'e, 'a) action = "'s \<Rightarrow> ('e + 'a) \<times> 's"

definition returnE :: "'a \<Rightarrow> ('s, 'e, 'a) action" where
  "returnE a = (\<lambda>s. (Inr a, s))"

definition throwE :: "'e \<Rightarrow> ('s, 'e, 'a) action" where
  "throwE e = (\<lambda>s. (Inl e, s))"

definition bindE :: "('s, 'e, 'a) action \<Rightarrow> ('a \<Rightarrow> ('s, 'e, 'b) action) \<Rightarrow> ('s, 'e, 'b) action" where
  "bindE m f = (\<lambda>s. case m s of (Inl e, s') \<Rightarrow> (Inl e, s') | (Inr a, s') \<Rightarrow> f a s')"

definition getE :: "('s \<Rightarrow> 'a) \<Rightarrow> ('s, 'e, 'a) action" where
  "getE f = (\<lambda>s. (Inr (f s), s))"

definition putE :: "('s \<Rightarrow> 's) \<Rightarrow> ('s, 'e, unit) action" where
  "putE f = (\<lambda>s. (Inr (), f s))"

text \<open>A computation that has no effect on the state.\<close>

definition pureE :: "'e + 'a \<Rightarrow> ('s, 'e, 'a) action" where
  "pureE r = (\<lambda>s. (r, s))"

text \<open>\<open>v, err := f()\<close> where the code looks at \<open>err\<close> itself instead of returning it.\<close>

definition tryE :: "('s, 'e, 'a) action \<Rightarrow> ('s, 'e, 'e + 'a) action" where
  "tryE m = (\<lambda>s. case m s of (r, s') \<Rightarrow> (Inr r, s'))"

definition mapErrE :: "('e \<Rightarrow> 'e) \<Rightarrow> ('s, 'e, 'a) action \<Rightarrow> ('s, 'e, 'a) action" where
  "mapErrE g m = (\<lambda>s. case m s of (Inl e, s') \<Rightarrow> (Inl (g e), s') | (Inr a, s') \<Rightarrow> (Inr a, s'))"

lemmas action_defs = returnE_def throwE_def bindE_def getE_def putE_def pureE_def tryE_def mapErrE_def

text \<open>The monad laws.\<close>

lemma bindE_returnE [simp]: "bindE (returnE a) f = f a"
  by (simp add: action_defs)

lemma bindE_throwE [simp]: "bindE (throwE e) f = throwE e"
  by (simp add: action_defs)

lemma bindE_assoc: "bindE (bindE m f) g = bindE m (\<lambda>a. bindE (f a) g)"
  by (auto simp: bindE_def fun_eq_iff split: prod.splits sum.splits)

text \<open>Running an action: one rule for each combinator.\<close>

lemma run_returnE [simp]: "returnE a s = (Inr a, s)"
  by (simp add: returnE_def)

lemma run_throwE [simp]: "throwE e s = (Inl e, s)"
  by (simp add: throwE_def)

lemma run_getE [simp]: "getE f s = (Inr (f s), s)"
  by (simp add: getE_def)

lemma run_putE [simp]: "putE f s = (Inr (), f s)"
  by (simp add: putE_def)

lemma run_pureE [simp]: "pureE r s = (r, s)"
  by (simp add: pureE_def)

lemma run_bindE_Inr [simp]: "m s = (Inr a, s') \<Longrightarrow> bindE m f s = f a s'"
  by (simp add: bindE_def)

lemma run_bindE_Inl [simp]: "m s = (Inl e, s') \<Longrightarrow> bindE m f s = (Inl e, s')"
  by (simp add: bindE_def)

lemma run_tryE: "m s = (r, s') \<Longrightarrow> tryE m s = (Inr r, s')"
  by (simp add: tryE_def)

text \<open>Inversion: what a run that succeeded, or failed, went through.\<close>

lemma bindE_InrE [elim!]:
  assumes "bindE m f s = (Inr b, s')"
  obtains a s1 where "m s = (Inr a, s1)" and "f a s1 = (Inr b, s')"
  using assms by (auto simp: bindE_def split: prod.splits sum.splits)

lemma bindE_InlE:
  assumes "bindE m f s = (Inl e, s')"
  obtains (first) "m s = (Inl e, s')" | (second) a s1 where "m s = (Inr a, s1)" and "f a s1 = (Inl e, s')"
  using assms by (auto simp: bindE_def split: prod.splits sum.splits)

lemma mapErrE_Inr [simp]: "mapErrE g m s = (Inr a, s') \<longleftrightarrow> m s = (Inr a, s')"
  by (auto simp: mapErrE_def split: prod.splits sum.splits)

lemma tryE_Inr: "tryE m s = (r, s') \<longleftrightarrow> (\<exists>r0. r = Inr r0 \<and> m s = (r0, s'))"
  by (auto simp: tryE_def split: prod.splits)

text \<open>What a run of a sequence went through, whatever its result.\<close>

lemma bindE_runE:
  assumes "bindE m f s = (r, t)"
  obtains (throws) e where "m s = (Inl e, t)" "r = Inl e" | (continues) a s1 where "m s = (Inr a, s1)" "f a s1 = (r, t)"
  using assms by (auto simp: bindE_def split: prod.splits sum.splits)

lemma getE_run: "getE f s = (r, t) \<longleftrightarrow> r = Inr (f s) \<and> t = s"
  by auto

lemma putE_run: "putE f s = (r, t) \<longleftrightarrow> r = Inr () \<and> t = f s"
  by auto

text \<open>
  Successful runs, step by step: with these rules a run that ends in a value turns into the conditions
  under which it does.
\<close>

named_theorems runs

lemma run_basic [runs]:
  "returnE a x = (Inr b, y) \<longleftrightarrow> y = x \<and> b = a" "throwE e x = (Inr b, y) \<longleftrightarrow> False"
  "getE f x = (Inr c, y) \<longleftrightarrow> y = x \<and> c = f x" "putE g x = (Inr u, y) \<longleftrightarrow> y = g x"
  "pureE r x = (Inr b, y) \<longleftrightarrow> y = x \<and> r = Inr b" "mapErrE h m x = (Inr b, y) \<longleftrightarrow> m x = (Inr b, y)"
  by auto

lemma run_bind [runs]: "bindE m f x = (Inr b, y) \<longleftrightarrow> (\<exists>a x1. m x = (Inr a, x1) \<and> f a x1 = (Inr b, y))"
  by (auto simp: bindE_def split: prod.splits sum.splits)

lemma run_if [runs]: "(if b then m else n) x = r \<longleftrightarrow> b \<and> m x = r \<or> \<not> b \<and> n x = r"
  by simp

lemma run_option [runs]:
  "(case p of None \<Rightarrow> m | Some a \<Rightarrow> f a) x = r \<longleftrightarrow> p = None \<and> m x = r \<or> (\<exists>a. p = Some a \<and> f a x = r)"
  by (cases p) simp_all

lemma run_sum [runs]:
  "(case p of Inl e \<Rightarrow> g e | Inr a \<Rightarrow> f a) x = r \<longleftrightarrow> (\<exists>e. p = Inl e \<and> g e x = r) \<or> (\<exists>a. p = Inr a \<and> f a x = r)"
  by (cases p) simp_all

subsection \<open>Relations every run respects\<close>

text \<open>
  \<open>keeps R m\<close>: every run of \<open>m\<close>, whether it ends in a value or in an error, relates the state it
  starts from to the state it ends in by \<open>R\<close>.  For a preorder \<open>R\<close> the claim is compositional; the
  locale below holds the rules and is interpreted for each \<open>R\<close> a component cares about.
\<close>

definition keeps :: "('s \<Rightarrow> 's \<Rightarrow> bool) \<Rightarrow> ('s, 'e, 'a) action \<Rightarrow> bool" where
  "keeps R m \<longleftrightarrow> (\<forall>s. R s (snd (m s)))"

lemma keepsI: "(\<And>s r s'. m s = (r, s') \<Longrightarrow> R s s') \<Longrightarrow> keeps R m"
  by (auto simp: keeps_def) (metis prod.collapse)

lemma keepsD: "keeps R m \<Longrightarrow> m s = (r, s') \<Longrightarrow> R s s'"
  by (auto simp: keeps_def) (metis snd_conv)

lemma keeps_mono: "keeps R m \<Longrightarrow> (\<And>s t. R s t \<Longrightarrow> S s t) \<Longrightarrow> keeps S m"
  by (auto simp: keeps_def)

locale action_preorder =
  fixes R :: "'s \<Rightarrow> 's \<Rightarrow> bool"
  assumes refl: "R s s"
    and trans: "R s t \<Longrightarrow> R t u \<Longrightarrow> R s u"
begin

lemma keeps_returnE: "keeps R (returnE a)"
  by (simp add: keeps_def refl)

lemma keeps_throwE: "keeps R (throwE e)"
  by (simp add: keeps_def refl)

lemma keeps_getE: "keeps R (getE f)"
  by (simp add: keeps_def refl)

lemma keeps_pureE: "keeps R (pureE r)"
  by (simp add: keeps_def refl)

lemma keeps_putE: "(\<And>s. R s (f s)) \<Longrightarrow> keeps R (putE f)"
  by (simp add: keeps_def)

lemma keeps_bindE:
  assumes m: "keeps R m" and f: "\<And>a. keeps R (f a)"
  shows "keeps R (bindE m f)"
proof (rule keepsI)
  fix s r s'
  assume run: "bindE m f s = (r, s')"
  show "R s s'"
  proof (cases "m s")
    case (Pair v s1)
    from keepsD [OF m Pair] have "R s s1" .
    with run Pair f show ?thesis
      by (cases v) (auto simp: bindE_def dest: keepsD intro: trans)
  qed
qed

lemma keeps_tryE: "keeps R m \<Longrightarrow> keeps R (tryE m)"
  by (auto simp: keeps_def tryE_def split: prod.splits) (metis snd_conv)

lemma keeps_mapErrE: "keeps R m \<Longrightarrow> keeps R (mapErrE g m)"
  by (auto simp: keeps_def mapErrE_def split: prod.splits sum.splits) (metis snd_conv)+

lemma keeps_if: "(b \<Longrightarrow> keeps R m) \<Longrightarrow> (\<not> b \<Longrightarrow> keeps R n) \<Longrightarrow> keeps R (if b then m else n)"
  by simp

lemma keeps_option:
  "(x = None \<Longrightarrow> keeps R m) \<Longrightarrow> (\<And>a. x = Some a \<Longrightarrow> keeps R (f a)) \<Longrightarrow>
   keeps R (case x of None \<Rightarrow> m | Some a \<Rightarrow> f a)"
  by (cases x) auto

lemma keeps_sum:
  "(\<And>e. x = Inl e \<Longrightarrow> keeps R (f e)) \<Longrightarrow> (\<And>a. x = Inr a \<Longrightarrow> keeps R (g a)) \<Longrightarrow>
   keeps R (case x of Inl e \<Rightarrow> f e | Inr a \<Rightarrow> g a)"
  by (cases x) auto

lemma keeps_prod: "(\<And>a b. x = (a, b) \<Longrightarrow> keeps R (f a b)) \<Longrightarrow> keeps R (case x of (a, b) \<Rightarrow> f a b)"
  by (cases x) auto

lemma keeps_Let: "(\<And>a. a = v \<Longrightarrow> keeps R (f a)) \<Longrightarrow> keeps R (let a = v in f a)"
  by simp

lemmas keeps_rules =
  keeps_returnE keeps_throwE keeps_getE keeps_pureE keeps_bindE keeps_tryE keeps_mapErrE
  keeps_if keeps_option keeps_sum keeps_prod keeps_Let

end

end
