(* ===== verification/Lru.thy ===== *)
theory Lru
  imports Prelude "HOL-Library.AList"
begin

text \<open>
  The least-recently-used cache of \<open>common/lru\<close>, which the consensus engine keeps its snapshots,
  epoch infos and verified headers in.  \<open>BasicLRU\<close> is a hash map of items beside a circular doubly
  linked list of the keys; both are modelled as the code has them, the list on an explicit heap of
  elements.  The lemmas show that the pointers always form a ring over the cached keys, that the
  structure refines a plain recency list of key/value pairs, and that it satisfies the contract
  \<open>cache\<close> which the engine's proofs rely on.
\<close>

section \<open>The linked list\<close>

text \<open>A pointer is a number: 0 is \<open>nil\<close>, 1 the address of \<open>list.root\<close>.\<close>

type_synonym ptr = nat

abbreviation (input) nil :: ptr where "nil \<equiv> 0"
abbreviation (input) root :: ptr where "root \<equiv> 1"

record 'k listElem =
  enext :: ptr
  eprev :: ptr
  elemv :: "'k option" \<comment> \<open>\<open>None\<close> is the zero value of a new element\<close>

type_synonym 'k heap = "ptr \<Rightarrow> 'k listElem"

definition list_init :: "'k heap \<Rightarrow> 'k heap" where
  "list_init h = h(root := (h root)\<lparr>enext := root, eprev := root\<rparr>)"

definition pushElem :: "ptr \<Rightarrow> 'k heap \<Rightarrow> 'k heap" where
  "pushElem e h =
     (let h = h(e := (h e)\<lparr>eprev := root\<rparr>);
          h = h(e := (h e)\<lparr>enext := enext (h root)\<rparr>);
          h = h(root := (h root)\<lparr>enext := e\<rparr>);
          n = enext (h e)
      in h(n := (h n)\<lparr>eprev := e\<rparr>))"

definition moveToFront :: "ptr \<Rightarrow> 'k heap \<Rightarrow> 'k heap" where
  "moveToFront e h =
     (let p = eprev (h e); h = h(p := (h p)\<lparr>enext := enext (h e)\<rparr>);
          n = enext (h e); h = h(n := (h n)\<lparr>eprev := eprev (h e)\<rparr>)
      in pushElem e h)"

definition list_remove :: "ptr \<Rightarrow> 'k heap \<Rightarrow> 'k heap" where
  "list_remove e h =
     (let p = eprev (h e); h = h(p := (h p)\<lparr>enext := enext (h e)\<rparr>);
          n = enext (h e); h = h(n := (h n)\<lparr>eprev := eprev (h e)\<rparr>)
      in h(e := (h e)\<lparr>enext := nil, eprev := nil\<rparr>))"

definition list_last :: "'k heap \<Rightarrow> ptr" where
  "list_last h = (let e = eprev (h root) in if e = root then nil else e)"

definition removeLast :: "'k heap \<Rightarrow> ptr \<times> 'k heap" where
  "removeLast h = (let l = list_last h in if l \<noteq> nil then (l, list_remove l h) else (l, h))"

text \<open>\<open>appendTo\<close> walks the list backwards from the root; on a broken ring it need not stop.\<close>

partial_function (option) appendTo_from :: "'k heap \<Rightarrow> ptr \<Rightarrow> 'k option list \<Rightarrow> 'k option list option" where
  "appendTo_from h e acc =
     (if e \<noteq> root then appendTo_from h (eprev (h e)) (acc @ [elemv (h e)]) else Some acc)"

definition appendTo :: "'k heap \<Rightarrow> 'k option list \<Rightarrow> 'k option list option" where
  "appendTo h acc = appendTo_from h (eprev (h root)) acc"

section \<open>The cache\<close>

record ('k, 'v) lru =
  lheap :: "'k heap"
  items :: "('k \<times> ptr \<times> 'v) list" \<comment> \<open>the Go map from keys to \<open>cacheItem{elem, value}\<close>\<close>
  lcap :: nat
  fresh :: ptr \<comment> \<open>the next address \<open>new(listElem)\<close> gives\<close>

definition NewBasicLRU :: "int \<Rightarrow> ('k, 'v) lru" where
  "NewBasicLRU capacity =
     \<lparr>lheap = list_init (\<lambda>_. \<lparr>enext = nil, eprev = nil, elemv = None\<rparr>), items = [],
      lcap = (if capacity \<le> 0 then 1 else nat capacity), fresh = 2\<rparr>"

definition Len :: "('k, 'v) lru \<Rightarrow> nat" where
  "Len c = length (items c)"

definition delete_elem_key :: "ptr \<Rightarrow> 'k heap \<Rightarrow> ('k \<times> 'b) list \<Rightarrow> ('k \<times> 'b) list" where
  "delete_elem_key e h m = (case elemv (h e) of None \<Rightarrow> m | Some k \<Rightarrow> AList.delete k m)"

definition Add :: "'k \<Rightarrow> 'v \<Rightarrow> ('k, 'v) lru \<Rightarrow> bool \<times> ('k, 'v) lru" where
  "Add key val c =
     (case map_of (items c) key of
        Some (elem, _) \<Rightarrow>
          (False, c\<lparr>items := AList.update key (elem, val) (items c), lheap := moveToFront elem (lheap c)\<rparr>)
      | None \<Rightarrow>
          (let (evicted, elem, c) =
             (if lcap c \<le> Len c
              then (let (elem, h) = removeLast (lheap c)
                    in (True, elem, c\<lparr>items := delete_elem_key elem h (items c), lheap := h\<rparr>))
              else (False, fresh c, c\<lparr>fresh := Suc (fresh c),
                      lheap := (lheap c)(fresh c := \<lparr>enext = nil, eprev = nil, elemv = None\<rparr>)\<rparr>));
             h = (lheap c)(elem := (lheap c elem)\<lparr>elemv := Some key\<rparr>)
           in (evicted, c\<lparr>items := AList.update key (elem, val) (items c), lheap := pushElem elem h\<rparr>)))"

definition Contains :: "'k \<Rightarrow> ('k, 'v) lru \<Rightarrow> bool" where
  "Contains key c \<longleftrightarrow> map_of (items c) key \<noteq> None"

definition Get :: "'k \<Rightarrow> ('k, 'v) lru \<Rightarrow> 'v option \<times> ('k, 'v) lru" where
  "Get key c =
     (case map_of (items c) key of
        None \<Rightarrow> (None, c)
      | Some (elem, val) \<Rightarrow> (Some val, c\<lparr>lheap := moveToFront elem (lheap c)\<rparr>))"

definition Peek :: "'k \<Rightarrow> ('k, 'v) lru \<Rightarrow> 'v option" where
  "Peek key c = map_option snd (map_of (items c) key)"

definition GetOldest :: "('k, 'v) lru \<Rightarrow> ('k \<times> 'v) option" where
  "GetOldest c =
     (let l = list_last (lheap c) in
      if l = nil then None
      else (case elemv (lheap c l) of None \<Rightarrow> None
            | Some k \<Rightarrow> map_option (\<lambda>i. (k, snd i)) (map_of (items c) k)))"

definition RemoveOldest :: "('k, 'v) lru \<Rightarrow> ('k \<times> 'v) option \<times> ('k, 'v) lru" where
  "RemoveOldest c =
     (let l = list_last (lheap c) in
      if l = nil then (None, c)
      else (GetOldest c, c\<lparr>items := delete_elem_key l (lheap c) (items c), lheap := list_remove l (lheap c)\<rparr>))"

definition Purge :: "('k, 'v) lru \<Rightarrow> ('k, 'v) lru" where
  "Purge c = c\<lparr>lheap := list_init (lheap c), items := []\<rparr>"

definition Remove :: "'k \<Rightarrow> ('k, 'v) lru \<Rightarrow> bool \<times> ('k, 'v) lru" where
  "Remove key c =
     (case map_of (items c) key of
        None \<Rightarrow> (False, c)
      | Some (elem, _) \<Rightarrow> (True, c\<lparr>items := AList.delete key (items c), lheap := list_remove elem (lheap c)\<rparr>))"

definition Keys :: "('k, 'v) lru \<Rightarrow> 'k option list option" where
  "Keys c = appendTo (lheap c) []"

section \<open>The pointers form a ring\<close>

fun links :: "'k heap \<Rightarrow> ptr list \<Rightarrow> bool" where
  "links h (a # b # es) \<longleftrightarrow> enext (h a) = b \<and> eprev (h b) = a \<and> links h (b # es)"
| "links h _ \<longleftrightarrow> True"

definition ring :: "'k heap \<Rightarrow> ptr list \<Rightarrow> bool" where
  "ring h es \<longleftrightarrow> links h (root # es @ [root]) \<and> distinct es \<and> root \<notin> set es \<and> nil \<notin> set es"

lemma links_append: "links h (us @ a # vs) \<longleftrightarrow> links h (us @ [a]) \<and> links h (a # vs)"
proof (induction us)
  case Nil
  show ?case by simp
next
  case (Cons u us)
  then show ?case by (cases us) auto
qed

lemma links_cong:
  assumes "\<And>a. a \<in> set (butlast es) \<Longrightarrow> enext (h' a) = enext (h a)"
    and "\<And>b. b \<in> set (tl es) \<Longrightarrow> eprev (h' b) = eprev (h b)"
  shows "links h' es = links h es"
  using assms by (induction h es rule: links.induct) auto

text \<open>The part \<open>moveToFront\<close> and \<open>remove\<close> share: the neighbours of \<open>e\<close> are joined.\<close>

definition unlink :: "ptr \<Rightarrow> 'k heap \<Rightarrow> 'k heap" where
  "unlink e h =
     (let p = eprev (h e); h = h(p := (h p)\<lparr>enext := enext (h e)\<rparr>);
          n = enext (h e)
      in h(n := (h n)\<lparr>eprev := eprev (h e)\<rparr>))"

lemma moveToFront_unlink: "moveToFront e h = pushElem e (unlink e h)"
  by (simp add: moveToFront_def unlink_def Let_def)

lemma list_remove_unlink:
  "list_remove e h = (unlink e h)(e := (unlink e h e)\<lparr>enext := nil, eprev := nil\<rparr>)"
  by (simp add: list_remove_def unlink_def Let_def)

lemma ev_pushElem [simp]: "elemv (pushElem e h a) = elemv (h a)"
  by (simp add: pushElem_def Let_def)

lemma ev_unlink [simp]: "elemv (unlink e h a) = elemv (h a)"
  by (simp add: unlink_def Let_def)

lemma ev_list_remove [simp]: "elemv (list_remove e h a) = elemv (h a)"
  by (simp add: list_remove_unlink)

lemma ev_moveToFront [simp]: "elemv (moveToFront e h a) = elemv (h a)"
  by (simp add: moveToFront_unlink)

lemma ring_init: "ring (list_init h) []"
  by (simp add: ring_def list_init_def)

lemma ring_set_ev [simp]: "ring (h(e := (h e)\<lparr>elemv := v\<rparr>)) es = ring h es"
proof -
  have "links (h(e := (h e)\<lparr>elemv := v\<rparr>)) zs = links h zs" for zs
    by (rule links_cong) auto
  then show ?thesis by (simp add: ring_def)
qed

lemma ring_frame: "e \<notin> set es \<Longrightarrow> e \<noteq> root \<Longrightarrow> ring (h(e := v)) es = ring h es"
proof -
  assume "e \<notin> set es" "e \<noteq> root"
  then have "links (h(e := v)) (root # es @ [root]) = links h (root # es @ [root])"
    by (intro links_cong) (auto simp: butlast_append)
  then show ?thesis by (simp add: ring_def)
qed

text \<open>The list of elements with the root at either end has no repetition.\<close>

lemma ring_distinct: "ring h es \<Longrightarrow> distinct (root # es) \<and> distinct (es @ [root])"
  by (auto simp: ring_def)

lemma ring_pushElem:
  assumes ring: "ring h es" and e: "e \<notin> set es" "e \<noteq> root" "e \<noteq> nil"
  shows "ring (pushElem e h) (e # es)"
proof -
  obtain n zs where zs: "es @ [root] = n # zs" by (cases es) auto
  from ring zs have l: "links h (root # n # zs)" by (simp add: ring_def)
  from ring_distinct [OF ring] zs have d: "distinct (n # zs)" by metis
  have mem: "set (n # zs) = insert root (set es)" unfolding zs [symmetric] by auto
  let ?h = "pushElem e h"
  have n: "n \<noteq> e" using mem e by auto
  have nx: "enext (?h e) = n" "enext (?h root) = e" "eprev (?h e) = root" "eprev (?h n) = e"
    using l n e by (auto simp: pushElem_def Let_def)
  have "links ?h (n # zs) = links h (n # zs)"
  proof (rule links_cong)
    fix a assume "a \<in> set (butlast (n # zs))"
    then have "a \<in> set es" unfolding zs [symmetric] by simp
    then show "enext (?h a) = enext (h a)"
      using e ring by (auto simp: pushElem_def Let_def ring_def)
  next
    fix b assume b: "b \<in> set (tl (n # zs))"
    then have "b \<noteq> n" "b \<noteq> e" using d mem e by auto
    then show "eprev (?h b) = eprev (h b)"
      using l by (auto simp: pushElem_def Let_def)
  qed
  with l nx have "links ?h (root # e # n # zs)" by simp
  with zs ring e show ?thesis by (auto simp: ring_def)
qed

lemma ring_unlink:
  assumes ring: "ring h (as @ e # bs)"
  shows "ring (unlink e h) (as @ bs)"
proof -
  obtain us p where pus: "root # as = us @ [p]" by (metis append_butlast_last_id list.discI)
  obtain n vs where nvs: "bs @ [root] = n # vs" by (cases bs) auto
  have whole: "root # (as @ e # bs) @ [root] = us @ p # e # n # vs"
    using arg_cong [OF pus, of "\<lambda>l. l @ e # bs @ [root]"] nvs by simp
  from ring have "links h (us @ p # e # n # vs)" by (simp only: ring_def whole)
  then have l: "links h (us @ [p])" "enext (h p) = e" "eprev (h e) = p" "enext (h e) = n" "links h (n # vs)"
    by (auto dest: links_append [THEN iffD1])
  from ring have dist: "distinct (root # as)" "distinct (bs @ [root])" "set (root # as) \<inter> set bs = {}"
    "set (bs @ [root]) \<inter> set as = {}" "e \<notin> set (root # as)" "e \<notin> set (bs @ [root])"
    by (auto simp: ring_def)
  note dist = dist [unfolded pus nvs]
  have asm: "set as = set (tl (us @ [p]))" by (metis list.sel(3) pus)
  have bsm: "set bs = set (butlast (n # vs))" by (metis butlast_snoc nvs)
  have un: "unlink e h = h(p := (h p)\<lparr>enext := n\<rparr>, n := ((h(p := (h p)\<lparr>enext := n\<rparr>)) n)\<lparr>eprev := p\<rparr>)"
    using l dist by (auto simp: unlink_def Let_def)
  have "links (unlink e h) (us @ [p]) = links h (us @ [p])"
    by (rule links_cong; insert dist asm) (auto simp: un)
  moreover have "links (unlink e h) (n # vs) = links h (n # vs)"
    by (rule links_cong; insert dist bsm) (auto simp: un)
  moreover have "enext (unlink e h p) = n" "eprev (unlink e h n) = p" by (auto simp: un)
  ultimately have "links (unlink e h) (us @ p # n # vs)"
    using l by (intro links_append [THEN iffD2]) simp
  moreover have "us @ p # n # vs = root # (as @ bs) @ [root]"
    using arg_cong [OF pus, of "\<lambda>l. l @ bs @ [root]"] nvs by simp
  ultimately show ?thesis using ring by (auto simp: ring_def)
qed

lemma ring_moveToFront: "ring h (as @ e # bs) \<Longrightarrow> ring (moveToFront e h) (e # as @ bs)"
  unfolding moveToFront_unlink by (rule ring_pushElem [OF ring_unlink]) (auto simp: ring_def)

lemma ring_list_remove:
  assumes "ring h (as @ e # bs)"
  shows "ring (list_remove e h) (as @ bs)"
proof -
  from assms have "e \<notin> set (as @ bs)" "e \<noteq> root" by (auto simp: ring_def)
  then show ?thesis
    using ring_unlink [OF assms] by (simp add: list_remove_unlink ring_frame)
qed

lemma list_last_ring: "ring h es \<Longrightarrow> list_last h = (if es = [] then nil else last es)"
proof (cases es rule: rev_cases)
  case Nil
  assume "ring h es"
  with Nil show ?thesis by (simp add: ring_def list_last_def)
next
  case (snoc as e)
  assume ring: "ring h es"
  with snoc have "links h ((root # as) @ e # [root])" by (simp add: ring_def)
  then have "eprev (h root) = e" by (drule_tac links_append [THEN iffD1]) simp
  with ring snoc show ?thesis by (auto simp: ring_def list_last_def)
qed

lemma appendTo_ring:
  assumes "ring h es"
  shows "appendTo h acc = Some (acc @ map (elemv \<circ> h) (rev es))"
proof -
  have "links h (root # as @ bs) \<Longrightarrow> root \<notin> set as \<Longrightarrow> bs \<noteq> [] \<Longrightarrow>
     appendTo_from h (eprev (h (hd bs))) acc = Some (acc @ map (elemv \<circ> h) (rev as))" for as bs acc
  proof (induction as arbitrary: bs acc rule: rev_induct)
    case Nil
    then show ?case by (cases bs) (auto simp: appendTo_from.simps)
  next
    case (snoc e as)
    then have "links h ((root # as) @ e # bs)" by simp
    then have e: "links h (e # bs)" by (blast dest: links_append [THEN iffD1])
    with snoc.prems have "eprev (h (hd bs)) = e" by (cases bs) auto
    with snoc.IH [of "e # bs" "acc @ [elemv (h e)]"] snoc.prems show ?case
      by (simp add: appendTo_from.simps)
  qed
  from this [of es "[root]"] assms show ?thesis by (simp add: ring_def appendTo_def)
qed

section \<open>The cache refines a recency list\<close>

text \<open>
  The specification: the cached pairs, the most recently used first.  \<open>lru_rep c es kvs\<close> relates the
  pointer structure \<open>c\<close>, whose list runs through the elements \<open>es\<close>, to the recency list \<open>kvs\<close>.
\<close>

definition spec_touch :: "'k \<Rightarrow> ('k \<times> 'v) list \<Rightarrow> ('k \<times> 'v) list" where
  "spec_touch k kvs = (case map_of kvs k of None \<Rightarrow> kvs | Some v \<Rightarrow> (k, v) # AList.delete k kvs)"

definition spec_add :: "nat \<Rightarrow> 'k \<Rightarrow> 'v \<Rightarrow> ('k \<times> 'v) list \<Rightarrow> bool \<times> ('k \<times> 'v) list" where
  "spec_add n k v kvs =
     (if k \<in> fst ` set kvs then (False, (k, v) # AList.delete k kvs)
      else if n \<le> length kvs then (True, (k, v) # butlast kvs)
      else (False, (k, v) # kvs))"

definition elem_rep :: "('k, 'v) lru \<Rightarrow> ptr \<Rightarrow> 'k \<times> 'v \<Rightarrow> bool" where
  "elem_rep c e kv \<longleftrightarrow> elemv (lheap c e) = Some (fst kv) \<and> map_of (items c) (fst kv) = Some (e, snd kv)"

definition lru_rep :: "('k, 'v) lru \<Rightarrow> ptr list \<Rightarrow> ('k \<times> 'v) list \<Rightarrow> bool" where
  "lru_rep c es kvs \<longleftrightarrow>
     ring (lheap c) es \<and> list_all2 (elem_rep c) es kvs \<and> distinct (map fst kvs) \<and>
     distinct (map fst (items c)) \<and> fst ` set (items c) = fst ` set kvs \<and>
     length kvs \<le> lcap c \<and> 0 < lcap c \<and> (\<forall>e \<in> set es. e < fresh c) \<and> 2 \<le> fresh c"

definition lru_inv :: "('k, 'v) lru \<Rightarrow> bool" where
  "lru_inv c \<longleftrightarrow> (\<exists>es kvs. lru_rep c es kvs)"

lemma lru_rep_length: "lru_rep c es kvs \<Longrightarrow> length (items c) = length kvs"
  unfolding lru_rep_def by (metis distinct_card length_map list.set_map)

lemma lru_rep_lookup:
  assumes rep: "lru_rep c es kvs" and k: "map_of (items c) k = Some (e, v)"
  obtains as bs k1 k2 where "es = as @ e # bs" "kvs = k1 @ (k, v) # k2"
    "list_all2 (elem_rep c) as k1" "list_all2 (elem_rep c) bs k2" "k \<notin> fst ` set k1" "k \<notin> fst ` set k2"
proof -
  from k have "k \<in> fst ` set (items c)" by (metis image_eqI map_of_SomeD fst_conv)
  with rep obtain w where "(k, w) \<in> set kvs" by (auto simp: lru_rep_def)
  then obtain k1 k2 where kvs: "kvs = k1 @ (k, w) # k2" by (meson split_list)
  with rep obtain as e' bs where es: "es = as @ e' # bs"
    and all: "list_all2 (elem_rep c) as k1" "elem_rep c e' (k, w)" "list_all2 (elem_rep c) bs k2"
    by (auto simp: lru_rep_def list_all2_append2 list_all2_Cons2)
  from all(2) k have "e' = e" "w = v" by (auto simp: elem_rep_def)
  moreover from rep kvs have "k \<notin> fst ` set k1" "k \<notin> fst ` set k2" by (auto simp: lru_rep_def)
  ultimately show thesis using that es kvs all by blast
qed

lemma lru_rep_None: "lru_rep c es kvs \<Longrightarrow> map_of (items c) k = None \<longleftrightarrow> k \<notin> fst ` set kvs"
  by (simp add: lru_rep_def map_of_eq_None_iff)

lemma lru_rep_map_of: "lru_rep c es kvs \<Longrightarrow> map_of kvs k = Peek k c"
proof (cases "map_of (items c) k")
  case None
  assume "lru_rep c es kvs"
  with None have "map_of kvs k = None" using lru_rep_None by (metis map_of_eq_None_iff)
  with None show ?thesis by (simp add: Peek_def)
next
  case (Some elemv)
  assume rep: "lru_rep c es kvs"
  obtain e v where "elemv = (e, v)" by (cases elemv)
  with Some have k: "map_of (items c) k = Some (e, v)" by simp
  from lru_rep_lookup [OF rep k] obtain k1 k2
    where "kvs = k1 @ (k, v) # k2" and "k \<notin> fst ` set k1" by metis
  moreover from this have "map_of k1 k = None" by (simp add: map_of_eq_None_iff)
  ultimately have "map_of kvs k = Some v" by (simp add: map_add_def)
  with k show ?thesis by (simp add: Peek_def)
qed

lemma keys_delete: "fst ` set (AList.delete k xs) = fst ` set xs - {k}"
  by (auto simp: AList.delete_eq)

lemma delete_split:
  "k \<notin> fst ` set k1 \<Longrightarrow> k \<notin> fst ` set k2 \<Longrightarrow> AList.delete k (k1 @ (k, v) # k2) = k1 @ k2"
  using AList.delete_id [of k k1] AList.delete_id [of k k2] by (simp add: AList.delete_eq)

lemma elem_rep_mono:
  assumes "list_all2 (elem_rep c) es kvs"
    and "\<And>e k v. e \<in> set es \<Longrightarrow> (k, v) \<in> set kvs \<Longrightarrow> elem_rep c e (k, v) \<Longrightarrow> elem_rep c' e (k, v)"
  shows "list_all2 (elem_rep c') es kvs"
  using assms by (induction es kvs rule: list_all2_induct) auto

lemma lru_rep_New: "lru_rep (NewBasicLRU n) [] []"
  by (simp add: lru_rep_def NewBasicLRU_def ring_init)

lemma lru_rep_Get:
  assumes rep: "lru_rep c es kvs" and get: "Get k c = (r, c')"
  shows "r = map_of kvs k \<and> (\<exists>es'. lru_rep c' es' (spec_touch k kvs))"
proof (cases "map_of (items c) k")
  case None
  with get rep show ?thesis
    by (auto simp: Get_def spec_touch_def lru_rep_map_of [OF rep] Peek_def)
next
  case (Some elemv)
  obtain e v where elemv: "elemv = (e, v)" by (cases elemv)
  from lru_rep_lookup [OF rep] Some elemv obtain as bs k1 k2 where split:
    "es = as @ e # bs" "kvs = k1 @ (k, v) # k2" "k \<notin> fst ` set k1" "k \<notin> fst ` set k2"
    "list_all2 (elem_rep c) as k1" "list_all2 (elem_rep c) bs k2" by metis
  from rep Some elemv split have e: "elem_rep c e (k, v)"
    by (auto simp: lru_rep_def list_all2_append dest: list_all2_lengthD)
  from get Some elemv have r: "r = Some v" and c': "c' = c\<lparr>lheap := moveToFront e (lheap c)\<rparr>"
    by (auto simp: Get_def)
  have "elem_rep c' = elem_rep c" by (auto simp: c' elem_rep_def fun_eq_iff)
  with rep split have "lru_rep c' (e # as @ bs) ((k, v) # k1 @ k2)"
    using e by (auto simp: lru_rep_def c' ring_moveToFront intro: list_all2_appendI)
  moreover have "map_of kvs k = Some v"
    using lru_rep_map_of [OF rep, of k] Some elemv by (simp add: Peek_def)
  ultimately show ?thesis using r split by (auto simp: spec_touch_def delete_split)
qed

lemma elem_rep_split:
  assumes "lru_rep c es kvs" and "es = as @ e # bs" and "kvs = k1 @ kv # k2" and "length as = length k1"
  shows "elem_rep c e kv"
  using assms by (auto simp: lru_rep_def list_all2_append)

lemma lru_rep_Add_present:
  assumes rep: "lru_rep c es kvs" and k: "map_of (items c) k = Some (e, w)"
    and c': "c' = c\<lparr>items := AList.update k (e, v) (items c), lheap := moveToFront e (lheap c)\<rparr>"
  shows "\<exists>es'. lru_rep c' es' ((k, v) # AList.delete k kvs)"
proof -
  from lru_rep_lookup [OF rep k] obtain as bs k1 k2 where split:
    "es = as @ e # bs" "kvs = k1 @ (k, w) # k2" "k \<notin> fst ` set k1" "k \<notin> fst ` set k2"
    "list_all2 (elem_rep c) as k1" "list_all2 (elem_rep c) bs k2" by metis
  from elem_rep_split [OF rep split(1,2)] split have e: "elem_rep c' e (k, v)"
    by (auto simp: elem_rep_def c' AList.update_conv' dest: list_all2_lengthD)
  have other: "k \<notin> fst ` set ks \<Longrightarrow> list_all2 (elem_rep c) xs ks \<Longrightarrow> list_all2 (elem_rep c') xs ks" for xs ks
    by (erule elem_rep_mono) (auto simp: elem_rep_def c' AList.update_conv' image_iff)
  have "lru_rep c' (e # as @ bs) ((k, v) # k1 @ k2)"
    using rep split e other
    by (auto simp: lru_rep_def c' ring_moveToFront AList.distinct_update AList.dom_update
        intro!: list_all2_appendI)
  with split show ?thesis by (auto simp: delete_split)
qed

text \<open>A new key goes to a fresh element, or to the one the oldest pair gives up.\<close>

lemma lru_rep_push:
  assumes rep: "lru_rep c es kvs" and k: "k \<notin> fst ` set kvs" and room: "length kvs < lcap c"
    and e: "e \<notin> set es" "2 \<le> e" "e < fresh c"
    and c': "c' = c\<lparr>items := AList.update k (e, v) (items c),
                   lheap := pushElem e ((lheap c)(e := (lheap c e)\<lparr>elemv := Some k\<rparr>))\<rparr>"
  shows "lru_rep c' (e # es) ((k, v) # kvs)"
proof -
  have "elem_rep c' e (k, v)" by (simp add: elem_rep_def c' AList.update_conv')
  moreover have "list_all2 (elem_rep c') es kvs"
    using rep k e by (auto simp: lru_rep_def elem_rep_def c' AList.update_conv' image_iff elim!: elem_rep_mono)
  moreover have "ring (lheap c') (e # es)"
    unfolding c' using rep e by (auto simp: lru_rep_def intro: ring_pushElem)
  ultimately show ?thesis
    using rep k room e by (auto simp: lru_rep_def c' AList.distinct_update AList.dom_update)
qed

lemma lru_rep_alloc:
  assumes "lru_rep c es kvs"
  shows "lru_rep (c\<lparr>fresh := Suc (fresh c), lheap := (lheap c)(fresh c := z)\<rparr>) es kvs"
proof -
  have "fresh c \<notin> set es" "fresh c \<noteq> root" using assms by (auto simp: lru_rep_def)
  moreover from this have "list_all2 (elem_rep (c\<lparr>fresh := Suc (fresh c), lheap := (lheap c)(fresh c := z)\<rparr>)) es kvs"
    using assms by (auto simp: lru_rep_def elem_rep_def elim!: elem_rep_mono)
  ultimately show ?thesis using assms by (auto simp: lru_rep_def ring_frame)
qed

lemma lru_rep_drop_last:
  assumes rep: "lru_rep c (es @ [e]) (kvs @ [(k, v)])"
  shows "lru_rep (c\<lparr>items := AList.delete k (items c), lheap := list_remove e (lheap c)\<rparr>) es kvs"
    (is "lru_rep ?c es kvs")
proof -
  have k: "k \<notin> fst ` set kvs" using rep by (auto simp: lru_rep_def)
  have "list_all2 (elem_rep c) es kvs" using rep
    by (auto simp: lru_rep_def list_all2_append1 dest: list_all2_lengthD)
  then have "list_all2 (elem_rep ?c) es kvs"
    by (rule elem_rep_mono) (use k in \<open>auto simp: elem_rep_def AList.delete_conv' image_iff\<close>)
  moreover have "ring (lheap ?c) es"
    using ring_list_remove [of "lheap c" es e "[]"] rep by (simp add: lru_rep_def)
  moreover have "fst ` set (AList.delete k (items c)) = fst ` set kvs"
    using rep k by (auto simp: lru_rep_def keys_delete)
  ultimately show ?thesis
    using rep by (auto simp: lru_rep_def AList.distinct_delete)
qed

lemma lru_rep_snoc:
  assumes "lru_rep c es kvs" and "kvs \<noteq> []"
  obtains es0 e kvs0 k v where "es = es0 @ [e]" "kvs = kvs0 @ [(k, v)]" "list_last (lheap c) = e"
    "elemv (lheap c e) = Some k" "2 \<le> e" "e < fresh c" "map_of (items c) k = Some (e, v)"
proof -
  from assms(2) obtain kvs0 k v where kvs: "kvs = kvs0 @ [(k, v)]"
    by (metis prod.collapse rev_exhaust)
  with assms obtain es0 e where es: "es = es0 @ [e]"
    by (cases es rule: rev_cases) (auto simp: lru_rep_def)
  with assms kvs have "elem_rep c e (k, v)"
    by (auto intro!: elem_rep_split [OF assms(1), of es0 e "[]" kvs0 "(k, v)" "[]"]
        simp: lru_rep_def dest: list_all2_lengthD)
  moreover from assms es have "list_last (lheap c) = e" "e \<noteq> nil" "e \<noteq> root" "e < fresh c"
    using list_last_ring [of "lheap c" es] by (auto simp: lru_rep_def ring_def)
  ultimately show thesis using that [OF es kvs] by (auto simp: elem_rep_def)
qed

lemma lru_rep_Add:
  assumes rep: "lru_rep c es kvs" and add: "Add k v c = (b, c')"
  shows "b = fst (spec_add (lcap c) k v kvs) \<and> (\<exists>es'. lru_rep c' es' (snd (spec_add (lcap c) k v kvs)))"
proof (cases "map_of (items c) k")
  case (Some elemv)
  obtain e w where elemv: "elemv = (e, w)" by (cases elemv)
  from Some rep have "k \<in> fst ` set kvs" by (metis lru_rep_None option.distinct(1))
  with lru_rep_Add_present [OF rep, of k e w c' v] add Some elemv show ?thesis
    by (simp add: Add_def spec_add_def)
next
  case None
  with rep have k: "k \<notin> fst ` set kvs" by (simp add: lru_rep_None)
  have len: "Len c = length kvs" using lru_rep_length [OF rep] by (simp add: Len_def)
  show ?thesis
  proof (cases "lcap c \<le> length kvs")
    case full: True
    with rep have "kvs \<noteq> []" by (auto simp: lru_rep_def)
    from lru_rep_snoc [OF rep this] obtain es0 e kvs0 k0 v0 where
      *: "es = es0 @ [e]" "kvs = kvs0 @ [(k0, v0)]" "list_last (lheap c) = e"
        "elemv (lheap c e) = Some k0" "2 \<le> e" "e < fresh c" by metis
    let ?c = "c\<lparr>items := AList.delete k0 (items c), lheap := list_remove e (lheap c)\<rparr>"
    have rep0: "lru_rep ?c es0 kvs0" using rep * by (blast intro: lru_rep_drop_last)
    have "e \<notin> set es0" using rep * by (auto simp: lru_rep_def ring_def)
    have "Add k v c = (True, ?c\<lparr>items := AList.update k (e, v) (items ?c),
                               lheap := pushElem e ((lheap ?c)(e := (lheap ?c e)\<lparr>elemv := Some k\<rparr>))\<rparr>)"
      using None len full * by (simp add: Add_def Let_def removeLast_def delete_elem_key_def)
    with add have b: "b" and c': "c' = ?c\<lparr>items := AList.update k (e, v) (items ?c),
                               lheap := pushElem e ((lheap ?c)(e := (lheap ?c e)\<lparr>elemv := Some k\<rparr>))\<rparr>"
      by simp_all
    have "lru_rep c' (e # es0) ((k, v) # kvs0)"
      by (rule lru_rep_push [OF rep0 _ _ \<open>e \<notin> set es0\<close> _ _ c'])
        (use rep k * in \<open>auto simp: lru_rep_def\<close>)
    with b k full * show ?thesis by (auto simp: spec_add_def)
  next
    case False
    let ?c = "c\<lparr>fresh := Suc (fresh c), lheap := (lheap c)(fresh c := \<lparr>enext = nil, eprev = nil, elemv = None\<rparr>)\<rparr>"
    have rep0: "lru_rep ?c es kvs" by (rule lru_rep_alloc [OF rep])
    have "fresh c \<notin> set es" "2 \<le> fresh c" using rep by (auto simp: lru_rep_def)
    with lru_rep_push [OF rep0, of k "fresh c" _ v] k False add None len show ?thesis
      by (auto simp: Add_def Let_def spec_add_def)
  qed
qed

lemma lru_rep_Keys: "lru_rep c es kvs \<Longrightarrow> Keys c = Some (map (Some \<circ> fst) (rev kvs))"
proof -
  assume rep: "lru_rep c es kvs"
  then have "list_all2 (elem_rep c) es kvs" by (simp add: lru_rep_def)
  then have "map (elemv \<circ> lheap c) es = map (Some \<circ> fst) kvs"
    by (induction es kvs rule: list_all2_induct) (auto simp: elem_rep_def)
  moreover have "Keys c = Some (map (elemv \<circ> lheap c) (rev es))"
    using rep appendTo_ring [of "lheap c" es "[]"] by (simp add: Keys_def lru_rep_def)
  ultimately show ?thesis by (simp add: rev_map [symmetric])
qed

lemma lru_rep_Purge: "lru_rep c es kvs \<Longrightarrow> lru_rep (Purge c) [] []"
  by (simp add: lru_rep_def Purge_def ring_init)

lemma lru_rep_Remove:
  assumes rep: "lru_rep c es kvs" and rem: "Remove k c = (b, c')"
  shows "b = (k \<in> fst ` set kvs) \<and> (\<exists>es'. lru_rep c' es' (AList.delete k kvs))"
proof (cases "map_of (items c) k")
  case None
  with rem rep show ?thesis by (auto simp: Remove_def lru_rep_None)
next
  case (Some elemv)
  obtain e w where elemv: "elemv = (e, w)" by (cases elemv)
  from lru_rep_lookup [OF rep] Some elemv obtain as bs k1 k2 where split:
    "es = as @ e # bs" "kvs = k1 @ (k, w) # k2" "k \<notin> fst ` set k1" "k \<notin> fst ` set k2"
    "list_all2 (elem_rep c) as k1" "list_all2 (elem_rep c) bs k2" by metis
  from rem Some elemv have b: "b" and c': "c' = c\<lparr>items := AList.delete k (items c), lheap := list_remove e (lheap c)\<rparr>"
    by (auto simp: Remove_def)
  have "k \<notin> fst ` set ks \<Longrightarrow> list_all2 (elem_rep c) xs ks \<Longrightarrow> list_all2 (elem_rep c') xs ks" for xs ks
    by (erule elem_rep_mono) (auto simp: elem_rep_def c' AList.delete_conv' image_iff)
  with rep split have "lru_rep c' (as @ bs) (k1 @ k2)"
    by (auto simp: lru_rep_def c' ring_list_remove keys_delete AList.distinct_delete intro!: list_all2_appendI)
  with b split show ?thesis by (auto simp: delete_split)
qed

lemma lru_rep_RemoveOldest:
  assumes rep: "lru_rep c es kvs" and rem: "RemoveOldest c = (r, c')"
  shows "r = (if kvs = [] then None else Some (last kvs)) \<and> (\<exists>es'. lru_rep c' es' (butlast kvs))"
proof (cases "kvs = []")
  case True
  with rep rem show ?thesis by (auto simp: RemoveOldest_def lru_rep_def list_last_ring)
next
  case False
  from lru_rep_snoc [OF rep False] obtain es0 e kvs0 k v where
    *: "es = es0 @ [e]" "kvs = kvs0 @ [(k, v)]" "list_last (lheap c) = e" "elemv (lheap c e) = Some k"
      "2 \<le> e" "map_of (items c) k = Some (e, v)" by metis
  with lru_rep_drop_last [of c es0 e kvs0 k v] rep rem show ?thesis
    by (auto simp: RemoveOldest_def GetOldest_def Let_def delete_elem_key_def)
qed

section \<open>The contract a cache keeps\<close>

text \<open>
  What the engine relies on: a lookup changes no binding, an addition binds its key and may drop other
  bindings but never makes one up.  Under this contract a property of all cached pairs
  (\<open>coherent P\<close>) survives every lookup, and every addition of a pair that has it.
\<close>

locale cache =
  fixes inv :: "'c \<Rightarrow> bool"
    and lookup :: "'k \<Rightarrow> 'c \<Rightarrow> 'v option"
    and get :: "'k \<Rightarrow> 'c \<Rightarrow> 'v option \<times> 'c"
    and add :: "'k \<Rightarrow> 'v \<Rightarrow> 'c \<Rightarrow> bool \<times> 'c"
  assumes inv_get: "inv c \<Longrightarrow> inv (snd (get k c))"
    and inv_add: "inv c \<Longrightarrow> inv (snd (add k v c))"
    and get_lookup: "inv c \<Longrightarrow> fst (get k c) = lookup k c"
    and lookup_get: "inv c \<Longrightarrow> lookup k' (snd (get k c)) = lookup k' c"
    and lookup_add: "inv c \<Longrightarrow> lookup k (snd (add k v c)) = Some v"
    and lookup_add_other: "inv c \<Longrightarrow> k' \<noteq> k \<Longrightarrow> lookup k' (snd (add k v c)) = Some w \<Longrightarrow> lookup k' c = Some w"
begin

definition coherent :: "('k \<Rightarrow> 'v \<Rightarrow> bool) \<Rightarrow> 'c \<Rightarrow> bool" where
  "coherent P c \<longleftrightarrow> inv c \<and> (\<forall>k v. lookup k c = Some v \<longrightarrow> P k v)"

lemma coherent_get: "coherent P c \<Longrightarrow> coherent P (snd (get k c))"
  by (auto simp: coherent_def inv_get lookup_get)

lemma coherent_getD: "coherent P c \<Longrightarrow> get k c = (Some v, c') \<Longrightarrow> P k v"
  by (auto simp: coherent_def) (metis fst_conv get_lookup)

lemma coherent_add: "coherent P c \<Longrightarrow> P k v \<Longrightarrow> coherent P (snd (add k v c))"
  unfolding coherent_def by (metis inv_add lookup_add lookup_add_other option.inject)

lemma coherent_mono: "coherent P c \<Longrightarrow> (\<And>k v. P k v \<Longrightarrow> Q k v) \<Longrightarrow> coherent Q c"
  by (auto simp: coherent_def)

end

lemma lru_inv_New [simp]: "lru_inv (NewBasicLRU n)"
  unfolding lru_inv_def using lru_rep_New by blast

lemma lru_inv_Get: "lru_inv c \<Longrightarrow> lru_inv (snd (Get k c))"
  unfolding lru_inv_def by (metis lru_rep_Get prod.collapse)

lemma lru_inv_Add: "lru_inv c \<Longrightarrow> lru_inv (snd (Add k v c))"
  unfolding lru_inv_def by (metis lru_rep_Add prod.collapse)

lemma Peek_Get: "Peek k' (snd (Get k c)) = Peek k' c"
  by (auto simp: Get_def Peek_def split: option.splits)

lemma Peek_Add:
  assumes "lru_inv c"
  shows "\<exists>kvs. (\<forall>k'. Peek k' c = map_of kvs k') \<and>
           (\<forall>k'. Peek k' (snd (Add k v c)) = map_of (snd (spec_add (lcap c) k v kvs)) k')"
proof -
  from assms obtain es kvs where rep: "lru_rep c es kvs" by (auto simp: lru_inv_def)
  from lru_rep_Add [OF rep surjective_pairing, of k v] obtain es' where
    "lru_rep (snd (Add k v c)) es' (snd (spec_add (lcap c) k v kvs))" by blast
  with rep show ?thesis by (intro exI [of _ kvs]) (simp add: lru_rep_map_of)
qed

lemma map_of_butlast: "map_of (butlast xs) k = Some v \<Longrightarrow> map_of xs k = Some v"
  by (cases xs rule: rev_cases) (simp_all add: map_add_Some_iff)

lemma Get_Peek: "fst (Get k c) = Peek k c"
  by (auto simp: Get_def Peek_def split: option.splits)

lemma Peek_Add_same:
  assumes "lru_inv c"
  shows "Peek k (snd (Add k v c)) = Some v"
proof -
  from Peek_Add [OF assms, of k v] obtain kvs where
    "Peek k (snd (Add k v c)) = map_of (snd (spec_add (lcap c) k v kvs)) k" by blast
  then show ?thesis by (simp add: spec_add_def)
qed

lemma Peek_Add_other:
  assumes "lru_inv c" and "k' \<noteq> k" and "Peek k' (snd (Add k v c)) = Some w"
  shows "Peek k' c = Some w"
proof -
  from Peek_Add [OF assms(1), of k v] obtain kvs where "Peek k' c = map_of kvs k'"
    and "Peek k' (snd (Add k v c)) = map_of (snd (spec_add (lcap c) k v kvs)) k'" by blast
  with assms(2,3) show ?thesis by (auto simp: spec_add_def split: if_splits dest: map_of_butlast)
qed

interpretation lru: cache lru_inv Peek Get Add
  by unfold_locales
    (simp_all add: lru_inv_Get lru_inv_Add Get_Peek Peek_Get Peek_Add_same, erule (2) Peek_Add_other)

section \<open>Any sequence of operations\<close>

datatype ('k, 'v) lru_op = OpAdd 'k 'v | OpGet 'k | OpRemove 'k | OpRemoveOldest | OpPurge

fun lru_exec :: "('k, 'v) lru_op \<Rightarrow> ('k, 'v) lru \<Rightarrow> ('k, 'v) lru" where
  "lru_exec (OpAdd k v) c = snd (Add k v c)"
| "lru_exec (OpGet k) c = snd (Get k c)"
| "lru_exec (OpRemove k) c = snd (Remove k c)"
| "lru_exec OpRemoveOldest c = snd (RemoveOldest c)"
| "lru_exec OpPurge c = Purge c"

fun spec_exec :: "nat \<Rightarrow> ('k, 'v) lru_op \<Rightarrow> ('k \<times> 'v) list \<Rightarrow> ('k \<times> 'v) list" where
  "spec_exec n (OpAdd k v) kvs = snd (spec_add n k v kvs)"
| "spec_exec n (OpGet k) kvs = spec_touch k kvs"
| "spec_exec n (OpRemove k) kvs = AList.delete k kvs"
| "spec_exec n OpRemoveOldest kvs = butlast kvs"
| "spec_exec n OpPurge kvs = []"

lemma lru_exec_rep:
  assumes rep: "lru_rep c es kvs"
  shows "\<exists>es'. lru_rep (lru_exec a c) es' (spec_exec (lcap c) a kvs)"
proof (cases a)
  case (OpAdd k v)
  then show ?thesis using lru_rep_Add [OF rep surjective_pairing] by simp
next
  case (OpGet k)
  then show ?thesis using lru_rep_Get [OF rep surjective_pairing] by simp
next
  case (OpRemove k)
  then show ?thesis using lru_rep_Remove [OF rep surjective_pairing] by simp
next
  case OpRemoveOldest
  then show ?thesis using lru_rep_RemoveOldest [OF rep surjective_pairing] by simp
next
  case OpPurge
  then show ?thesis using lru_rep_Purge [OF rep] by auto
qed

lemma lcap_Add: "lcap (snd (Add k v c)) = lcap c"
  by (cases "map_of (items c) k") (simp_all add: Add_def Let_def split_beta)

lemma lcap_exec [simp]: "lcap (lru_exec a c) = lcap c"
  by (cases a)
    (simp_all add: lcap_Add Get_def Remove_def RemoveOldest_def Purge_def Let_def split_beta split: option.split)

lemma lru_run_rep:
  assumes "lru_rep c es kvs"
  shows "\<exists>es'. lru_rep (fold lru_exec as c) es' (fold (spec_exec (lcap c)) as kvs)"
  using assms
proof (induction as arbitrary: c es kvs)
  case Nil
  then show ?case by auto
next
  case (Cons a as)
  from lru_exec_rep [OF Cons.prems] obtain es' where
    "lru_rep (lru_exec a c) es' (spec_exec (lcap c) a kvs)" by blast
  from Cons.IH [OF this] show ?case by simp
qed

text \<open>
  Property C19.  Starting from an empty cache, any sequence of additions, lookups, removals and
  purges leaves the pointer structure in the state the recency-list specification says: \<open>Keys\<close>
  terminates and lists the keys from the oldest to the most recently used, every key is bound to
  its last value, and the capacity is never exceeded.
\<close>

theorem lru_refines_recency_list:
  "let c = fold lru_exec as (NewBasicLRU n); kvs = fold (spec_exec (max 1 (nat n))) as [] in
   Keys c = Some (map (Some \<circ> fst) (rev kvs)) \<and> (\<lambda>k. Peek k c) = map_of kvs \<and>
   Len c = length kvs \<and> Len c \<le> max 1 (nat n)"
proof -
  let ?c = "fold lru_exec as (NewBasicLRU n)" and ?kvs = "fold (spec_exec (max 1 (nat n))) as []"
  have cap: "lcap (NewBasicLRU n) = max 1 (nat n)" by (simp add: NewBasicLRU_def)
  from lru_run_rep [OF lru_rep_New, of as n] obtain es where rep: "lru_rep ?c es ?kvs"
    unfolding cap by blast
  have "lcap ?c = max 1 (nat n)" by (induction as rule: rev_induct) (simp_all add: cap)
  with rep lru_rep_Keys [OF rep] lru_rep_map_of [OF rep] lru_rep_length [OF rep] show ?thesis
    by (simp add: Let_def Len_def lru_rep_def fun_eq_iff)
qed

end
