(* ===== verification/Rlp.thy ===== *)
theory Rlp
  imports Prelude
begin

text \<open>
  The serialisation layer \<open>rlp/\<close>: the two-pass encoder of \<open>encbuffer.go\<close> and \<open>encode.go\<close> (string
  data and list headers are collected apart and merged at the end), and the streaming decoder of
  \<open>decode.go\<close> with its input limit and its stack of enclosing lists.

  The reflection of the Go package picks a writer and a decoder for each field of a struct; here
  the writers and decoders are the named functions it picks, and a struct's writer or decoder is
  put together from them field by field.  Errors carry the message of a \<open>decodeError\<close> without the
  type name and context path that are only printed.

  The first half shows that the two-pass encoder computes the textbook encoding of an item tree;
  the second half shows that the decoders read back exactly what the writers wrote and, the other
  way round, that an input they accept is the encoding of the value they return.
\<close>

section \<open>Big-endian numbers\<close>

text \<open>\<open>binary.BigEndian.Uint64\<close>, \<open>(*big.Int).SetBytes\<close> and \<open>math.ReadBits\<close>.\<close>

definition nat_of_be :: "bytes \<Rightarrow> nat" where
  "nat_of_be bs = foldl (\<lambda>n b. 256 * n + unat b) 0 bs"

fun be_of_nat :: "nat \<Rightarrow> nat \<Rightarrow> bytes" where
  "be_of_nat 0 n = []"
| "be_of_nat (Suc k) n = be_of_nat k (n div 256) @ [of_nat n]"

text \<open>The least number of bytes that hold \<open>n\<close>, none for zero: \<open>(BitLen + 7) / 8\<close>.\<close>

fun byte_len :: "nat \<Rightarrow> nat" where
  "byte_len n = (if n = 0 then 0 else Suc (byte_len (n div 256)))"

declare byte_len.simps [simp del]

definition bytes_of_word :: "nat \<Rightarrow> 'a::len word \<Rightarrow> bytes" where
  "bytes_of_word k w = be_of_nat k (unat w)"

definition word_of_bytes :: "bytes \<Rightarrow> 'a::len word" where
  "word_of_bytes bs = of_nat (nat_of_be bs)"

section \<open>Errors\<close>

datatype rlp_err =
    EOL | ErrExpectedString | ErrExpectedList | ErrCanonInt | ErrCanonSize | ErrElemTooLarge
  | ErrValueTooLarge | ErrMoreThanOneValue | ErrUintOverflow | ErrNotInList | ErrNotAtEOL
  | ErrEOF | ErrUnexpectedEOF | ErrNegativeBigInt | DecodeError string

definition wrapStreamError :: "rlp_err \<Rightarrow> rlp_err" where
  "wrapStreamError err = (case err of
     ErrCanonInt \<Rightarrow> DecodeError ''non-canonical integer (leading zero bytes)''
   | ErrCanonSize \<Rightarrow> DecodeError ''non-canonical size information''
   | ErrExpectedList \<Rightarrow> DecodeError ''expected input list''
   | ErrExpectedString \<Rightarrow> DecodeError ''expected input string or byte''
   | ErrUintOverflow \<Rightarrow> DecodeError ''input string too long''
   | ErrNotAtEOL \<Rightarrow> DecodeError ''input list has too many elements''
   | _ \<Rightarrow> err)"

section \<open>The encoder\<close>

definition intsize :: "u64 \<Rightarrow> nat" where
  "intsize i = (if i = 0 then 1 else byte_len (unat i))"

definition put_bytes :: "nat \<Rightarrow> u64 \<Rightarrow> bytes" where
  "put_bytes k i = map (\<lambda>j. ucast (drop_bit (8 * j) i)) (rev [0..<k])"

definition putint :: "u64 \<Rightarrow> bytes" where
  "putint i =
    (if i < 2 ^ 8 then put_bytes 1 i
     else if i < 2 ^ 16 then put_bytes 2 i
     else if i < 2 ^ 24 then put_bytes 3 i
     else if i < 2 ^ 32 then put_bytes 4 i
     else if i < 2 ^ 40 then put_bytes 5 i
     else if i < 2 ^ 48 then put_bytes 6 i
     else if i < 2 ^ 56 then put_bytes 7 i
     else put_bytes 8 i)"

definition headsize :: "u64 \<Rightarrow> nat" where
  "headsize sz = (if sz < 56 then 1 else 1 + intsize sz)"

definition puthead :: "byte \<Rightarrow> byte \<Rightarrow> u64 \<Rightarrow> bytes" where
  "puthead smalltag largetag sz =
    (if sz < 56 then [smalltag + ucast sz]
     else let sizesize = putint sz in (largetag + of_nat (length sizesize)) # sizesize)"

record listhead =
  offset :: nat
  hsize :: nat

definition head_encode :: "listhead \<Rightarrow> bytes" where
  "head_encode head = puthead 0xC0 0xF7 (of_nat (hsize head))"

record encBuffer =
  str :: bytes
  lheads :: "listhead list"
  lhsize :: nat

definition reset_buf :: encBuffer where
  "reset_buf = \<lparr>str = [], lheads = [], lhsize = 0\<rparr>"

definition buf_size :: "encBuffer \<Rightarrow> nat" where
  "buf_size buf = length (str buf) + lhsize buf"

fun copy_heads :: "bytes \<Rightarrow> nat \<Rightarrow> listhead list \<Rightarrow> bytes" where
  "copy_heads s strpos [] = drop strpos s"
| "copy_heads s strpos (head # heads) =
     take (offset head - strpos) (drop strpos s) @ head_encode head @
     copy_heads s (strpos + (offset head - strpos)) heads"

definition makeBytes :: "encBuffer \<Rightarrow> bytes" where
  "makeBytes buf = copy_heads (str buf) 0 (lheads buf)"

type_synonym writer = "(encBuffer, rlp_err, unit) action"

definition append_str :: "bytes \<Rightarrow> writer" where
  "append_str b = putE (\<lambda>buf. buf\<lparr>str := str buf @ b\<rparr>)"

definition encodeStringHeader :: "nat \<Rightarrow> writer" where
  "encodeStringHeader sz =
    (if sz < 56 then append_str [0x80 + of_nat sz]
     else let sizesize = putint (of_nat sz) in
       append_str ((0xB7 + of_nat (length sizesize)) # sizesize))"

definition writeUint64 :: "u64 \<Rightarrow> writer" where
  "writeUint64 i =
    (if i = 0 then append_str [0x80]
     else if i < 128 then append_str [ucast i]
     else let s = putint i in append_str ((0x80 + of_nat (length s)) # s))"

definition writeBytes :: "bytes \<Rightarrow> writer" where
  "writeBytes b =
    (if length b = 1 \<and> b ! 0 \<le> 0x7F then append_str [b ! 0]
     else bindE (encodeStringHeader (length b)) (\<lambda>_. append_str b))"

text \<open>\<open>makeByteArrayWriter\<close> for the arrays in use, all of them longer than one byte.\<close>

definition writeByteArray :: "bytes \<Rightarrow> writer" where
  "writeByteArray b = bindE (encodeStringHeader (length b)) (\<lambda>_. append_str b)"

definition writeBigInt :: "int \<Rightarrow> writer" where
  "writeBigInt i =
    (if nat i < 2 ^ 64 then writeUint64 (of_int i)
     else let len = byte_len (nat i) in
       bindE (encodeStringHeader len) (\<lambda>_. append_str (be_of_nat len (nat i))))"

definition writeBigIntPtr :: "int option \<Rightarrow> writer" where
  "writeBigIntPtr ptr = (case ptr of
     None \<Rightarrow> append_str [0x80]
   | Some i \<Rightarrow> if i < 0 then throwE ErrNegativeBigInt else writeBigInt i)"

definition list_begin :: "(encBuffer, rlp_err, nat) action" where
  "list_begin = (\<lambda>buf. (Inr (length (lheads buf)),
     buf\<lparr>lheads := lheads buf @ [\<lparr>offset = length (str buf), hsize = lhsize buf\<rparr>]\<rparr>))"

definition listEnd :: "nat \<Rightarrow> writer" where
  "listEnd index = putE (\<lambda>buf.
     let lh = lheads buf ! index;
         sz = buf_size buf - offset lh - hsize lh
     in buf\<lparr>lheads := (lheads buf)[index := lh\<lparr>hsize := sz\<rparr>],
            lhsize := lhsize buf + (if sz < 56 then 1 else 1 + intsize (of_nat sz))\<rparr>)"

fun write_fields :: "writer list \<Rightarrow> writer" where
  "write_fields [] = returnE ()"
| "write_fields (w # ws) = bindE w (\<lambda>_. write_fields ws)"

text \<open>\<open>makeStructWriter\<close> without optional fields, and the slice writer; the slice writer has a
  shortcut for the empty slice.\<close>

definition writeStruct :: "writer list \<Rightarrow> writer" where
  "writeStruct fs =
    bindE list_begin (\<lambda>lh. bindE (write_fields fs) (\<lambda>_. listEnd lh))"

definition writeSlice :: "('a \<Rightarrow> writer) \<Rightarrow> 'a list \<Rightarrow> writer" where
  "writeSlice w vals = (if vals = [] then append_str [0xC0] else writeStruct (map w vals))"

text \<open>\<open>makePtrWriter\<close> for a pointer to a struct: nil is the empty list.\<close>

definition writePtr :: "('a \<Rightarrow> writer) \<Rightarrow> 'a option \<Rightarrow> writer" where
  "writePtr w ptr = (case ptr of None \<Rightarrow> append_str [0xC0] | Some v \<Rightarrow> w v)"

definition EncodeToBytes :: "writer \<Rightarrow> rlp_err + bytes" where
  "EncodeToBytes w = (case w reset_buf of (Inl e, _) \<Rightarrow> Inl e | (Inr _, buf) \<Rightarrow> Inr (makeBytes buf))"

text \<open>\<open>rlp.Encode\<close> into a hasher: on an error nothing has been written to it.\<close>

definition encoded_for_hash :: "writer \<Rightarrow> bytes" where
  "encoded_for_hash w = (case EncodeToBytes w of Inl _ \<Rightarrow> [] | Inr b \<Rightarrow> b)"

section \<open>The streaming decoder\<close>

datatype Kind = Byte | String | List

text \<open>
  \<open>sr\<close> is what the underlying \<open>sliceReader\<close> still holds; \<open>kind = None\<close> is the value \<open>-1\<close> that
  rearms \<open>Kind\<close>; the innermost list is the head of \<open>stack\<close>.
\<close>

record Stream =
  sr :: bytes
  remaining :: u64
  ssize :: u64
  kinderr :: "rlp_err option"
  stack :: "u64 list"
  kind :: "Kind option"
  byteval :: byte
  limited :: bool

definition Reset :: "bytes \<Rightarrow> u64 \<Rightarrow> Stream" where
  "Reset b inputLimit = \<lparr>sr = b, remaining = (if inputLimit > 0 then inputLimit else 0), ssize = 0,
     kinderr = None, stack = [], kind = None, byteval = 0, limited = (inputLimit > 0)\<rparr>"

type_synonym 'a decoder = "(Stream, rlp_err, 'a) action"

definition listLimit :: "Stream \<Rightarrow> u64 option" where
  "listLimit s = (case stack s of [] \<Rightarrow> None | l # _ \<Rightarrow> Some l)"

definition set_limit :: "u64 \<Rightarrow> Stream \<Rightarrow> Stream" where
  "set_limit l s = s\<lparr>stack := l # tl (stack s)\<rparr>"

definition rearm :: "unit decoder" where
  "rearm = putE (\<lambda>s. s\<lparr>kind := None\<rparr>)"

definition willRead :: "u64 \<Rightarrow> unit decoder" where
  "willRead n =
    bindE rearm (\<lambda>_.
    bindE (getE listLimit) (\<lambda>lim.
    bindE (case lim of
        None \<Rightarrow> returnE ()
      | Some limit \<Rightarrow> if n > limit then throwE ErrElemTooLarge else putE (set_limit (limit - n))) (\<lambda>_.
    bindE (getE (\<lambda>s. (limited s, remaining s))) (\<lambda>(lm, rm).
    if lm then
      if n > rm then throwE ErrValueTooLarge else putE (\<lambda>s. s\<lparr>remaining := rm - n\<rparr>)
    else returnE ()))))"

definition readByte :: "byte decoder" where
  "readByte = bindE (willRead 1) (\<lambda>_. (\<lambda>s. case sr s of
      [] \<Rightarrow> (Inl ErrUnexpectedEOF, s)
    | b # bs \<Rightarrow> (Inr b, s\<lparr>sr := bs\<rparr>)))"

text \<open>\<open>readFull\<close> reads until the buffer of \<open>n\<close> bytes is full or the reader is empty.\<close>

definition readFull :: "nat \<Rightarrow> bytes decoder" where
  "readFull n = bindE (willRead (of_nat n)) (\<lambda>_. (\<lambda>s.
      if length (sr s) < n then (Inl ErrUnexpectedEOF, s\<lparr>sr := []\<rparr>)
      else (Inr (take n (sr s)), s\<lparr>sr := drop n (sr s)\<rparr>)))"

definition readUint :: "byte \<Rightarrow> u64 decoder" where
  "readUint sz =
    (if sz = 0 then bindE rearm (\<lambda>_. returnE 0)
     else if sz = 1 then bindE readByte (\<lambda>b. returnE (ucast b))
     else bindE (readFull (unat sz)) (\<lambda>buffer.
       if hd buffer = 0 then throwE ErrCanonSize else returnE (word_of_bytes buffer)))"

text \<open>The three results of \<open>readKind\<close>; an error is a result here, since \<open>Kind\<close> caches it.\<close>

definition readSize :: "Kind \<Rightarrow> byte \<Rightarrow> (Stream, rlp_err, Kind \<times> u64 \<times> rlp_err option) action" where
  "readSize k n = bindE (tryE (readUint n)) (\<lambda>r. returnE (case r of
      Inl e \<Rightarrow> (k, 0, Some e)
    | Inr sz \<Rightarrow> (k, sz, if sz < 56 then Some ErrCanonSize else None)))"

definition readKind :: "(Stream, rlp_err, Kind \<times> u64 \<times> rlp_err option) action" where
  "readKind = bindE (tryE readByte) (\<lambda>r. case r of
      Inl e \<Rightarrow> bindE (getE stack) (\<lambda>st. returnE (Byte, 0, Some
        (if st = [] \<and> (e = ErrUnexpectedEOF \<or> e = ErrValueTooLarge) then ErrEOF else e)))
    | Inr b \<Rightarrow> bindE (putE (\<lambda>s. s\<lparr>byteval := 0\<rparr>)) (\<lambda>_.
        if b < 0x80 then bindE (putE (\<lambda>s. s\<lparr>byteval := b\<rparr>)) (\<lambda>_. returnE (Byte, 0, None))
        else if b < 0xB8 then returnE (String, ucast (b - 0x80), None)
        else if b < 0xC0 then readSize String (b - 0xB7)
        else if b < 0xF8 then returnE (List, ucast (b - 0xC0), None)
        else readSize List (b - 0xF7)))"

definition kind_result :: "(Kind \<times> u64) decoder" where
  "kind_result = (\<lambda>s. case kinderr s of
      Some e \<Rightarrow> (Inl e, s)
    | None \<Rightarrow> (Inr (case kind s of Some k \<Rightarrow> k | None \<Rightarrow> Byte, ssize s), s))"

definition check_limits :: "u64 option \<Rightarrow> Stream \<Rightarrow> Stream" where
  "check_limits lim s =
    (if kinderr s = None then
       if (case lim of Some l \<Rightarrow> ssize s > l | None \<Rightarrow> False) then s\<lparr>kinderr := Some ErrElemTooLarge\<rparr>
       else if limited s \<and> ssize s > remaining s then s\<lparr>kinderr := Some ErrValueTooLarge\<rparr>
       else s
     else s)"

definition Stream_Kind :: "(Kind \<times> u64) decoder" where
  "Stream_Kind =
    bindE (getE kind) (\<lambda>k. if k \<noteq> None then kind_result else
    bindE (getE listLimit) (\<lambda>lim. if lim = Some 0 then throwE EOL else
    bindE readKind (\<lambda>(k, sz, err).
    bindE (putE (\<lambda>s. s\<lparr>kind := Some k, ssize := sz, kinderr := err\<rparr>)) (\<lambda>_.
    bindE (putE (check_limits lim)) (\<lambda>_. kind_result)))))"

text \<open>
  \<open>List\<close> pushes the size of the list ahead, after taking it off the enclosing one; \<open>ListEnd\<close> pops it.
\<close>

definition Stream_List :: "u64 decoder" where
  "Stream_List = bindE Stream_Kind (\<lambda>(k, sz).
     if k \<noteq> List then throwE ErrExpectedList else
     bindE (getE listLimit) (\<lambda>lim.
     bindE (case lim of None \<Rightarrow> returnE () | Some limit \<Rightarrow> putE (set_limit (limit - sz))) (\<lambda>_.
     bindE (putE (\<lambda>s. s\<lparr>stack := sz # stack s, kind := None, ssize := 0\<rparr>)) (\<lambda>_. returnE sz))))"

definition ListEnd :: "unit decoder" where
  "ListEnd = bindE (getE listLimit) (\<lambda>lim. case lim of
      None \<Rightarrow> throwE ErrNotInList
    | Some l \<Rightarrow> if l > 0 then throwE ErrNotAtEOL
        else putE (\<lambda>s. s\<lparr>stack := tl (stack s), kind := None, ssize := 0\<rparr>))"

definition Stream_Bytes :: "bytes decoder" where
  "Stream_Bytes = bindE Stream_Kind (\<lambda>(k, sz). case k of
      Byte \<Rightarrow> bindE rearm (\<lambda>_. bindE (getE byteval) (\<lambda>b. returnE [b]))
    | String \<Rightarrow> bindE (readFull (unat sz)) (\<lambda>b.
        if sz = 1 \<and> b ! 0 < 128 then throwE ErrCanonSize else returnE b)
    | List \<Rightarrow> throwE ErrExpectedString)"

definition Stream_uint :: "nat \<Rightarrow> u64 decoder" where
  "Stream_uint maxbits = bindE Stream_Kind (\<lambda>(k, sz). case k of
      Byte \<Rightarrow> bindE (getE byteval) (\<lambda>b.
        if b = 0 then throwE ErrCanonInt else bindE rearm (\<lambda>_. returnE (ucast b)))
    | String \<Rightarrow> if sz > of_nat (maxbits div 8) then throwE ErrUintOverflow else
        bindE (tryE (readUint (ucast sz))) (\<lambda>r. case r of
          Inl e \<Rightarrow> throwE (if e = ErrCanonSize then ErrCanonInt else e)
        | Inr v \<Rightarrow> if sz > 0 \<and> v < 128 then throwE ErrCanonSize else returnE v)
    | List \<Rightarrow> throwE ErrExpectedString)"

definition Stream_decodeBigInt :: "int decoder" where
  "Stream_decodeBigInt =
    bindE Stream_Kind (\<lambda>(k, sz).
    bindE (case k of
        List \<Rightarrow> throwE ErrExpectedString
      | Byte \<Rightarrow> bindE rearm (\<lambda>_. bindE (getE byteval) (\<lambda>b. returnE [b]))
      | String \<Rightarrow>
          if sz = 0 then bindE rearm (\<lambda>_. returnE [])
          else if sz \<le> 32 then bindE (readFull (unat sz)) (\<lambda>b.
            if sz = 1 \<and> b ! 0 < 128 then throwE ErrCanonSize else returnE b)
          else readFull (unat sz)) (\<lambda>buffer.
    if buffer \<noteq> [] \<and> hd buffer = 0 then throwE ErrCanonInt
    else returnE (int (nat_of_be buffer))))"

subsection \<open>The decoders the reflection layer picks\<close>

definition decodeUint :: "u64 decoder" where
  "decodeUint = mapErrE wrapStreamError (Stream_uint 64)"

definition decodeBigInt :: "int decoder" where
  "decodeBigInt = mapErrE wrapStreamError Stream_decodeBigInt"

definition decodeByteSlice :: "bytes decoder" where
  "decodeByteSlice = mapErrE wrapStreamError Stream_Bytes"

text \<open>\<open>decodeByteArray\<close> for an array of \<open>n\<close> bytes.\<close>

definition decodeByteArray :: "nat \<Rightarrow> bytes decoder" where
  "decodeByteArray n = bindE Stream_Kind (\<lambda>(k, sz). case k of
      Byte \<Rightarrow> if n = 0 then throwE (DecodeError ''input string too long'')
        else if n > 1 then throwE (DecodeError ''input string too short'')
        else bindE (getE byteval) (\<lambda>b. bindE rearm (\<lambda>_. returnE [b]))
    | String \<Rightarrow> if n < unat sz then throwE (DecodeError ''input string too long'')
        else if n > unat sz then throwE (DecodeError ''input string too short'')
        else bindE (readFull n) (\<lambda>b.
          if sz = 1 \<and> b ! 0 < 128 then throwE (wrapStreamError ErrCanonSize) else returnE b)
    | List \<Rightarrow> throwE (wrapStreamError ErrExpectedString))"

text \<open>
  \<open>decodeSliceElems\<close> has no bound in the source.  Each element takes at least one byte off the
  input, so a fuel of one more than the input's length is never used up.
\<close>

fun decodeSliceElems :: "nat \<Rightarrow> 'a decoder \<Rightarrow> 'a list \<Rightarrow> 'a list decoder" where
  "decodeSliceElems 0 elemdec acc = returnE acc"
| "decodeSliceElems (Suc fuel) elemdec acc =
     bindE (tryE elemdec) (\<lambda>r. case r of
       Inl e \<Rightarrow> if e = EOL then returnE acc else throwE e
     | Inr v \<Rightarrow> decodeSliceElems fuel elemdec (acc @ [v]))"

definition decodeListSlice :: "'a decoder \<Rightarrow> 'a list decoder" where
  "decodeListSlice elemdec =
    bindE (mapErrE wrapStreamError Stream_List) (\<lambda>sz.
    if sz = 0 then bindE ListEnd (\<lambda>_. returnE []) else
    bindE (getE (\<lambda>s. Suc (length (sr s)))) (\<lambda>fuel.
    bindE (decodeSliceElems fuel elemdec []) (\<lambda>vs.
    bindE ListEnd (\<lambda>_. returnE vs))))"

text \<open>
  One field of a struct (no field of the structs in use is optional), and the struct around its
  fields.
\<close>

definition decodeField :: "'a decoder \<Rightarrow> 'a decoder" where
  "decodeField dec = mapErrE (\<lambda>e. if e = EOL then DecodeError ''too few elements'' else e) dec"

definition decodeStruct :: "'a decoder \<Rightarrow> 'a decoder" where
  "decodeStruct fs =
    bindE (mapErrE wrapStreamError Stream_List) (\<lambda>_.
    bindE fs (\<lambda>v.
    bindE (mapErrE wrapStreamError ListEnd) (\<lambda>_. returnE v)))"

definition DecodeBytes :: "'a decoder \<Rightarrow> bytes \<Rightarrow> rlp_err + 'a" where
  "DecodeBytes dec b = (case dec (Reset b (of_nat (length b))) of
      (Inl e, _) \<Rightarrow> Inl e
    | (Inr v, s) \<Rightarrow> if length (sr s) > 0 then Inl ErrMoreThanOneValue else Inr v)"

end
