(* ===== verification/Rlp_Laws.thy ===== *)
theory Rlp_Laws
  imports Rlp
begin

text \<open>
  The laws of the serialisation layer.  \<open>emits\<close> says what the two-pass encoder writes, against the
  textbook encoding (\<open>enc_str\<close>, \<open>enc_list\<close>, \<open>enc_nat\<close>).  The locales \<open>rlp_reader\<close>, \<open>rlp_codec\<close> and
  \<open>rlp_elem\<close> are the contract of a decoder; they are interpreted on the stream decoders of the model
  and closed under sequencing, structs and slices, so that the decoders of the consensus messages
  get their round trip and their canonicity from the fields.
\<close>

section \<open>Big-endian numbers\<close>

lemma length_be_of_nat [simp]: "length (be_of_nat k n) = k"
  by (induction k arbitrary: n) auto

lemma nat_of_be_snoc [simp]: "nat_of_be (bs @ [b]) = 256 * nat_of_be bs + unat b"
  by (simp add: nat_of_be_def)

lemma nat_of_be_Nil [simp]: "nat_of_be [] = 0"
  by (simp add: nat_of_be_def)

lemma nat_of_be_of_nat: "nat_of_be (be_of_nat k n) = n mod 256 ^ k"
proof (induction k arbitrary: n)
  case 0
  then show ?case by simp
next
  case (Suc k)
  have "unat (of_nat n :: byte) = n mod 256" by (simp add: unat_of_nat take_bit_eq_mod)
  moreover have "n mod 256 ^ Suc k = 256 * (n div 256 mod 256 ^ k) + n mod 256"
    by (simp add: mod_mult2_eq)
  ultimately show ?case using Suc by simp
qed

lemma nat_of_be_less: "nat_of_be bs < 256 ^ length bs"
proof (induction bs rule: rev_induct)
  case Nil
  then show ?case by simp
next
  case (snoc b bs)
  have "unat b < 256" using unat_lt2p [of b] by simp
  with snoc show ?case by simp
qed

lemma be_of_nat_of_be [simp]: "be_of_nat (length bs) (nat_of_be bs) = bs"
proof (induction bs rule: rev_induct)
  case Nil
  then show ?case by simp
next
  case (snoc b bs)
  have "unat b < 256" using unat_lt2p [of b] by simp
  then have "(256 * nat_of_be bs + unat b) div 256 = nat_of_be bs" by simp
  moreover have "of_nat (256 * nat_of_be bs + unat b) = b"
    using \<open>unat b < 256\<close>
    by (simp add: word_unat_eq_iff unat_of_nat take_bit_eq_mod del: of_nat_add of_nat_mult)
  ultimately show ?case using snoc by (simp del: of_nat_add of_nat_mult)
qed

lemma be_of_nat_Suc_hd:
  "be_of_nat (Suc k) n = of_nat (n div 256 ^ k) # be_of_nat k n"
  by (induction k arbitrary: n) (simp_all add: div_mult2_eq)

lemma byte_len_0 [simp]: "byte_len 0 = 0"
  by (simp add: byte_len.simps [of 0])

lemma byte_len_step: "n \<noteq> 0 \<Longrightarrow> byte_len n = Suc (byte_len (n div 256))"
  by (simp add: byte_len.simps [of n])

lemma byte_len_upper: "n < 256 ^ byte_len n"
proof (induction n rule: byte_len.induct)
  case (1 n)
  show ?case
  proof (cases "n = 0")
    case False
    with 1 have "n div 256 < 256 ^ byte_len (n div 256)" by blast
    then have "n < 256 ^ byte_len (n div 256) * 256" by (simp add: div_less_iff_less_mult)
    then show ?thesis by (simp add: byte_len_step [OF False] mult.commute)
  qed simp
qed

lemma byte_len_lower: "n \<noteq> 0 \<Longrightarrow> 256 ^ (byte_len n - 1) \<le> n"
proof (induction n rule: byte_len.induct)
  case (1 n)
  show ?case
  proof (cases "n div 256 = 0")
    case True
    then show ?thesis using 1(2) by (simp add: byte_len_step)
  next
    case False
    from 1(1) [OF 1(2) False] have "256 ^ (byte_len (n div 256) - 1) * 256 \<le> n"
      by (simp add: less_eq_div_iff_mult_less_eq)
    then show ?thesis by (simp add: byte_len_step [OF 1(2)] byte_len_step [OF False] mult.commute)
  qed
qed

lemmas byte_len_bounds = byte_len_upper byte_len_lower

lemma byte_len_unique:
  assumes lo: "256 ^ k \<le> n" and hi: "n < 256 ^ Suc k"
  shows "byte_len n = Suc k"
proof -
  have "(0 :: nat) < 256 ^ k" by simp
  with lo have n: "n \<noteq> 0" by linarith
  from lo byte_len_upper have "(256 :: nat) ^ k < 256 ^ byte_len n" by (rule le_less_trans)
  then have "k < byte_len n" by (rule power_less_imp_less_exp [rotated]) simp
  moreover from byte_len_lower [OF n] hi have "(256 :: nat) ^ (byte_len n - 1) < 256 ^ Suc k"
    by (rule le_less_trans)
  then have "byte_len n - 1 < Suc k" by (rule power_less_imp_less_exp [rotated]) simp
  ultimately show ?thesis by simp
qed

lemma be_of_nat_byte_len [simp]: "nat_of_be (be_of_nat (byte_len n) n) = n"
  by (simp add: nat_of_be_of_nat byte_len_bounds(1))

lemma byte_len_nat_of_be:
  assumes "bs \<noteq> []" "hd bs \<noteq> 0"
  shows "byte_len (nat_of_be bs) = length bs"
proof -
  obtain k where k: "length bs = Suc k" using assms(1) by (cases bs) auto
  let ?n = "nat_of_be bs"
  have "of_nat (?n div 256 ^ k) # be_of_nat k ?n = bs"
    using be_of_nat_of_be [of bs] unfolding k be_of_nat_Suc_hd .
  from arg_cong [OF this, of hd] assms(2) have "?n div 256 ^ k \<noteq> 0" by (intro notI) simp
  then have "256 ^ k \<le> ?n" by (meson div_less not_le)
  moreover have "?n < 256 ^ Suc k" using nat_of_be_less [of bs] k by simp
  ultimately show ?thesis using byte_len_unique k by simp
qed

lemma hd_be_of_nat_byte_len:
  assumes "n \<noteq> 0"
  shows "hd (be_of_nat (byte_len n) n) \<noteq> 0"
proof -
  obtain k where k: "byte_len n = Suc k" using assms by (simp add: byte_len.simps [of n])
  have lo: "256 ^ k \<le> n" and hi: "n < 256 ^ Suc k"
    using byte_len_bounds [of n] assms k by auto
  then have "0 < n div 256 ^ k" "n div 256 ^ k < 256"
    by (auto simp: div_greater_zero_iff less_mult_imp_div_less)
  then have "unat (of_nat (n div 256 ^ k) :: byte) \<noteq> 0"
    by (simp add: unat_of_nat take_bit_eq_mod)
  then show ?thesis unfolding k be_of_nat_Suc_hd by auto
qed

lemma put_bytes_be: "put_bytes k i = be_of_nat k (unat i)"
proof (induction k)
  case 0
  then show ?case by (simp add: put_bytes_def)
next
  case (Suc k)
  have "ucast (drop_bit (8 * k) i) = (of_nat (unat i div 256 ^ k) :: byte)"
    unfolding word_unat_eq_iff unsigned_ucast_eq unat_drop_bit_eq unat_of_nat
    by (simp add: drop_bit_eq_div take_bit_eq_mod power_mult)
  with Suc show ?case unfolding be_of_nat_Suc_hd by (simp add: put_bytes_def)
qed

lemma putint_be: "putint i = (if i = 0 then [0] else be_of_nat (byte_len (unat i)) (unat i))"
proof (cases "i = 0")
  case True
  then show ?thesis by (simp add: putint_def put_bytes_be)
next
  case False
  have cases: "put_bytes k i = be_of_nat (byte_len (unat i)) (unat i)"
    if "256 ^ (k - 1) \<le> unat i" "unat i < 256 ^ k" "0 < k" for k
    using that byte_len_unique [of "k - 1" "unat i"] by (simp add: put_bytes_be)
  have "unat i < 256 ^ 8" using unat_lt2p [of i] by simp
  moreover have "unat i \<ge> 1" using False by (simp add: Suc_le_eq word_gt_0_no unat_gt_0)
  ultimately show ?thesis
    using False cases [of 1] cases [of 2] cases [of 3] cases [of 4] cases [of 5] cases [of 6] cases [of 7]
      cases [of 8] by (simp add: putint_def word_less_nat_alt)
qed

section \<open>The encoder against the textbook encoding\<close>

definition enc_str :: "bytes \<Rightarrow> bytes" where
  "enc_str b = (if length b = 1 \<and> b ! 0 < 0x80 then b else puthead 0x80 0xB7 (of_nat (length b)) @ b)"

definition enc_list :: "bytes \<Rightarrow> bytes" where
  "enc_list payload = puthead 0xC0 0xF7 (of_nat (length payload)) @ payload"

definition enc_nat :: "nat \<Rightarrow> bytes" where
  "enc_nat n = enc_str (be_of_nat (byte_len n) n)"

definition shift_head :: "nat \<Rightarrow> listhead \<Rightarrow> listhead" where
  "shift_head k h = h\<lparr>offset := offset h + k\<rparr>"

text \<open>The bytes of a stretch of string data with its headers.\<close>

definition heads_len :: "listhead list \<Rightarrow> nat" where
  "heads_len hs = sum_list (map (\<lambda>h. length (head_encode h)) hs)"

definition heads_within :: "bytes \<Rightarrow> listhead list \<Rightarrow> bool" where
  "heads_within s hs \<longleftrightarrow> sorted (map offset hs) \<and> (\<forall>h \<in> set hs. offset h \<le> length s)"

text \<open>
  \<open>emits w b\<close>: whatever the buffer holds, the writer \<open>w\<close> succeeds and appends a closed stretch of
  data and headers whose merged form is \<open>b\<close>.
\<close>

definition emits :: "writer \<Rightarrow> bytes \<Rightarrow> bool" where
  "emits w b \<longleftrightarrow> (\<exists>s hs. copy_heads s 0 hs = b \<and> heads_within s hs \<and>
     (\<forall>buf. w buf = (Inr (), \<lparr>str = str buf @ s, lheads = lheads buf @ map (shift_head (length (str buf))) hs,
        lhsize = lhsize buf + heads_len hs\<rparr>)))"

lemma shift_head_simps [simp]:
  "offset (shift_head k h) = offset h + k" "hsize (shift_head k h) = hsize h"
  "head_encode (shift_head k h) = head_encode h" "shift_head k (shift_head j h) = shift_head (j + k) h"
  by (simp_all add: shift_head_def head_encode_def)

lemma shift_head_0 [simp]: "shift_head 0 = id"
  by (simp add: shift_head_def fun_eq_iff)

lemma copy_heads_shift:
  "copy_heads (s @ t) (length s + p) (map (shift_head (length s)) hs) = copy_heads t p hs"
proof (induction hs arbitrary: p)
  case (Cons h hs)
  from Cons [of "p + (offset h - p)"] show ?case
    by (simp add: algebra_simps)
qed simp

lemma copy_heads_length:
  assumes "sorted (map offset hs)" "\<forall>h \<in> set hs. p \<le> offset h \<and> offset h \<le> length s" "p \<le> length s"
  shows "length (copy_heads s p hs) = length s - p + heads_len hs"
  using assms
proof (induction hs arbitrary: p)
  case (Cons h hs)
  then have "length (copy_heads s (offset h) hs) = length s - offset h + heads_len hs" by simp
  with Cons.prems show ?case by (simp add: heads_len_def min_def) linarith
qed (simp add: heads_len_def)

lemma copy_heads_append:
  assumes "sorted (map offset hs)" "\<forall>h \<in> set hs. p \<le> offset h \<and> offset h \<le> length s" "p \<le> length s"
  shows "copy_heads (s @ t) p (hs @ map (shift_head (length s)) hs') = copy_heads s p hs @ copy_heads t 0 hs'"
  using assms
proof (induction hs arbitrary: p)
  case Nil
  show ?case
  proof (cases hs')
    case Nil
    with \<open>p \<le> length s\<close> show ?thesis by simp
  next
    case (Cons h' rest)
    with \<open>p \<le> length s\<close> copy_heads_shift [of s t "offset h'" rest] show ?thesis
      by (simp add: add.commute)
  qed
next
  case (Cons h hs)
  then have "copy_heads (s @ t) (offset h) (hs @ map (shift_head (length s)) hs') =
    copy_heads s (offset h) hs @ copy_heads t 0 hs'" by simp
  with Cons.prems show ?case by simp
qed

lemma copy_heads_append0:
  "heads_within s hs \<Longrightarrow>
   copy_heads (s @ t) 0 (hs @ map (shift_head (length s)) hs') = copy_heads s 0 hs @ copy_heads t 0 hs'"
  by (rule copy_heads_append) (auto simp: heads_within_def)

lemma length_copy_heads0: "heads_within s hs \<Longrightarrow> length (copy_heads s 0 hs) = length s + heads_len hs"
  by (subst copy_heads_length) (auto simp: heads_within_def)

lemma heads_within_append:
  "heads_within s hs \<Longrightarrow> heads_within t hs' \<Longrightarrow> heads_within (s @ t) (hs @ map (shift_head (length s)) hs')"
  by (fastforce simp: heads_within_def sorted_append comp_def sorted_wrt_map)

lemma heads_len_shift [simp]: "heads_len (map (shift_head k) hs) = heads_len hs"
  by (simp add: heads_len_def comp_def)

lemma heads_len_simps [simp]:
  "heads_len [] = 0" "heads_len (h # hs) = length (head_encode h) + heads_len hs"
  "heads_len (hs @ hs') = heads_len hs + heads_len hs'"
  by (simp_all add: heads_len_def)

lemma emits_append_str: "emits (append_str b) b"
  unfolding emits_def by (rule exI [of _ b], rule exI [of _ "[]"]) (simp add: append_str_def heads_within_def)

lemma emits_returnE: "emits (returnE ()) []"
  unfolding emits_def by (rule exI [of _ "[]"], rule exI [of _ "[]"]) (simp add: heads_within_def)

lemma emits_bindE:
  assumes "emits v a" "emits w b"
  shows "emits (bindE v (\<lambda>_. w)) (a @ b)"
proof -
  from assms(1) obtain s hs where v: "copy_heads s 0 hs = a" "heads_within s hs"
    "\<And>buf. v buf = (Inr (), \<lparr>str = str buf @ s, lheads = lheads buf @ map (shift_head (length (str buf))) hs,
        lhsize = lhsize buf + heads_len hs\<rparr>)" unfolding emits_def by blast
  from assms(2) obtain t gs where w: "copy_heads t 0 gs = b" "heads_within t gs"
    "\<And>buf. w buf = (Inr (), \<lparr>str = str buf @ t, lheads = lheads buf @ map (shift_head (length (str buf))) gs,
        lhsize = lhsize buf + heads_len gs\<rparr>)" unfolding emits_def by blast
  show ?thesis unfolding emits_def
    by (rule exI [of _ "s @ t"], rule exI [of _ "hs @ map (shift_head (length s)) gs"])
      (simp add: v w copy_heads_append0 heads_within_append bindE_def comp_def add.commute add.left_commute)
qed

lemma emits_fields: "list_all2 emits ws bs \<Longrightarrow> emits (write_fields ws) (concat bs)"
proof (induction rule: list_all2_induct)
  case Nil
  show ?case unfolding write_fields.simps concat.simps by (rule emits_returnE)
next
  case (Cons w ws b bs)
  from emits_bindE [OF Cons(1,3)] show ?case by simp
qed

lemma length_putint: "length (putint i) = intsize i"
  by (simp add: putint_be intsize_def)

lemma length_puthead: "length (puthead a b n) = headsize n"
  by (simp add: puthead_def headsize_def Let_def length_putint)

lemma emits_list:
  assumes body: "emits w b" and len: "length b < 2 ^ 64"
  shows "emits (bindE list_begin (\<lambda>lh. bindE w (\<lambda>_. listEnd lh))) (enc_list b)"
proof -
  from body obtain s hs where w: "copy_heads s 0 hs = b" "heads_within s hs"
    "\<And>buf. w buf = (Inr (), \<lparr>str = str buf @ s, lheads = lheads buf @ map (shift_head (length (str buf))) hs,
        lhsize = lhsize buf + heads_len hs\<rparr>)" unfolding emits_def by blast
  let ?h = "\<lparr>offset = 0, hsize = length b\<rparr>"
  have lb: "length b = length s + heads_len hs" using w length_copy_heads0 by metis
  have small: "(of_nat (length b) :: u64) < 56 \<longleftrightarrow> length b < 56"
    using len by (simp add: word_less_nat_alt unat_of_nat take_bit_nat_eq_self)
  have "copy_heads s 0 (?h # hs) = enc_list b"
    by (simp add: w enc_list_def head_encode_def)
  moreover have "heads_within s (?h # hs)" using w(2) by (simp add: heads_within_def)
  moreover have "bindE list_begin (\<lambda>lh. bindE w (\<lambda>_. listEnd lh)) buf = (Inr (),
      \<lparr>str = str buf @ s, lheads = lheads buf @ map (shift_head (length (str buf))) (?h # hs),
       lhsize = lhsize buf + heads_len (?h # hs)\<rparr>)" for buf
    using lb by (simp add: list_begin_def listEnd_def bindE_def w(3) buf_size_def Let_def nth_append
        list_update_append shift_head_def head_encode_def length_puthead headsize_def small lb [symmetric]
        del: of_nat_add)
  ultimately show ?thesis unfolding emits_def by blast
qed

lemma emits_EncodeToBytes: "emits w b \<Longrightarrow> EncodeToBytes w = Inr b"
  by (auto simp: emits_def EncodeToBytes_def makeBytes_def reset_buf_def)

lemma small_word: "n < 2 ^ 64 \<Longrightarrow> (of_nat n :: u64) < 56 \<longleftrightarrow> n < 56"
  by (simp add: word_less_nat_alt unat_of_nat_u64)

lemma ucast_small: "n < 256 \<Longrightarrow> (ucast (of_nat n :: u64) :: byte) = of_nat n"
  by (simp add: word_unat_eq_iff unsigned_ucast_eq unat_of_nat take_bit_nat_eq_self)

lemma emits_string_header:
  "n < 2 ^ 64 \<Longrightarrow> emits (encodeStringHeader n) (puthead 0x80 0xB7 (of_nat n))"
  using emits_append_str by (auto simp: encodeStringHeader_def puthead_def small_word ucast_small Let_def)

lemma emits_writeBytes:
  assumes "length b < 2 ^ 64"
  shows "emits (writeBytes b) (enc_str b)"
proof -
  have le: "x \<le> 0x7F \<longleftrightarrow> x < 0x80" for x :: byte
    by (simp add: word_le_nat_alt word_less_nat_alt less_Suc_eq_le [symmetric])
  show ?thesis
  proof (cases "length b = 1 \<and> b ! 0 < 0x80")
    case True
    then have "[b ! 0] = b" by (cases b) auto
    with True emits_append_str [of b] show ?thesis by (simp add: writeBytes_def enc_str_def le)
  next
    case False
    with emits_bindE [OF emits_string_header [OF assms] emits_append_str [of b]] show ?thesis
      by (auto simp: writeBytes_def enc_str_def le)
  qed
qed

lemma emits_writeByteArray:
  "1 < length b \<Longrightarrow> length b < 2 ^ 64 \<Longrightarrow> emits (writeByteArray b) (enc_str b)"
  using emits_bindE [OF emits_string_header emits_append_str [of b]]
  by (simp add: writeByteArray_def enc_str_def)

lemma byte_len_le: "n < 256 ^ k \<Longrightarrow> byte_len n \<le> k"
proof (cases "n = 0")
  case False
  assume "n < 256 ^ k"
  with byte_len_lower [OF False] have "(256 :: nat) ^ (byte_len n - 1) < 256 ^ k" by (rule le_less_trans)
  then have "byte_len n - 1 < k" by (rule power_less_imp_less_exp [rotated]) simp
  then show ?thesis by simp
qed simp

lemma byte_len_u64: "byte_len (unat (i :: u64)) \<le> 8"
  using unat_lt2p [of i] by (intro byte_len_le) simp

lemma byte_len_1: "0 < n \<Longrightarrow> n < 256 \<Longrightarrow> byte_len n = 1"
  by (simp add: byte_len_unique [of 0 n, simplified])

lemma enc_nat_small: "0 < n \<Longrightarrow> n < 128 \<Longrightarrow> enc_nat n = [of_nat n]"
  by (simp add: enc_nat_def enc_str_def byte_len_1 word_less_nat_alt unat_of_nat take_bit_nat_eq_self)

lemma enc_nat_large:
  assumes "128 \<le> n" "byte_len n < 56"
  shows "enc_nat n = (0x80 + of_nat (byte_len n)) # be_of_nat (byte_len n) n"
proof -
  have "\<not> (byte_len n = 1 \<and> be_of_nat (byte_len n) n ! 0 < 0x80)"
  proof
    assume a: "byte_len n = 1 \<and> be_of_nat (byte_len n) n ! 0 < 0x80"
    with byte_len_upper [of n] have "n < 256" by simp
    with a assms show False by (auto simp: word_less_nat_alt unat_of_nat take_bit_nat_eq_self)
  qed
  with assms show ?thesis
    by (auto simp: enc_nat_def enc_str_def puthead_def small_word ucast_small)
qed

lemma enc_nat_0 [simp]: "enc_nat 0 = [0x80]"
  by (simp add: enc_nat_def enc_str_def puthead_def)

lemma emits_writeUint64: "emits (writeUint64 i) (enc_nat (unat i))"
proof -
  consider "i = 0" | "0 < unat i" "unat i < 128" | "128 \<le> unat i"
    by (metis not_less unat_eq_zero gr_zeroI)
  then show ?thesis
  proof cases
    case 1
    then show ?thesis using emits_append_str by (simp add: writeUint64_def)
  next
    case 2
    then show ?thesis using emits_append_str
      by (auto simp: writeUint64_def enc_nat_small word_less_nat_alt of_nat_unat)
  next
    case 3
    then have "i \<noteq> 0" by auto
    with 3 show ?thesis using emits_append_str byte_len_u64 [of i]
      by (simp add: writeUint64_def enc_nat_large word_less_nat_alt putint_be Let_def)
  qed
qed

lemma emits_writeBigIntPtr:
  assumes "0 \<le> i" "byte_len (nat i) < 2 ^ 64"
  shows "emits (writeBigIntPtr (Some i)) (enc_nat (nat i))"
proof (cases "nat i < 2 ^ 64")
  case True
  then have "unat (of_int i :: u64) = nat i" using assms(1)
    by (simp add: unsigned_of_int take_bit_int_eq_self unat_eq_nat_uint)
  with True assms(1) emits_writeUint64 [of "of_int i"] show ?thesis
    by (simp add: writeBigIntPtr_def writeBigInt_def)
next
  case False
  have "byte_len (nat i) \<noteq> 1" using byte_len_upper [of "nat i"] False by auto
  with False assms(1) emits_bindE [OF emits_string_header [OF assms(2)] emits_append_str [of "be_of_nat (byte_len (nat i)) (nat i)"]]
  show ?thesis by (simp add: writeBigIntPtr_def writeBigInt_def enc_nat_def enc_str_def Let_def)
qed

lemma emits_writeStruct:
  assumes "list_all2 emits ws bs" "length (concat bs) < 2 ^ 64"
  shows "emits (writeStruct ws) (enc_list (concat bs))"
  unfolding writeStruct_def by (intro emits_list emits_fields assms)

lemma emits_writeSlice:
  assumes "\<And>v. v \<in> set vs \<Longrightarrow> emits (w v) (e v)" "length (concat (map e vs)) < 2 ^ 64"
  shows "emits (writeSlice w vs) (enc_list (concat (map e vs)))"
proof (cases "vs = []")
  case True
  then show ?thesis using emits_append_str [of "[0xC0]"] by (simp add: writeSlice_def enc_list_def puthead_def)
next
  case False
  have "list_all2 emits (map w vs) (map e vs)" using assms(1) by (auto simp: list_all2_conv_all_nth)
  from emits_writeStruct [OF this assms(2)] False show ?thesis by (simp add: writeSlice_def)
qed

section \<open>The decoder\<close>

text \<open>The part of a stream that says where it is; the other fields are scratch space of \<open>Kind\<close>.\<close>

definition pos :: "Stream \<Rightarrow> bytes \<times> u64 \<times> u64 list \<times> bool" where
  "pos s = (sr s, remaining s, stack s, limited s)"

fun advance :: "nat \<Rightarrow> bytes \<times> u64 \<times> u64 list \<times> bool \<Rightarrow> bytes \<times> u64 \<times> u64 list \<times> bool" where
  "advance n (r, rem, [], lim) = (drop n r, if lim then rem - of_nat n else rem, [], lim)"
| "advance n (r, rem, l # ls, lim) = (drop n r, if lim then rem - of_nat n else rem, (l - of_nat n) # ls, lim)"

text \<open>\<open>fits n s\<close>: reading \<open>n\<close> bytes stays within the input, its limit and the innermost list.\<close>

definition fits :: "nat \<Rightarrow> Stream \<Rightarrow> bool" where
  "fits n s \<longleftrightarrow> n \<le> length (sr s) \<and> (limited s \<longrightarrow> n \<le> unat (remaining s)) \<and>
     (\<forall>l ls. stack s = l # ls \<longrightarrow> n \<le> unat l)"

lemma advance_advance: "advance m (advance n p) = advance (n + m) p"
  by (cases "(n, p)" rule: advance.cases) (simp_all add: add.commute algebra_simps)

lemma advance_0 [simp]: "advance 0 p = p"
  by (cases "(0 :: nat, p)" rule: advance.cases) simp_all

lemma fst_advance [simp]: "fst (advance n p) = drop n (fst p)"
  by (cases "(n, p)" rule: advance.cases) simp_all

lemma fst_pos [simp]: "fst (pos s) = sr s"
  by (simp add: pos_def)

lemma pos_simps [simp]:
  "pos (s\<lparr>kind := k\<rparr>) = pos s" "pos (s\<lparr>byteval := b\<rparr>) = pos s"
  "pos (s\<lparr>ssize := z\<rparr>) = pos s" "pos (s\<lparr>kinderr := e\<rparr>) = pos s"
  by (simp_all add: pos_def)

lemma pos_advanceD: "pos s' = advance n (pos s) \<Longrightarrow> sr s' = drop n (sr s)"
  by (metis fst_advance fst_pos)

lemma fits_advance:
  assumes "fits (n + m) s" "pos s' = advance n (pos s)" "length (sr s) < 2 ^ 64"
  shows "fits m s'"
proof -
  have n: "n \<le> 2 ^ 64 - 1" "unat (of_nat n :: u64) = n"
    using assms(1,3) by (auto simp: fits_def unat_of_nat_u64)
  have sub: "unat (w - of_nat n) = unat w - n" if "n \<le> unat w" for w :: u64
    using that n by (simp add: unat_sub_if_size)
  show ?thesis using assms(1,2)
    by (cases "stack s") (auto simp: fits_def pos_def sub split: if_splits)
qed

lemma fits_mono: "fits n s \<Longrightarrow> m \<le> n \<Longrightarrow> fits m s"
  by (auto simp: fits_def)

lemma fits_pos: "pos s = pos s' \<Longrightarrow> fits n s = fits n s'"
  by (simp add: fits_def pos_def)

subsection \<open>Reading bytes\<close>

lemma willRead_ok:
  assumes "fits (unat n) s"
  shows "\<exists>s'. willRead n s = (Inr (), s') \<and> kind s' = None \<and> sr s' = sr s \<and>
    pos (s'\<lparr>sr := drop (unat n) (sr s)\<rparr>) = advance (unat n) (pos s)"
  using assms
  by (cases "stack s")
    (auto simp: willRead_def rearm_def bindE_def listLimit_def set_limit_def fits_def pos_def
      word_less_nat_alt not_less split: if_splits)

lemma willRead_inv:
  assumes "willRead n s = (Inr (), s')"
  shows "kind s' = None \<and> sr s' = sr s \<and>
    pos (s'\<lparr>sr := drop (unat n) (sr s)\<rparr>) = advance (unat n) (pos s)"
  using assms
  by (cases "stack s")
    (auto simp: willRead_def rearm_def bindE_def listLimit_def set_limit_def pos_def split: if_splits)

lemma readFull_ok:
  assumes "fits n s" "length (sr s) < 2 ^ 64"
  shows "\<exists>s'. readFull n s = (Inr (take n (sr s)), s') \<and> kind s' = None \<and> pos s' = advance n (pos s)"
proof -
  have n: "unat (of_nat n :: u64) = n" using assms by (simp add: fits_def unat_of_nat_u64)
  with willRead_ok [of "of_nat n" s] assms(1) show ?thesis
    by (auto simp: readFull_def bindE_def fits_def)
qed

lemma readFull_inv:
  assumes "readFull n s = (Inr b, s')" "length (sr s) < 2 ^ 64"
  shows "n \<le> length (sr s) \<and> b = take n (sr s) \<and> kind s' = None \<and> pos s' = advance n (pos s)"
proof -
  from assms(1) obtain s1 where w: "willRead (of_nat n) s = (Inr (), s1)"
    and r: "\<not> length (sr s1) < n" "b = take n (sr s1)" "s' = s1\<lparr>sr := drop n (sr s1)\<rparr>"
    by (auto simp: readFull_def split: if_splits)
  from willRead_inv [OF w] r(1) assms(2) have n: "unat (of_nat n :: u64) = n"
    by (simp add: unat_of_nat_u64)
  with willRead_inv [OF w] r show ?thesis by simp
qed

lemma readByte_ok:
  assumes "fits 1 s" "length (sr s) < 2 ^ 64"
  shows "\<exists>s'. readByte s = (Inr (hd (sr s)), s') \<and> kind s' = None \<and> pos s' = advance 1 (pos s)"
proof -
  from assms(1) obtain b bs where sr: "sr s = b # bs" by (cases "sr s") (auto simp: fits_def)
  with willRead_ok [of 1 s] assms(1) show ?thesis by (auto simp: readByte_def bindE_def)
qed

lemma readByte_inv:
  assumes "readByte s = (Inr b, s')"
  shows "(\<exists>bs. sr s = b # bs) \<and> kind s' = None \<and> pos s' = advance 1 (pos s)"
proof -
  from assms obtain s1 bs where w: "willRead 1 s = (Inr (), s1)" "sr s1 = b # bs" "s' = s1\<lparr>sr := bs\<rparr>"
    by (auto simp: readByte_def split: list.splits)
  then have "sr s = b # bs" using willRead_inv [OF w(1)] by simp
  with w willRead_inv [OF w(1)] show ?thesis by simp
qed

lemma bytes_of_size:
  assumes "bs \<noteq> []" "length bs \<le> 8" "hd bs \<noteq> 0"
  shows "putint (word_of_bytes bs) = bs"
proof -
  have "nat_of_be bs < 2 ^ 64"
    using nat_of_be_less [of bs] power_increasing [of "length bs" 8 "256 :: nat"] assms(2) by simp
  then have u: "unat (word_of_bytes bs :: u64) = nat_of_be bs"
    by (simp add: word_of_bytes_def unat_of_nat_u64)
  have "byte_len (nat_of_be bs) = length bs" by (rule byte_len_nat_of_be) fact+
  moreover have "nat_of_be bs \<noteq> 0" using calculation assms(1) by (metis byte_len_0 length_0_conv)
  ultimately show ?thesis using u by (auto simp: putint_be)
qed

lemma readUint_ok:
  assumes "sr s = putint i @ rest" "i \<noteq> 0" "fits (length (putint i)) s" "length (sr s) < 2 ^ 64"
  shows "\<exists>s'. readUint (of_nat (length (putint i))) s = (Inr i, s') \<and> kind s' = None \<and>
    pos s' = advance (length (putint i)) (pos s)"
proof -
  let ?n = "length (putint i)"
  have n: "?n = byte_len (unat i)" "?n \<le> 8" using assms(2) byte_len_u64 by (auto simp: putint_be)
  have ne: "?n \<noteq> 0" using assms(2) byte_len_step [of "unat i"] by (simp add: n(1) unat_eq_zero)
  have un: "unat (of_nat ?n :: byte) = ?n" using n(2) by (simp add: unat_of_nat take_bit_nat_eq_self)
  have i: "word_of_bytes (putint i) = i" using assms(2) by (simp add: putint_be word_of_bytes_def)
  have hd: "hd (putint i) \<noteq> 0" using assms(2) hd_be_of_nat_byte_len [of "unat i"] by (simp add: putint_be unat_gt_0)
  show ?thesis
  proof (cases "?n = 1")
    case True
    then obtain b where b: "putint i = [b]" by (auto simp: length_Suc_conv)
    then have "ucast b = i" using i by (simp add: word_of_bytes_def nat_of_be_def)
    with readByte_ok [of s] assms b show ?thesis by (auto simp: readUint_def bindE_def)
  next
    case False
    have "(of_nat ?n :: byte) \<noteq> 0" "(of_nat ?n :: byte) \<noteq> 1"
      using ne False un by (metis unat_0, metis unat_1)
    with readFull_ok [OF assms(3,4)] assms(1) hd i un show ?thesis by (auto simp: readUint_def bindE_def)
  qed
qed

lemma readUint_inv:
  assumes run: "readUint n s = (Inr i, s')" and n: "n \<noteq> 0" "n \<le> 8" "n = 1 \<Longrightarrow> i \<noteq> 0"
    and len: "length (sr s) < 2 ^ 64"
  shows "(\<exists>rest. sr s = putint i @ rest) \<and> length (putint i) = unat n \<and> i \<noteq> 0 \<and> kind s' = None \<and>
    pos s' = advance (unat n) (pos s)"
proof (cases "n = 1")
  case True
  with run obtain b where b: "readByte s = (Inr b, s')" "i = ucast b" by (auto simp: readUint_def)
  with n(3) True have "b \<noteq> 0" by auto
  then have "putint i = [b]" using b(2) bytes_of_size [of "[b]"]
    by (simp add: word_of_bytes_def nat_of_be_def)
  with readByte_inv [OF b(1)] n(3) True show ?thesis by auto
next
  case False
  with run n obtain b where b: "readFull (unat n) s = (Inr b, s')" "hd b \<noteq> 0" "i = word_of_bytes b"
    by (auto simp: readUint_def split: if_splits)
  from readFull_inv [OF b(1) len] have r: "b = take (unat n) (sr s)" "unat n \<le> length (sr s)" by auto
  then have lb: "length b = unat n" by simp
  moreover have "unat n \<noteq> 0" "unat n \<le> 8" using n by (auto simp: unat_eq_zero word_le_nat_alt)
  ultimately have "putint i = b" using b by (auto intro!: bytes_of_size)
  moreover from this b(2) have "i \<noteq> 0" by (auto simp: putint_be)
  ultimately show ?thesis using readFull_inv [OF b(1) len] lb r
    by (metis append_take_drop_id)
qed


subsection \<open>The header of the next value\<close>

fun head_of :: "Kind \<Rightarrow> byte \<Rightarrow> u64 \<Rightarrow> bytes" where
  "head_of Byte b sz = [b]"
| "head_of String b sz = puthead 0x80 0xB7 sz"
| "head_of List b sz = puthead 0xC0 0xF7 sz"

text \<open>\<open>at_value k b sz s s'\<close>: \<open>Kind\<close> has read the header \<open>head_of k b sz\<close> off \<open>s\<close> and stopped in \<open>s'\<close>.\<close>

definition at_value :: "Kind \<Rightarrow> byte \<Rightarrow> u64 \<Rightarrow> Stream \<Rightarrow> Stream \<Rightarrow> bool" where
  "at_value k b sz s s' \<longleftrightarrow> (\<exists>rest. sr s = head_of k b sz @ rest) \<and> (k = Byte \<longrightarrow> b < 0x80 \<and> sz = 0) \<and>
     byteval s' = (if k = Byte then b else 0) \<and>
     pos s' = advance (length (head_of k b sz)) (pos s)"

lemma byte_ge: "\<not> b < (x :: byte) \<Longrightarrow> unat x \<le> unat b"
  by (simp add: word_less_nat_alt)

lemma unat_minus: "\<not> b < x \<Longrightarrow> unat (b - x) = unat b - unat x" for b x :: "'a::len word"
  by (simp add: unat_sub_if_size word_less_nat_alt)

lemma puthead_small: "sz < 56 \<Longrightarrow> puthead a b sz = [a + ucast sz]"
  by (simp add: puthead_def)

lemma ucast_ucast_byte [simp]: "ucast (ucast (b :: byte) :: u64) = b"
  by (simp add: word_unat_eq_iff unsigned_ucast_eq take_bit_word_eq_self)

lemma unat_ucast_u64 [simp]: "unat (ucast (b :: byte) :: u64) = unat b"
  using unat_byte [of b] by (simp add: unsigned_ucast_eq take_bit_nat_eq_self)

text \<open>Reading a number does not touch the byte that \<open>Kind\<close> remembers.\<close>

interpretation byteval_frame: action_preorder "\<lambda>s t. byteval t = byteval s"
  by unfold_locales auto

lemma readUint_byteval: "keeps (\<lambda>s t. byteval t = byteval s) (readUint n)"
proof -
  have w: "keeps (\<lambda>s t. byteval t = byteval s) (willRead n)" for n
    unfolding willRead_def rearm_def
    by (intro byteval_frame.keeps_rules byteval_frame.keeps_putE) (simp_all add: set_limit_def)
  have b: "keeps (\<lambda>s t. byteval t = byteval s) readByte"
    unfolding readByte_def by (intro byteval_frame.keeps_rules w) (simp add: keeps_def split: list.split)
  have f: "keeps (\<lambda>s t. byteval t = byteval s) (readFull n)" for n
    unfolding readFull_def by (intro byteval_frame.keeps_rules w) (simp add: keeps_def)
  show ?thesis unfolding readUint_def rearm_def
    by (intro byteval_frame.keeps_rules byteval_frame.keeps_putE b f) simp
qed

text \<open>A size that \<open>readSize\<close> accepts is the one whose header stands in the input.\<close>

lemma readSize_inv:
  assumes "readSize k n s = (Inr (k', sz, None), s')" "n \<noteq> 0" "n \<le> 8" "length (sr s) < 2 ^ 64"
  shows "k' = k \<and> \<not> sz < 56 \<and> (\<exists>rest. sr s = putint sz @ rest) \<and> length (putint sz) = unat n \<and>
    pos s' = advance (unat n) (pos s) \<and> byteval s' = byteval s"
proof -
  from assms(1) have r: "readUint n s = (Inr sz, s')" "k' = k" "\<not> sz < 56"
    by (auto simp: readSize_def tryE_Inr split: sum.splits if_splits)
  then have "sz \<noteq> 0" by auto
  have "byteval s' = byteval s" using keepsD [OF readUint_byteval r(1)] .
  with readUint_inv [OF r(1) assms(2,3) _ assms(4)] \<open>sz \<noteq> 0\<close> r show ?thesis by blast
qed

lemma readKind_run:
  assumes "readByte s = (Inr b, s1)"
  shows "readKind s =
    (if b < 0x80 then (Inr (Byte, 0, None), s1\<lparr>byteval := b\<rparr>)
     else if b < 0xB8 then (Inr (String, ucast (b - 0x80), None), s1\<lparr>byteval := 0\<rparr>)
     else if b < 0xC0 then readSize String (b - 0xB7) (s1\<lparr>byteval := 0\<rparr>)
     else if b < 0xF8 then (Inr (List, ucast (b - 0xC0), None), s1\<lparr>byteval := 0\<rparr>)
     else readSize List (b - 0xF7) (s1\<lparr>byteval := 0\<rparr>))"
  using assms by (simp add: readKind_def bindE_def tryE_def)

lemma puthead_tag:
  assumes "\<not> b < a" "b < a + 56" "unat a + 56 < 256"
  shows "puthead a c (ucast (b - a)) = [b]" "(ucast (b - a) :: u64) < 56"
proof -
  have "unat (b - a) < 56"
    using assms by (simp add: unat_minus word_less_nat_alt unat_word_ariths(1) not_less)
  then show "(ucast (b - a) :: u64) < 56" by (simp add: word_less_nat_alt)
  then show "puthead a c (ucast (b - a)) = [b]" by (simp add: puthead_small)
qed

lemma at_value_tag:
  assumes "readByte s = (Inr b, s1)" "\<And>c. head_of k c (ucast (b - a)) = [b]" "k \<noteq> Byte"
  shows "at_value k 0 (ucast (b - a)) s (s1\<lparr>byteval := 0\<rparr>)"
  using readByte_inv [OF assms(1)] assms(2,3) by (auto simp: at_value_def)

lemma at_value_sized:
  assumes b: "readByte s = (Inr b, s1)" and r: "readSize k0 (b - a) (s1\<lparr>byteval := 0\<rparr>) = (Inr (k, sz, None), s')"
    and ba: "\<not> b < a + 1" "unat b - unat a \<le> 8" "unat a < 255"
    and k0: "\<And>c. head_of k0 c sz = puthead a' a sz" "k0 \<noteq> Byte" and len: "length (sr s) < 2 ^ 64"
  shows "at_value k 0 sz s s'"
proof -
  from readByte_inv [OF b] obtain bs where sr: "sr s = b # bs" "pos s1 = advance 1 (pos s)" by blast
  then have sr1: "sr s1 = bs" by (auto dest!: pos_advanceD)
  have a1: "unat (a + 1) = unat a + 1" using ba(3) by (simp add: unat_word_ariths(1))
  then have ub: "unat (b - a) = unat b - unat a" "0 < unat (b - a)"
    using ba(1) by (auto simp: word_less_nat_alt unat_sub_if_size)
  then have "b - a \<noteq> 0" "b - a \<le> 8" using ba(2) by (auto simp: word_le_nat_alt)
  with readSize_inv [OF r] len sr sr1 have rs: "k = k0" "\<not> sz < 56" "\<exists>rest. bs = putint sz @ rest"
      "length (putint sz) = unat (b - a)" "pos s' = advance (unat (b - a)) (pos s1)" "byteval s' = 0"
    by auto
  then have "puthead a' a sz = b # putint sz" by (simp add: puthead_def)
  with rs sr k0 show ?thesis by (auto simp: at_value_def advance_advance)
qed

lemma readKind_inv:
  assumes run: "readKind s = (Inr (k, sz, None), s')" and len: "length (sr s) < 2 ^ 64"
  shows "\<exists>b. at_value k b sz s s'"
proof -
  from run obtain b s1 where b: "readByte s = (Inr b, s1)"
    by (auto simp: readKind_def tryE_Inr split: sum.splits)
  note run = run [unfolded readKind_run [OF b]]
  consider "b < 0x80" | "\<not> b < 0x80" "b < 0xB8" | "\<not> b < 0xB8" "b < 0xC0" | "\<not> b < 0xC0" "b < 0xF8"
    | "\<not> b < 0xF8" by blast
  then show ?thesis
  proof cases
    case 1
    then show ?thesis using run readByte_inv [OF b] by (auto simp: at_value_def)
  next
    case 2
    then show ?thesis using run at_value_tag [OF b, of String "0x80"] puthead_tag(1) [of b "0x80" "0xB7"] by auto
  next
    case 3
    then have "\<not> b < 0x80" "unat b - unat (0xB7 :: byte) \<le> 8" by (auto simp: word_less_nat_alt)
    with 3 show ?thesis using run at_value_sized [OF b, of String "0xB7" k sz s' "0x80"] len by auto
  next
    case 4
    then have "\<not> b < 0x80" "\<not> b < 0xB8" by (auto simp: word_less_nat_alt)
    with 4 show ?thesis using run at_value_tag [OF b, of List "0xC0"] puthead_tag(1) [of b "0xC0" "0xF7"] by auto
  next
    case 5
    then have "\<not> b < 0x80" "\<not> b < 0xB8" "\<not> b < 0xC0" "unat b - unat (0xF7 :: byte) \<le> 8"
      using unat_byte [of b] by (auto simp: word_less_nat_alt)
    with 5 show ?thesis using run at_value_sized [OF b, of List "0xF7" k sz s' "0xC0"] len by auto
  qed
qed

lemma readSize_ok:
  assumes "sr s = putint sz @ rest" "\<not> sz < 56" "fits (length (putint sz)) s" "length (sr s) < 2 ^ 64"
  shows "\<exists>s'. readSize k (of_nat (length (putint sz))) s = (Inr (k, sz, None), s') \<and>
    pos s' = advance (length (putint sz)) (pos s) \<and> byteval s' = byteval s"
proof -
  have "sz \<noteq> 0" using assms(2) by auto
  with readUint_ok [OF assms(1) _ assms(3,4)] obtain s' where
    r: "readUint (of_nat (length (putint sz))) s = (Inr sz, s')" "pos s' = advance (length (putint sz)) (pos s)"
    by blast
  have "byteval s' = byteval s" using keepsD [OF readUint_byteval r(1)] .
  with r assms(2) show ?thesis by (simp add: readSize_def bindE_def tryE_def)
qed

lemma ucast_u64_small: "sz < 56 \<Longrightarrow> (ucast (ucast sz :: byte) :: u64) = sz"
  by (simp add: word_unat_eq_iff unsigned_ucast_eq word_less_nat_alt take_bit_nat_eq_self unsigned_take_bit_eq)

lemma unat_ucast_small: "sz < 56 \<Longrightarrow> unat (ucast sz :: byte) = unat sz" for sz :: u64
  by (simp add: unsigned_ucast_eq word_less_nat_alt take_bit_nat_eq_self)

lemma unat_plus_byte: "unat a + unat n < 256 \<Longrightarrow> unat (a + n) = unat a + unat n" for a n :: byte
  by (simp add: unat_word_ariths(1))

lemma putint_tag:
  assumes "\<not> sz < 56"
  shows "unat (of_nat (length (putint sz)) :: byte) = length (putint sz)"
    "length (putint sz) \<le> 8" "1 \<le> length (putint sz)"
proof -
  have "sz \<noteq> 0" using assms by auto
  then show "1 \<le> length (putint sz)" "length (putint sz) \<le> 8"
    using byte_len_u64 [of sz] byte_len_step [of "unat sz"] by (auto simp: putint_be unat_eq_zero)
  then show "unat (of_nat (length (putint sz)) :: byte) = length (putint sz)"
    by (simp add: unat_of_nat take_bit_nat_eq_self)
qed

lemma readKind_sized_ok:
  assumes s1: "readByte s = (Inr c, s1)" "pos s1 = advance 1 (pos s)"
    and head: "head_of k b sz = (a + of_nat (length (putint sz))) # putint sz" "\<not> sz < 56" "k \<noteq> Byte"
    and run: "readKind s = readSize k (of_nat (length (putint sz))) (s1\<lparr>byteval := 0\<rparr>)"
    and sr: "sr s = head_of k b sz @ rest"
    and fits: "fits (length (head_of k b sz)) s" and len: "length (sr s) < 2 ^ 64"
  shows "\<exists>s'. readKind s = (Inr (k, sz, None), s') \<and> at_value k b sz s s'"
proof -
  have "sr s1 = putint sz @ rest" using head(1) sr s1(2) by (auto dest!: pos_advanceD)
  moreover have "fits (length (putint sz)) (s1\<lparr>byteval := 0\<rparr>)"
    using fits_advance [of 1 "length (putint sz)" s "s1\<lparr>byteval := 0\<rparr>"] fits head(1) s1(2) len by simp
  ultimately obtain s' where "readSize k (of_nat (length (putint sz))) (s1\<lparr>byteval := 0\<rparr>) = (Inr (k, sz, None), s')"
    "pos s' = advance (length (putint sz)) (pos s1)" "byteval s' = 0"
    using readSize_ok [of "s1\<lparr>byteval := 0\<rparr>" sz rest k] head(1,2) sr len by auto
  with head run sr s1(2) show ?thesis by (auto simp: at_value_def advance_advance)
qed

lemma readKind_ok:
  assumes sr: "sr s = head_of k b sz @ rest" and k: "k = Byte \<Longrightarrow> b < 0x80 \<and> sz = 0"
    and fits: "fits (length (head_of k b sz)) s" and len: "length (sr s) < 2 ^ 64"
  shows "\<exists>s'. readKind s = (Inr (k, sz, None), s') \<and> at_value k b sz s s'"
proof -
  have "1 \<le> length (head_of k b sz)" by (cases k) (auto simp: puthead_def Let_def)
  with fits have "fits 1 s" using fits_mono by blast
  then obtain s1 where s1: "readByte s = (Inr (hd (sr s)), s1)" "pos s1 = advance 1 (pos s)"
    using readByte_ok len by blast
  note run = readKind_run [OF s1(1)] and sized = readKind_sized_ok [OF s1 _ _ _ _ sr fits len]
  consider "k = Byte" | "k = String" "sz < 56" | "k = String" "\<not> sz < 56" | "k = List" "sz < 56"
    | "k = List" "\<not> sz < 56" by (cases k) auto
  then show ?thesis
  proof cases
    case 1
    with k sr run s1 show ?thesis by (auto simp: at_value_def)
  next
    case 2
    then have "unat (0x80 + ucast sz :: byte) = 128 + unat sz"
      by (subst unat_plus_byte) (auto simp: unat_ucast_small word_less_nat_alt)
    with 2 sr run s1 show ?thesis
      by (auto simp: at_value_def puthead_small word_less_nat_alt ucast_u64_small)
  next
    case 3
    then have "unat (0xB7 + of_nat (length (putint sz)) :: byte) = 183 + length (putint sz)"
      using putint_tag [of sz] by (subst unat_plus_byte) auto
    with 3 sr run putint_tag [of sz] show ?thesis
      by (intro sized [of "0xB7"]) (auto simp: puthead_def Let_def word_less_nat_alt)
  next
    case 4
    then have "unat (0xC0 + ucast sz :: byte) = 192 + unat sz"
      by (subst unat_plus_byte) (auto simp: unat_ucast_small word_less_nat_alt)
    with 4 sr run s1 show ?thesis
      by (auto simp: at_value_def puthead_small word_less_nat_alt ucast_u64_small)
  next
    case 5
    then have "unat (0xF7 + of_nat (length (putint sz)) :: byte) = 247 + length (putint sz)"
      using putint_tag [of sz] by (subst unat_plus_byte) auto
    with 5 sr run putint_tag [of sz] show ?thesis
      by (intro sized [of "0xF7"]) (auto simp: puthead_def Let_def word_less_nat_alt)
  qed
qed

text \<open>\<open>Kind\<close>: forwards, when the whole value fits, and backwards.\<close>

lemma Stream_Kind_ok:
  assumes kind: "kind s = None" and sr: "sr s = head_of k b sz @ rest"
    and k: "k = Byte \<Longrightarrow> b < 0x80 \<and> sz = 0"
    and fits: "fits (length (head_of k b sz) + unat sz) s" and len: "length (sr s) < 2 ^ 64"
  shows "\<exists>s'. Stream_Kind s = (Inr (k, sz), s') \<and> at_value k b sz s s'"
proof -
  have "fits (length (head_of k b sz)) s" using fits fits_mono le_add1 by blast
  from readKind_ok [OF sr k this len] obtain s1 where
    s1: "readKind s = (Inr (k, sz, None), s1)" "at_value k b sz s s1" by blast
  then have "pos s1 = advance (length (head_of k b sz)) (pos s)" by (simp add: at_value_def)
  from fits_advance [OF fits this len] have "fits (unat sz) s1" .
  then have "\<not> (limited s1 \<and> remaining s1 < sz)" by (auto simp: fits_def word_less_nat_alt)
  moreover have "0 < length (head_of k b sz)" by (cases k) (auto simp: puthead_def Let_def)
  then have "listLimit s \<noteq> Some 0" "\<And>l. listLimit s = Some l \<Longrightarrow> \<not> l < sz"
    using fits by (auto simp: fits_def listLimit_def word_less_nat_alt split: list.splits)
  ultimately have "Stream_Kind s = (Inr (k, sz), s1\<lparr>kind := Some k, ssize := sz, kinderr := None\<rparr>)"
    using kind s1(1)
    by (cases "listLimit s") (simp_all add: Stream_Kind_def bindE_def check_limits_def kind_result_def)
  with s1(2) show ?thesis by (simp add: at_value_def)
qed

lemma Stream_Kind_inv:
  assumes kind: "kind s = None" and run: "Stream_Kind s = (Inr (k, sz), s')" and len: "length (sr s) < 2 ^ 64"
  shows "\<exists>b. at_value k b sz s s'"
proof -
  from run kind obtain k1 sz1 e s1 where r: "readKind s = (Inr (k1, sz1, e), s1)"
    and s': "kind_result (check_limits (listLimit s) (s1\<lparr>kind := Some k1, ssize := sz1, kinderr := e\<rparr>)) = (Inr (k, sz), s')"
    by (auto simp: Stream_Kind_def split: if_splits)
  from s' have "e = None \<and> k1 = k \<and> sz1 = sz \<and> s' = s1\<lparr>kind := Some k1, ssize := sz1, kinderr := e\<rparr>"
    by (cases e) (auto simp: kind_result_def check_limits_def split: if_splits option.splits)
  with readKind_inv [of s k sz s1] r len show ?thesis by (auto simp: at_value_def)
qed

lemma Stream_Kind_EOL: "kind s = None \<Longrightarrow> stack s = 0 # ls \<Longrightarrow> Stream_Kind s = (Inl EOL, s)"
  by (simp add: Stream_Kind_def bindE_def listLimit_def)

subsection \<open>What a decoder promises\<close>

text \<open>
  A reader of an encoding \<open>e\<close> on a domain \<open>D\<close>: it returns \<open>x\<close> from an input that starts with \<open>e x\<close>,
  and every run that returns a value read exactly the encoding of that value.  A codec is the
  reader of one value: its encoding is not empty, and at the end of a list it returns \<open>EOL\<close>.
\<close>

locale rlp_reader =
  fixes dec :: "'a decoder" and e :: "'a \<Rightarrow> bytes" and D :: "'a \<Rightarrow> bool"
  assumes reads: "kind s = None \<Longrightarrow> D x \<Longrightarrow> sr s = e x @ rest \<Longrightarrow> fits (length (e x)) s \<Longrightarrow>
      length (sr s) < 2 ^ 64 \<Longrightarrow>
      \<exists>s'. dec s = (Inr x, s') \<and> kind s' = None \<and> pos s' = advance (length (e x)) (pos s)"
    and canonical: "kind s = None \<Longrightarrow> dec s = (Inr x, s') \<Longrightarrow> length (sr s) < 2 ^ 64 \<Longrightarrow>
      D x \<and> (\<exists>rest. sr s = e x @ rest) \<and> kind s' = None \<and> pos s' = advance (length (e x)) (pos s)"

locale rlp_codec = rlp_reader +
  assumes nonempty: "D x \<Longrightarrow> e x \<noteq> []"
    and at_EOL: "kind s = None \<Longrightarrow> stack s = 0 # ls \<Longrightarrow> dec s = (Inl EOL, s)"
begin

lemma decode_top:
  assumes "D x" "length (e x) < 2 ^ 64"
  shows "DecodeBytes dec (e x) = Inr x"
proof -
  let ?s = "Reset (e x) (of_nat (length (e x)))"
  have "(of_nat (length (e x)) :: u64) \<noteq> 0"
    using nonempty [OF assms(1)] unat_of_nat_u64 [OF assms(2)] by auto
  then have "fits (length (e x)) ?s" using assms(2)
    by (simp add: fits_def Reset_def unat_of_nat_u64 word_gt_0)
  with reads [of ?s x "[]"] assms obtain s' where
    "dec ?s = (Inr x, s')" "pos s' = advance (length (e x)) (pos ?s)" by (auto simp: Reset_def)
  moreover from this(2) have "sr s' = []" by (simp add: pos_advanceD Reset_def)
  ultimately show ?thesis by (simp add: DecodeBytes_def)
qed

lemma decode_top_canonical:
  assumes "DecodeBytes dec b = Inr x" "length b < 2 ^ 64"
  shows "D x \<and> b = e x"
proof -
  let ?s = "Reset b (of_nat (length b))"
  from assms(1) obtain s' where s': "dec ?s = (Inr x, s')" "sr s' = []"
    by (auto simp: DecodeBytes_def split: prod.splits sum.splits if_splits)
  from canonical [OF _ s'(1)] assms(2) obtain rest where
    r: "D x" "b = e x @ rest" "pos s' = advance (length (e x)) (pos ?s)" by (auto simp: Reset_def)
  from pos_advanceD [OF r(3)] s'(2) r(2) have "rest = []" by (simp add: Reset_def)
  with r show ?thesis by simp
qed

end

lemma mapErr_Inl: "m s = (Inl e, s') \<Longrightarrow> mapErrE g m s = (Inl (g e), s')"
  by (simp add: mapErrE_def)

lemma rlp_reader_mapErr: "rlp_reader dec e D \<Longrightarrow> rlp_reader (mapErrE g dec) e D"
  unfolding rlp_reader_def mapErrE_Inr .

lemma rlp_codec_mapErr: "rlp_codec dec e D \<Longrightarrow> g EOL = EOL \<Longrightarrow> rlp_codec (mapErrE g dec) e D"
  unfolding rlp_codec_def rlp_codec_axioms_def by (metis rlp_reader_mapErr mapErr_Inl)

lemma wrapStreamError_EOL [simp]: "wrapStreamError EOL = EOL"
  by (simp add: wrapStreamError_def)

lemma rlp_reader_field: "rlp_codec dec e D \<Longrightarrow> rlp_reader (decodeField dec) e D"
  unfolding decodeField_def by (rule rlp_reader_mapErr, rule rlp_codec.axioms)

lemma enc_str_ne [simp]: "enc_str b \<noteq> []"
  by (auto simp: enc_str_def puthead_def Let_def)

subsection \<open>Strings\<close>

lemma eq_1_iff_unat: "w = 1 \<longleftrightarrow> unat w = 1" for w :: u64
  by (simp add: word_unat_eq_iff)

text \<open>
  A string in the input, as \<open>Kind\<close> followed by a read of its content sees it: a single byte below
  \<open>0x80\<close> is its own header, any other content follows a string header.
\<close>

lemma Kind_strE:
  assumes kind: "kind s = None" and lb: "length b < 2 ^ 64" and sr: "sr s = enc_str b @ rest"
    and fits: "fits (length (enc_str b)) s" and len: "length (sr s) < 2 ^ 64"
  obtains (byte) c s1 where "b = [c]" "c < 0x80" "Stream_Kind s = (Inr (Byte, 0), s1)" "byteval s1 = c"
      "pos s1 = advance (length (enc_str b)) (pos s)"
    | (string) s1 s2 where "\<not> (length b = 1 \<and> b ! 0 < 0x80)"
      "Stream_Kind s = (Inr (String, of_nat (length b)), s1)"
      "readFull (length b) s1 = (Inr b, s2)" "kind s2 = None" "pos s2 = advance (length (enc_str b)) (pos s)"
proof (cases "length b = 1 \<and> b ! 0 < 0x80")
  case True
  then obtain c where "b = [c]" by (cases b) auto
  with True assms Stream_Kind_ok [of s Byte c 0 rest] byte show thesis
    by (auto simp: enc_str_def at_value_def)
next
  case False
  let ?h = "head_of String 0 (of_nat (length b))"
  have e: "enc_str b = ?h @ b" using False by (auto simp: enc_str_def)
  with assms Stream_Kind_ok [of s String 0 "of_nat (length b)" "b @ rest"] obtain s1 where
    s1: "Stream_Kind s = (Inr (String, of_nat (length b)), s1)" "pos s1 = advance (length ?h) (pos s)"
    by (auto simp: unat_of_nat_u64 at_value_def)
  then have sr1: "sr s1 = b @ rest" using sr e by (simp add: pos_advanceD)
  have "fits (length b) s1" using fits_advance [OF _ s1(2) len, of "length b"] fits e by simp
  from readFull_ok [OF this] sr1 sr len e obtain s2 where
    "readFull (length b) s1 = (Inr b, s2)" "kind s2 = None" "pos s2 = advance (length b) (pos s1)" by auto
  with False s1 e show thesis by (intro string) (auto simp: advance_advance)
qed

lemma Kind_byte_inv:
  assumes "kind s = None" "Stream_Kind s = (Inr (Byte, sz), s1)" "length (sr s) < 2 ^ 64"
  shows "byteval s1 < 0x80 \<and> (\<exists>rest. sr s = enc_str [byteval s1] @ rest) \<and>
    pos s1 = advance (length (enc_str [byteval s1])) (pos s)"
  using Stream_Kind_inv [OF assms] by (auto simp: at_value_def enc_str_def)

lemma Kind_str_inv:
  assumes kind: "kind s = None" and k: "Stream_Kind s = (Inr (String, sz), s1)"
    and r: "readFull (unat sz) s1 = (Inr b, s2)" and canon: "\<not> (sz = 1 \<and> b ! 0 < 0x80)"
    and len: "length (sr s) < 2 ^ 64"
  shows "length b = unat sz \<and> (\<exists>rest. sr s = enc_str b @ rest) \<and> kind s2 = None \<and>
    pos s2 = advance (length (enc_str b)) (pos s)"
proof -
  from Stream_Kind_inv [OF kind k len] obtain rest where sr: "sr s = puthead 0x80 0xB7 sz @ rest"
    and p: "pos s1 = advance (length (puthead 0x80 0xB7 sz)) (pos s)" by (auto simp: at_value_def)
  then have "sr s1 = rest" by (simp add: pos_advanceD)
  with readFull_inv [OF r] len sr have f: "unat sz \<le> length rest" "b = take (unat sz) rest"
    "kind s2 = None" "pos s2 = advance (unat sz) (pos s1)" by auto
  then have lb: "length b = unat sz" "of_nat (length b) = sz" by auto
  have "enc_str b = puthead 0x80 0xB7 sz @ b" using canon lb by (auto simp: enc_str_def eq_1_iff_unat)
  moreover have "rest = b @ drop (unat sz) rest" using f(2) by simp
  ultimately show ?thesis using f(3,4) lb sr p
    by (metis advance_advance append.assoc length_append)
qed

lemma Stream_Bytes_reads:
  assumes "kind s = None" "length b < 2 ^ 64" "sr s = enc_str b @ rest" "fits (length (enc_str b)) s"
    "length (sr s) < 2 ^ 64"
  shows "\<exists>s'. Stream_Bytes s = (Inr b, s') \<and> kind s' = None \<and> pos s' = advance (length (enc_str b)) (pos s)"
  using assms
proof (rule Kind_strE)
  fix s1 s2
  assume "\<not> (length b = 1 \<and> b ! 0 < 0x80)"
  then have "\<not> ((of_nat (length b) :: u64) = 1 \<and> b ! 0 < 0x80)"
    using unat_of_nat_u64 [OF assms(2)] by (auto simp: eq_1_iff_unat)
  moreover assume "Stream_Kind s = (Inr (String, of_nat (length b)), s1)" "readFull (length b) s1 = (Inr b, s2)"
    "kind s2 = None" "pos s2 = advance (length (enc_str b)) (pos s)"
  ultimately show ?thesis using assms(2)
    by (auto simp: Stream_Bytes_def bindE_def unat_of_nat_u64)
qed (simp add: Stream_Bytes_def bindE_def rearm_def)

lemma Stream_Bytes_canonical:
  assumes a: "kind s = None" "Stream_Bytes s = (Inr b, s')" "length (sr s) < 2 ^ 64"
  shows "length b < 2 ^ 64 \<and> (\<exists>rest. sr s = enc_str b @ rest) \<and> kind s' = None \<and>
    pos s' = advance (length (enc_str b)) (pos s)"
proof -
  from a(2) obtain k sz s1 where k: "Stream_Kind s = (Inr (k, sz), s1)" by (auto simp: Stream_Bytes_def)
  show ?thesis
  proof (cases k)
    case Byte
    with a(2) k have "b = [byteval s1]" "s' = s1\<lparr>kind := None\<rparr>"
      by (auto simp: Stream_Bytes_def bindE_def rearm_def)
    with Kind_byte_inv [OF a(1) k [unfolded Byte] a(3)] show ?thesis by simp
  next
    case String
    with a(2) k have r: "readFull (unat sz) s1 = (Inr b, s')" "\<not> (sz = 1 \<and> b ! 0 < 0x80)"
      by (auto simp: Stream_Bytes_def bindE_def split: prod.splits sum.splits if_splits)
    from Kind_str_inv [OF a(1) k [unfolded String] r a(3)] unat_lt2p [of sz] show ?thesis by simp
  next
    case List
    with a(2) k show ?thesis by (auto simp: Stream_Bytes_def bindE_def)
  qed
qed

interpretation byte_slice: rlp_codec Stream_Bytes enc_str "\<lambda>b. length b < 2 ^ 64"
proof
  show "Stream_Bytes s = (Inl EOL, s)" if "kind s = None" "stack s = 0 # ls" for s ls
    using that by (simp add: Stream_Bytes_def bindE_def Stream_Kind_EOL)
qed (blast intro: Stream_Bytes_reads, blast dest: Stream_Bytes_canonical, simp)

subsection \<open>Integers and arrays\<close>

lemma readFull_0: "readFull 0 s = (Inr [], s\<lparr>kind := None\<rparr>)"
  by (cases "stack s") (simp_all add: readFull_def willRead_def rearm_def bindE_def listLimit_def set_limit_def)

lemma readUint_readFull:
  "readUint n s = bindE (readFull (unat n)) (\<lambda>b.
     if 2 \<le> unat n \<and> hd b = 0 then throwE ErrCanonSize else returnE (word_of_bytes b)) s"
proof -
  have 1: "readUint 1 s = bindE (readFull 1) (\<lambda>b. returnE (word_of_bytes b)) s"
    by (auto simp: readUint_def readByte_def readFull_def bindE_def word_of_bytes_def nat_of_be_def Suc_le_eq
        split: prod.splits sum.splits list.splits)
  have "unat n = 0 \<or> unat n = 1 \<or> 2 \<le> unat n" by linarith
  then show ?thesis
  proof (elim disjE)
    assume "unat n = 0"
    then show ?thesis by (simp add: readFull_0 readUint_def rearm_def bindE_def word_of_bytes_def unat_eq_zero)
  next
    assume n: "unat n = 1"
    then have "n = 1" by (simp add: word_unat_eq_iff)
    with 1 show ?thesis by simp
  next
    assume "2 \<le> unat n"
    moreover from this have "n \<noteq> 0" "n \<noteq> 1" by auto
    ultimately show ?thesis by (simp add: readUint_def)
  qed
qed

text \<open>A string of at most 8 bytes without a leading zero is the encoding of a number.\<close>

lemma enc_nat_of_be: "b = [] \<or> hd b \<noteq> 0 \<Longrightarrow> enc_nat (nat_of_be b) = enc_str b"
  by (cases "b = []") (simp_all add: enc_nat_def byte_len_nat_of_be)

lemma be_canonical: "be_of_nat (byte_len n) n = [] \<or> hd (be_of_nat (byte_len n) n) \<noteq> 0"
  using hd_be_of_nat_byte_len [of n] by (cases "n = 0") auto

lemma unat_word_of_bytes: "length b \<le> 8 \<Longrightarrow> unat (word_of_bytes b :: u64) = nat_of_be b"
  using nat_of_be_less [of b] power_increasing [of "length b" 8 "256 :: nat"]
  by (simp add: word_of_bytes_def unat_of_nat_u64)

lemma word_of_be [simp]: "word_of_bytes (be_of_nat (byte_len (unat i)) (unat i)) = i"
  by (simp add: word_of_bytes_def)

lemma readFull_length: "readFull n s = (Inr b, s') \<Longrightarrow> length b = n"
  by (auto simp: readFull_def split: if_splits)

lemma Stream_uint_reads:
  assumes "kind s = None" "sr s = enc_nat (unat i) @ rest" "fits (length (enc_nat (unat i))) s"
    "length (sr s) < 2 ^ 64"
  shows "\<exists>s'. Stream_uint 64 s = (Inr i, s') \<and> kind s' = None \<and> pos s' = advance (length (enc_nat (unat i))) (pos s)"
proof -
  define b where "b = be_of_nat (byte_len (unat i)) (unat i)"
  have e: "enc_nat (unat i) = enc_str b" and i: "word_of_bytes b = i" and c: "b = [] \<or> hd b \<noteq> 0"
    and l8: "length b \<le> 8"
    using be_canonical [of "unat i"] byte_len_u64 [of i] by (simp_all add: b_def enc_nat_def)
  then have l64: "length b < 2 ^ 64" by simp
  show ?thesis
  proof (rule Kind_strE [OF assms(1) l64 assms(2,3) [unfolded e] assms(4)])
    fix c' s1
    assume a: "b = [c']" "Stream_Kind s = (Inr (Byte, 0), s1)" "byteval s1 = c'"
      "pos s1 = advance (length (enc_str b)) (pos s)"
    then have "ucast c' = i" "c' \<noteq> 0" using i c by (auto simp: word_of_bytes_def nat_of_be_def)
    with a e show ?thesis by (simp add: Stream_uint_def bindE_def rearm_def)
  next
    fix s1 s2
    assume a: "\<not> (length b = 1 \<and> b ! 0 < 0x80)" "Stream_Kind s = (Inr (String, of_nat (length b)), s1)"
      "readFull (length b) s1 = (Inr b, s2)" "kind s2 = None" "pos s2 = advance (length (enc_str b)) (pos s)"
    have u: "unat (of_nat (length b) :: u64) = length b" "unat (ucast (of_nat (length b) :: u64) :: byte) = length b"
      using l8 by (simp_all add: unat_of_nat_u64 ucast_small unat_of_nat take_bit_nat_eq_self)
    have "\<not> (0 < length b \<and> unat i < 128)"
      using a(1) byte_len_1 [of "unat i"]
      by (cases "unat i = 0") (auto simp: b_def word_less_nat_alt unsigned_ucast_eq take_bit_nat_eq_self)
    moreover have "\<not> (2 \<le> length b \<and> hd b = 0)" using c by auto
    ultimately show ?thesis using a(2-5) l8 u i e
      by (auto simp: Stream_uint_def bindE_def tryE_def readUint_readFull word_less_nat_alt)
  qed
qed

lemma Stream_uint_canonical:
  assumes a: "kind s = None" "Stream_uint 64 s = (Inr i, s')" "length (sr s) < 2 ^ 64"
  shows "(\<exists>rest. sr s = enc_nat (unat i) @ rest) \<and> kind s' = None \<and>
    pos s' = advance (length (enc_nat (unat i))) (pos s)"
proof -
  from a(2) obtain k sz s1 where k: "Stream_Kind s = (Inr (k, sz), s1)" by (auto simp: Stream_uint_def)
  show ?thesis
  proof (cases k)
    case Byte
    with a(2) k have "i = ucast (byteval s1)" "byteval s1 \<noteq> 0" "s' = s1\<lparr>kind := None\<rparr>"
      by (auto simp: Stream_uint_def bindE_def rearm_def split: if_splits)
    moreover from this have "enc_nat (unat i) = enc_str [byteval s1]"
      using enc_nat_of_be [of "[byteval s1]"] by (simp add: nat_of_be_def)
    ultimately show ?thesis using Kind_byte_inv [OF a(1) k [unfolded Byte] a(3)] by simp
  next
    case String
    with a(2) k have sz: "sz \<le> 8" and r: "readUint (ucast sz) s1 = (Inr i, s')" "\<not> (sz > 0 \<and> i < 128)"
      by (auto simp: Stream_uint_def bindE_def tryE_def not_less split: prod.splits sum.splits if_splits)
    have usz: "unat (ucast sz :: byte) = unat sz"
      using sz by (simp add: unsigned_ucast_eq word_le_nat_alt take_bit_nat_eq_self)
    with r(1) obtain b where b: "readFull (unat sz) s1 = (Inr b, s')" "\<not> (2 \<le> unat sz \<and> hd b = 0)" "i = word_of_bytes b"
      by (auto simp: readUint_readFull split: if_splits)
    have lb: "length b = unat sz" "unat sz \<le> 8" using readFull_length [OF b(1)] sz by (simp_all add: word_le_nat_alt)
    have ui: "unat i = nat_of_be b" using b(3) lb by (simp add: unat_word_of_bytes)
    have one: "\<exists>x. b = [x] \<and> 128 \<le> unat x" if "sz = 1"
      using that lb ui r(2) by (cases b) (auto simp: nat_of_be_def word_less_nat_alt)
    then have "\<not> (sz = 1 \<and> b ! 0 < 0x80)" by (auto simp: word_less_nat_alt)
    moreover have "b = [] \<or> hd b \<noteq> 0"
    proof (cases "2 \<le> unat sz")
      case False
      then have "unat sz = 0 \<or> sz = 1" by (auto simp: eq_1_iff_unat)
      with one lb show ?thesis by fastforce
    qed (use b(2) in simp)
    ultimately show ?thesis
      using Kind_str_inv [OF a(1) k [unfolded String] b(1) _ a(3)] enc_nat_of_be [of b] ui by simp
  next
    case List
    with a(2) k show ?thesis by (auto simp: Stream_uint_def bindE_def)
  qed
qed


interpretation uint64: rlp_codec "Stream_uint 64" "\<lambda>i. enc_nat (unat i)" "\<lambda>_. True"
proof
  show "Stream_uint 64 s = (Inl EOL, s)" if "kind s = None" "stack s = 0 # ls" for s ls
    using that by (simp add: Stream_uint_def bindE_def Stream_Kind_EOL)
qed (blast intro: Stream_uint_reads, blast dest: Stream_uint_canonical, simp add: enc_nat_def)

lemma decodeByteArray_reads:
  assumes "1 < n" "kind s = None" "length b = n \<and> n < 2 ^ 64" "sr s = enc_str b @ rest"
    "fits (length (enc_str b)) s" "length (sr s) < 2 ^ 64"
  shows "\<exists>s'. decodeByteArray n s = (Inr b, s') \<and> kind s' = None \<and> pos s' = advance (length (enc_str b)) (pos s)"
proof (rule Kind_strE [OF assms(2) _ assms(4-6)])
  show "length b < 2 ^ 64" using assms(3) by simp
next
  fix s1 s2
  assume "Stream_Kind s = (Inr (String, of_nat (length b)), s1)" "readFull (length b) s1 = (Inr b, s2)"
    "kind s2 = None" "pos s2 = advance (length (enc_str b)) (pos s)"
  moreover have "unat (of_nat n :: u64) = n" "(of_nat n :: u64) \<noteq> 1"
    using assms(1,3) by (auto simp: unat_of_nat_u64 eq_1_iff_unat)
  ultimately show ?thesis using assms(3) by (simp add: decodeByteArray_def bindE_def)
qed (use assms in auto)

lemma decodeByteArray_canonical:
  assumes a: "1 < n" "kind s = None" "decodeByteArray n s = (Inr b, s')" "length (sr s) < 2 ^ 64"
  shows "(length b = n \<and> n < 2 ^ 64) \<and> (\<exists>rest. sr s = enc_str b @ rest) \<and> kind s' = None \<and>
    pos s' = advance (length (enc_str b)) (pos s)"
proof -
  from a(3) obtain k sz s1 where k: "Stream_Kind s = (Inr (k, sz), s1)" by (auto simp: decodeByteArray_def)
  with a(1,3) have ks: "k = String"
    by (cases k) (auto simp: decodeByteArray_def bindE_def)
  with k a(3) have r: "readFull n s1 = (Inr b, s')" "\<not> (sz = 1 \<and> b ! 0 < 0x80)" "n = unat sz"
    by (auto simp: decodeByteArray_def bindE_def split: prod.splits sum.splits if_splits)
  show ?thesis using Kind_str_inv [OF a(2) k [unfolded ks] r(1) [unfolded r(3)] r(2) a(4)] r(3) unat_lt2p [of sz]
    by simp
qed

lemma byte_array_codec:
  assumes "1 < n"
  shows "rlp_codec (decodeByteArray n) enc_str (\<lambda>b. length b = n \<and> n < 2 ^ 64)"
proof
  show "decodeByteArray n s = (Inl EOL, s)" if "kind s = None" "stack s = 0 # ls" for s ls
    using that by (simp add: decodeByteArray_def bindE_def Stream_Kind_EOL)
qed (erule (4) decodeByteArray_reads [OF assms], erule (2) decodeByteArray_canonical [OF assms], simp)

lemma decodeBigInt_string:
  assumes "Stream_Kind s = (Inr (String, sz), s1)"
  shows "Stream_decodeBigInt s = bindE (readFull (unat sz)) (\<lambda>b.
      if sz = 1 \<and> b ! 0 < 128 then throwE ErrCanonSize
      else if b \<noteq> [] \<and> hd b = 0 then throwE ErrCanonInt
      else returnE (int (nat_of_be b))) s1"
proof -
  consider "sz = 0" | "sz \<noteq> 0" "sz \<le> 32" | "sz \<noteq> 0" "\<not> sz \<le> 32" "sz \<noteq> 1" by fastforce
  then show ?thesis
  proof cases
    case 1
    with assms show ?thesis by (simp add: Stream_decodeBigInt_def bindE_def rearm_def readFull_0)
  next
    case 2
    with assms show ?thesis
      by (cases "readFull (unat sz) s1"; cases "fst (readFull (unat sz) s1)")
        (simp_all add: Stream_decodeBigInt_def bindE_def)
  next
    case 3
    with assms show ?thesis
      by (cases "readFull (unat sz) s1"; cases "fst (readFull (unat sz) s1)")
        (simp_all add: Stream_decodeBigInt_def bindE_def)
  qed
qed

lemma decodeBigInt_reads:
  assumes "kind s = None" "0 \<le> i \<and> byte_len (nat i) < 2 ^ 64" "sr s = enc_nat (nat i) @ rest"
    "fits (length (enc_nat (nat i))) s" "length (sr s) < 2 ^ 64"
  shows "\<exists>s'. Stream_decodeBigInt s = (Inr i, s') \<and> kind s' = None \<and> pos s' = advance (length (enc_nat (nat i))) (pos s)"
proof -
  define b where "b = be_of_nat (byte_len (nat i)) (nat i)"
  have e: "enc_nat (nat i) = enc_str b" and i: "int (nat_of_be b) = i" and c: "\<not> (b \<noteq> [] \<and> hd b = 0)"
    and l64: "length b < 2 ^ 64"
    using be_canonical [of "nat i"] assms(2) by (auto simp: b_def enc_nat_def)
  show ?thesis
  proof (rule Kind_strE [OF assms(1) l64 assms(3,4) [unfolded e] assms(5)])
    fix c' s1
    assume "b = [c']" "Stream_Kind s = (Inr (Byte, 0), s1)" "byteval s1 = c'"
      "pos s1 = advance (length (enc_str b)) (pos s)"
    with e i c show ?thesis by (auto simp: Stream_decodeBigInt_def bindE_def rearm_def)
  next
    fix s1 s2
    assume a: "\<not> (length b = 1 \<and> b ! 0 < 0x80)" "Stream_Kind s = (Inr (String, of_nat (length b)), s1)"
      "readFull (length b) s1 = (Inr b, s2)" "kind s2 = None" "pos s2 = advance (length (enc_str b)) (pos s)"
    have u: "unat (of_nat (length b) :: u64) = length b" using l64 by (rule unat_of_nat_u64)
    then have "\<not> ((of_nat (length b) :: u64) = 1 \<and> b ! 0 < 0x80)" using a(1) by (auto simp: eq_1_iff_unat)
    with a(2-5) u e i c show ?thesis by (auto simp: decodeBigInt_string bindE_def)
  qed
qed

lemma decodeBigInt_canonical:
  assumes a: "kind s = None" "Stream_decodeBigInt s = (Inr i, s')" "length (sr s) < 2 ^ 64"
  shows "(0 \<le> i \<and> byte_len (nat i) < 2 ^ 64) \<and> (\<exists>rest. sr s = enc_nat (nat i) @ rest) \<and> kind s' = None \<and>
    pos s' = advance (length (enc_nat (nat i))) (pos s)"
proof -
  from a(2) obtain k sz s1 where k: "Stream_Kind s = (Inr (k, sz), s1)" by (auto simp: Stream_decodeBigInt_def)
  show ?thesis
  proof (cases k)
    case Byte
    with a(2) k have "i = int (nat_of_be [byteval s1]) \<and> byteval s1 \<noteq> 0 \<and> s' = s1\<lparr>kind := None\<rparr>"
      by (cases "byteval s1 = 0") (simp_all add: Stream_decodeBigInt_def bindE_def rearm_def)
    with enc_nat_of_be [of "[byteval s1]"] byte_len_nat_of_be [of "[byteval s1]"]
      Kind_byte_inv [OF a(1) k [unfolded Byte] a(3)] show ?thesis by simp
  next
    case String
    with a(2) k obtain b where b: "readFull (unat sz) s1 = (Inr b, s')" "\<not> (sz = 1 \<and> b ! 0 < 0x80)"
      "\<not> (b \<noteq> [] \<and> hd b = 0)" "i = int (nat_of_be b)"
      by (auto simp: decodeBigInt_string split: if_splits)
    from b(3) have "byte_len (nat_of_be b) = length b" by (cases "b = []") (simp_all add: byte_len_nat_of_be)
    with Kind_str_inv [OF a(1) k [unfolded String] b(1,2) a(3)] enc_nat_of_be [of b] b(3,4) unat_lt2p [of sz]
    show ?thesis by simp
  next
    case List
    with a(2) k show ?thesis by (simp add: Stream_decodeBigInt_def bindE_def)
  qed
qed

interpretation big_int: rlp_codec Stream_decodeBigInt "\<lambda>i. enc_nat (nat i)" "\<lambda>i. 0 \<le> i \<and> byte_len (nat i) < 2 ^ 64"
proof
  show "Stream_decodeBigInt s = (Inl EOL, s)" if "kind s = None" "stack s = 0 # ls" for s ls
    using that by (simp add: Stream_decodeBigInt_def bindE_def Stream_Kind_EOL)
qed (erule (4) decodeBigInt_reads, erule (2) decodeBigInt_canonical, simp add: enc_nat_def)

subsection \<open>Sequences of fields, structs and slices\<close>

lemma rlp_reader_return: "rlp_reader (returnE x) (\<lambda>_. []) (\<lambda>y. y = x)"
proof
  show "\<exists>s'. returnE x s = (Inr y, s') \<and> kind s' = None \<and> pos s' = advance (length []) (pos s)"
    if "kind s = None" "y = x" for s y using that by simp
  show "y = x \<and> (\<exists>rest. sr s = [] @ rest) \<and> kind s' = None \<and> pos s' = advance (length []) (pos s)"
    if "kind s = None" "returnE x s = (Inr y, s')" for s s' y using that by simp
qed

text \<open>
  Two decoders in sequence; \<open>f\<close> builds the result from the two parts and \<open>g\<close>, \<open>h\<close> take it apart.
\<close>

lemma rlp_reader_bind:
  assumes d1: "rlp_reader d1 e1 D1" and d2: "\<And>a. D1 a \<Longrightarrow> rlp_reader (d2 a) e2 (D2 a)"
    and g: "\<And>a x. D1 a \<Longrightarrow> D2 a x \<Longrightarrow> g x = a"
  shows "rlp_reader (bindE d1 d2) (\<lambda>x. e1 (g x) @ e2 x) (\<lambda>x. D1 (g x) \<and> D2 (g x) x)"
proof
  fix s x rest
  assume a: "kind s = None" "D1 (g x) \<and> D2 (g x) x" "sr s = (e1 (g x) @ e2 x) @ rest"
    "fits (length (e1 (g x) @ e2 x)) s" "length (sr s) < 2 ^ 64"
  from a(4) have f: "fits (length (e1 (g x))) s" using fits_mono by fastforce
  from rlp_reader.reads [OF d1 a(1) _ _ f a(5), of "e2 x @ rest"] a(2,3) obtain s1 where
    s1: "d1 s = (Inr (g x), s1)" "kind s1 = None" "pos s1 = advance (length (e1 (g x))) (pos s)" by auto
  have "fits (length (e2 x)) s1" using fits_advance [OF _ s1(3) a(5)] a(4) by simp
  moreover have "sr s1 = e2 x @ rest" using a(3) s1(3) by (simp add: pos_advanceD)
  ultimately obtain s' where "d2 (g x) s1 = (Inr x, s')" "kind s' = None" "pos s' = advance (length (e2 x)) (pos s1)"
    using rlp_reader.reads [OF d2 s1(2), of "g x" x rest] a(2,3,5) by auto
  with s1 show "\<exists>s'. bindE d1 d2 s = (Inr x, s') \<and> kind s' = None \<and> pos s' = advance (length (e1 (g x) @ e2 x)) (pos s)"
    by (auto simp: advance_advance)
next
  fix s x s'
  assume a: "kind s = None" "bindE d1 d2 s = (Inr x, s')" "length (sr s) < 2 ^ 64"
  then obtain y s1 where r: "d1 s = (Inr y, s1)" "d2 y s1 = (Inr x, s')" by blast
  from rlp_reader.canonical [OF d1 a(1) r(1) a(3)] obtain t1 where
    c1: "D1 y" "sr s = e1 y @ t1" "kind s1 = None" "pos s1 = advance (length (e1 y)) (pos s)" by blast
  then have sr1: "sr s1 = t1" by (simp add: pos_advanceD)
  with rlp_reader.canonical [OF d2 c1(3) r(2)] c1 a(3) have
    c2: "D2 y x" "\<exists>t2. t1 = e2 x @ t2" "kind s' = None" "pos s' = advance (length (e2 x)) (pos s1)" by auto
  from g [OF c1(1) c2(1)] c1 c2 show "(D1 (g x) \<and> D2 (g x) x) \<and> (\<exists>rest. sr s = (e1 (g x) @ e2 x) @ rest) \<and>
    kind s' = None \<and> pos s' = advance (length (e1 (g x) @ e2 x)) (pos s)"
    by (auto simp: advance_advance)
qed


text \<open>Entering a list pushes its size and takes it off the enclosing list; leaving pops it.\<close>

fun enter :: "u64 \<Rightarrow> bytes \<times> u64 \<times> u64 list \<times> bool \<Rightarrow> bytes \<times> u64 \<times> u64 list \<times> bool" where
  "enter sz (r, rem, [], lim) = (r, rem, [sz], lim)"
| "enter sz (r, rem, l # ls, lim) = (r, rem, sz # (l - sz) # ls, lim)"

lemma Stream_List_ok:
  assumes "kind s = None" "sr s = puthead 0xC0 0xF7 (of_nat n) @ rest" "n < 2 ^ 64"
    "fits (length (puthead 0xC0 0xF7 (of_nat n)) + n) s" "length (sr s) < 2 ^ 64"
  shows "\<exists>s1. Stream_List s = (Inr (of_nat n), s1) \<and> kind s1 = None \<and> fits n s1 \<and>
    pos s1 = enter (of_nat n) (advance (length (puthead 0xC0 0xF7 (of_nat n))) (pos s))"
proof -
  from assms Stream_Kind_ok [of s List 0 "of_nat n" rest] obtain s1 where
    s1: "Stream_Kind s = (Inr (List, of_nat n), s1)" "pos s1 = advance (length (puthead 0xC0 0xF7 (of_nat n))) (pos s)"
    by (auto simp: unat_of_nat_u64 at_value_def)
  from fits_advance [OF assms(4) s1(2) assms(5)] have f: "fits n s1" .
  show ?thesis unfolding s1(2) [symmetric] using s1(1) f assms(3)
    by (cases "stack s1")
      (auto simp: Stream_List_def bindE_def listLimit_def set_limit_def pos_def fits_def unat_of_nat_u64)
qed

lemma Stream_List_inv:
  assumes "kind s = None" "Stream_List s = (Inr sz, s1)" "length (sr s) < 2 ^ 64"
  shows "(\<exists>rest. sr s = puthead 0xC0 0xF7 sz @ rest) \<and> kind s1 = None \<and>
    pos s1 = enter sz (advance (length (puthead 0xC0 0xF7 sz)) (pos s))"
proof -
  from assms(2) obtain s0 where k: "Stream_Kind s = (Inr (List, sz), s0)"
    by (auto simp: Stream_List_def split: if_splits)
  from Stream_Kind_inv [OF assms(1) k assms(3)] have v: "\<exists>rest. sr s = puthead 0xC0 0xF7 sz @ rest"
    "pos s0 = advance (length (puthead 0xC0 0xF7 sz)) (pos s)" by (auto simp: at_value_def)
  moreover have "kind s1 = None \<and> pos s1 = enter sz (pos s0)" using assms(2) k
    by (cases "stack s0") (auto simp: Stream_List_def bindE_def listLimit_def set_limit_def pos_def)
  ultimately show ?thesis by simp
qed

lemma ListEnd_ok:
  assumes "pos s = advance n (enter (of_nat n) p)"
  shows "\<exists>s'. ListEnd s = (Inr (), s') \<and> kind s' = None \<and> pos s' = advance n p"
  using assms
  by (cases "(n, p)" rule: advance.cases) (auto simp: ListEnd_def bindE_def listLimit_def pos_def algebra_simps)

lemma ListEnd_inv:
  assumes "ListEnd s = (Inr (), s')" "pos s = advance n (enter sz p)"
  shows "sz = of_nat n \<and> kind s' = None \<and> pos s' = advance n p"
  using assms
  by (cases "(n, p)" rule: advance.cases)
    (auto simp: ListEnd_def bindE_def listLimit_def pos_def algebra_simps word_gt_0 split: if_splits)

lemma fst_enter [simp]: "fst (enter sz p) = fst p"
  by (cases "(sz, p)" rule: enter.cases) simp_all

lemma sr_enter: "pos s1 = enter sz (advance n (pos s)) \<Longrightarrow> sr s1 = drop n (sr s)"
  by (metis fst_enter fst_advance fst_pos)

lemma rlp_codec_struct:
  assumes fs: "rlp_reader fs e D"
  shows "rlp_codec (decodeStruct fs) (\<lambda>x. enc_list (e x)) (\<lambda>x. D x \<and> length (e x) < 2 ^ 64)"
proof
  fix s x rest
  let ?n = "length (e x)"
  let ?h = "puthead 0xC0 0xF7 (of_nat ?n)"
  assume a: "kind s = None" "D x \<and> ?n < 2 ^ 64" "sr s = enc_list (e x) @ rest"
    "fits (length (enc_list (e x))) s" "length (sr s) < 2 ^ 64"
  with Stream_List_ok [of s ?n "e x @ rest"] obtain s1 where s1: "Stream_List s = (Inr (of_nat ?n), s1)" "kind s1 = None"
    "fits ?n s1" "pos s1 = enter (of_nat ?n) (advance (length ?h) (pos s))" by (auto simp: enc_list_def)
  from sr_enter [OF s1(4)] a(3) have "sr s1 = e x @ rest" by (simp add: enc_list_def)
  with rlp_reader.reads [OF fs s1(2) _ _ s1(3)] a obtain s2 where
    s2: "fs s1 = (Inr x, s2)" "pos s2 = advance ?n (pos s1)" by (auto simp: enc_list_def)
  from ListEnd_ok [OF s2(2) [unfolded s1(4)]] obtain s' where
    "ListEnd s2 = (Inr (), s')" "kind s' = None" "pos s' = advance ?n (advance (length ?h) (pos s))" by blast
  with s1 s2 show "\<exists>s'. decodeStruct fs s = (Inr x, s') \<and> kind s' = None \<and> pos s' = advance (length (enc_list (e x))) (pos s)"
    by (auto simp: decodeStruct_def bindE_def mapErrE_def advance_advance enc_list_def)
next
  fix s x s'
  assume a: "kind s = None" "decodeStruct fs s = (Inr x, s')" "length (sr s) < 2 ^ 64"
  then obtain sz s1 s2 where r: "Stream_List s = (Inr sz, s1)" "fs s1 = (Inr x, s2)" "ListEnd s2 = (Inr (), s')"
    by (auto simp: decodeStruct_def)
  from Stream_List_inv [OF a(1) r(1) a(3)] obtain rest where l: "sr s = puthead 0xC0 0xF7 sz @ rest" "kind s1 = None"
    "pos s1 = enter sz (advance (length (puthead 0xC0 0xF7 sz)) (pos s))" by blast
  from rlp_reader.canonical [OF fs l(2) r(2)] sr_enter [OF l(3)] l(1) a(3) have
    c: "D x" "\<exists>t. rest = e x @ t" "pos s2 = advance (length (e x)) (pos s1)" by auto
  from ListEnd_inv [OF r(3) c(3) [unfolded l(3)]] l c a(3)
  show "(D x \<and> length (e x) < 2 ^ 64) \<and> (\<exists>rest. sr s = enc_list (e x) @ rest) \<and> kind s' = None \<and>
    pos s' = advance (length (enc_list (e x))) (pos s)"
    by (auto simp: enc_list_def advance_advance)
next
  show "decodeStruct fs s = (Inl EOL, s)" if "kind s = None" "stack s = 0 # ls" for s ls
    using that by (simp add: decodeStruct_def Stream_List_def bindE_def mapErrE_def Stream_Kind_EOL)
qed (simp add: enc_list_def puthead_def Let_def)


text \<open>
  The elements of a slice.  For the loop to stop at the end of the list and nowhere else, an element
  decoder returns \<open>EOL\<close> only before it has read anything.
\<close>

locale rlp_elem = rlp_codec +
  assumes EOL_only: "kind s = None \<Longrightarrow> dec s = (Inl EOL, s') \<Longrightarrow> s' = s"
begin

lemma elems_reads:
  assumes "kind s = None" "\<forall>x \<in> set xs. D x" "sr s = concat (map e xs) @ rest"
    "stack s = of_nat (length (concat (map e xs))) # ls" "fits (length (concat (map e xs))) s"
    "length (sr s) < 2 ^ 64" "length xs < fuel"
  shows "\<exists>s'. decodeSliceElems fuel dec acc s = (Inr (acc @ xs), s') \<and>
    pos s' = advance (length (concat (map e xs))) (pos s)"
  using assms
proof (induction xs arbitrary: s acc fuel)
  case Nil
  then obtain f where "fuel = Suc f" by (cases fuel) auto
  with Nil at_EOL [of s ls] show ?case
    by (auto simp: bindE_def tryE_def)
next
  case (Cons x xs)
  let ?n = "length (concat (map e xs))"
  from Cons.prems(7) obtain f where f: "fuel = Suc f" by (cases fuel) auto
  from Cons.prems(5) have "fits (length (e x)) s" using fits_mono by fastforce
  with reads [of s x "concat (map e xs) @ rest"] Cons.prems obtain s1 where
    s1: "dec s = (Inr x, s1)" "kind s1 = None" "pos s1 = advance (length (e x)) (pos s)" by auto
  have "fits ?n s1" using fits_advance [OF _ s1(3)] Cons.prems(5,6) by simp
  moreover have "sr s1 = concat (map e xs) @ rest" using Cons.prems(3) s1(3) by (simp add: pos_advanceD)
  moreover have "stack s1 = of_nat ?n # ls" using s1(3) Cons.prems(4) by (simp add: pos_def)
  ultimately obtain s' where "decodeSliceElems f dec (acc @ [x]) s1 = (Inr ((acc @ [x]) @ xs), s')"
    "pos s' = advance ?n (pos s1)"
    using Cons.IH [of s1 f "acc @ [x]"] s1(2) Cons.prems f by auto
  with s1 f show ?case by (auto simp: bindE_def tryE_def advance_advance)
qed

lemma elems_canonical:
  assumes "kind s = None" "decodeSliceElems fuel dec acc s = (Inr vs, s')" "length (sr s) < 2 ^ 64"
  shows "\<exists>xs rest. vs = acc @ xs \<and> (\<forall>x \<in> set xs. D x) \<and> sr s = concat (map e xs) @ rest \<and>
    pos s' = advance (length (concat (map e xs))) (pos s)"
  using assms
proof (induction fuel arbitrary: s acc)
  case 0
  then show ?case by (auto intro!: exI [of _ "[]"])
next
  case (Suc f)
  then obtain r s1 where r: "dec s = (r, s1)"
    "(case r of Inl er \<Rightarrow> if er = EOL then returnE acc else throwE er | Inr v \<Rightarrow> decodeSliceElems f dec (acc @ [v])) s1 = (Inr vs, s')"
    by (auto simp: tryE_Inr)
  show ?case
  proof (cases r)
    case (Inl er)
    with r EOL_only [OF Suc.prems(1), of s1] have "vs = acc" "s' = s" by (auto split: if_splits)
    then show ?thesis by (auto intro!: exI [of _ "[]"])
  next
    case (Inr v)
    with r canonical [OF Suc.prems(1) _ Suc.prems(3), of v s1] obtain t where
      c: "D v" "sr s = e v @ t" "kind s1 = None" "pos s1 = advance (length (e v)) (pos s)" by auto
    then have "sr s1 = t" by (simp add: pos_advanceD)
    with Suc.IH [of s1 "acc @ [v]"] r(2) Inr c Suc.prems(3) obtain xs rest where
      "vs = (acc @ [v]) @ xs" "\<forall>x \<in> set xs. D x" "t = concat (map e xs) @ rest"
      "pos s' = advance (length (concat (map e xs))) (pos s1)" by auto
    with c show ?thesis by (intro exI [of _ "v # xs"]) (auto simp: advance_advance)
  qed
qed

end

lemma length_concat_ge: "\<forall>x \<in> set xs. e x \<noteq> [] \<Longrightarrow> length xs \<le> length (concat (map e xs))"
  by (induction xs) (auto simp: neq_Nil_conv)

lemma slice_reads:
  assumes el: "rlp_elem dec e D"
    and a: "kind s = None" "(\<forall>x \<in> set xs. D x) \<and> length (concat (map e xs)) < 2 ^ 64"
    "sr s = enc_list (concat (map e xs)) @ rest"
    "fits (length (enc_list (concat (map e xs)))) s" "length (sr s) < 2 ^ 64"
  shows "\<exists>s'. decodeListSlice dec s = (Inr xs, s') \<and> kind s' = None \<and>
    pos s' = advance (length (enc_list (concat (map e xs)))) (pos s)"
proof -
  let ?p = "concat (map e xs)"
  let ?n = "length ?p"
  let ?h = "puthead 0xC0 0xF7 (of_nat ?n)"
  from a Stream_List_ok [of s ?n "?p @ rest"] obtain s1 where s1: "Stream_List s = (Inr (of_nat ?n), s1)" "kind s1 = None"
    "fits ?n s1" "pos s1 = enter (of_nat ?n) (advance (length ?h) (pos s))" by (auto simp: enc_list_def)
  have ne: "\<forall>x \<in> set xs. e x \<noteq> []" using rlp_codec.nonempty [OF rlp_elem.axioms(1) [OF el]] a(2) by blast
  show ?thesis
  proof (cases "(of_nat ?n :: u64) = 0")
    case True
    then have z: "?p = []" "xs = []" using unat_of_nat_u64 [of ?n] a(2) ne by (cases xs; auto)+
    from ListEnd_ok [of s1 0 "advance (length ?h) (pos s)"] s1(4) z obtain s3 where
      "ListEnd s1 = (Inr (), s3)" "kind s3 = None" "pos s3 = advance (length ?h) (pos s)" by auto
    with s1(1) z show ?thesis by (auto simp: decodeListSlice_def bindE_def mapErrE_def enc_list_def)
  next
    case False
    obtain ls where st: "stack s1 = of_nat ?n # ls"
      using s1(4) by (cases "(of_nat ?n :: u64, advance (length ?h) (pos s))" rule: enter.cases) (auto simp: pos_def)
    have sr1: "sr s1 = ?p @ rest" using sr_enter [OF s1(4)] a(3) by (simp add: enc_list_def)
    have fuel: "length xs < Suc (length (sr s1))" using sr1 length_concat_ge [OF ne] by simp
    obtain s2 where s2: "decodeSliceElems (Suc (length (sr s1))) dec [] s1 = (Inr ([] @ xs), s2)" "pos s2 = advance ?n (pos s1)"
      using rlp_elem.elems_reads [OF el s1(2) _ sr1 st s1(3) _ fuel, of "[]"] a sr1 by (auto simp: enc_list_def)
    from ListEnd_ok [OF s2(2) [unfolded s1(4)]] False s1(1) s2 show ?thesis
      by (auto simp: decodeListSlice_def bindE_def mapErrE_def advance_advance enc_list_def simp del: decodeSliceElems.simps)
  qed
qed

lemma slice_canonical:
  assumes el: "rlp_elem dec e D"
    and a: "kind s = None" "decodeListSlice dec s = (Inr xs, s')" "length (sr s) < 2 ^ 64"
  shows "((\<forall>x \<in> set xs. D x) \<and> length (concat (map e xs)) < 2 ^ 64) \<and>
    (\<exists>rest. sr s = enc_list (concat (map e xs)) @ rest) \<and>
    kind s' = None \<and> pos s' = advance (length (enc_list (concat (map e xs)))) (pos s)"
proof -
  from a(2) obtain sz s1 where l: "Stream_List s = (Inr sz, s1)" by (auto simp: decodeListSlice_def)
  from Stream_List_inv [OF a(1) l a(3)] obtain rest where h: "sr s = puthead 0xC0 0xF7 sz @ rest" "kind s1 = None"
    "pos s1 = enter sz (advance (length (puthead 0xC0 0xF7 sz)) (pos s))" by blast
  have len1: "length (sr s1) < 2 ^ 64" using sr_enter [OF h(3)] h(1) a(3) by simp
  have "\<exists>s2 t. (\<forall>x \<in> set xs. D x) \<and> sr s1 = concat (map e xs) @ t \<and>
    pos s2 = advance (length (concat (map e xs))) (pos s1) \<and> ListEnd s2 = (Inr (), s')"
  proof (cases "sz = 0")
    case True
    with l a(2) have "xs = []" "ListEnd s1 = (Inr (), s')" by (auto simp: decodeListSlice_def bindE_def mapErrE_def split: prod.splits sum.splits)
    then show ?thesis by (intro exI [of _ s1]) auto
  next
    case False
    with l a(2) obtain s2 where r: "decodeSliceElems (Suc (length (sr s1))) dec [] s1 = (Inr xs, s2)" "ListEnd s2 = (Inr (), s')"
      by (auto simp: decodeListSlice_def simp del: decodeSliceElems.simps split: if_splits)
    from rlp_elem.elems_canonical [OF el h(2) r(1) len1] r(2) show ?thesis by auto
  qed
  then obtain s2 t where c: "\<forall>x \<in> set xs. D x" "sr s1 = concat (map e xs) @ t"
    "pos s2 = advance (length (concat (map e xs))) (pos s1)" "ListEnd s2 = (Inr (), s')" by blast
  from ListEnd_inv [OF c(4) c(3) [unfolded h(3)]] h c a(3) sr_enter [OF h(3)]
  show ?thesis
    by (auto simp: enc_list_def advance_advance)
qed

lemma rlp_codec_slice:
  assumes el: "rlp_elem dec e D"
  shows "rlp_codec (decodeListSlice dec) (\<lambda>xs. enc_list (concat (map e xs)))
    (\<lambda>xs. (\<forall>x \<in> set xs. D x) \<and> length (concat (map e xs)) < 2 ^ 64)"
proof
  show "decodeListSlice dec s = (Inl EOL, s)" if "kind s = None" "stack s = 0 # ls" for s ls
    using that by (simp add: decodeListSlice_def Stream_List_def bindE_def mapErrE_def Stream_Kind_EOL)
qed (erule (4) slice_reads [OF el], erule (2) slice_canonical [OF el], simp add: enc_list_def puthead_def Let_def)

subsection \<open>The decoders of the reflection layer\<close>

lemma wrapStreamError_EOL_iff: "wrapStreamError er = EOL \<longleftrightarrow> er = EOL"
  by (cases er) (simp_all add: wrapStreamError_def)

definition no_EOL :: "'a decoder \<Rightarrow> bool" where
  "no_EOL m \<longleftrightarrow> (\<forall>s s'. m s \<noteq> (Inl EOL, s'))"

lemma no_EOL_bindE: "no_EOL m \<Longrightarrow> (\<And>a. no_EOL (f a)) \<Longrightarrow> no_EOL (bindE m f)"
  by (auto simp: no_EOL_def elim!: bindE_InlE)

lemma readFull_no_EOL: "no_EOL (readFull n)"
  by (auto simp: no_EOL_def readFull_def willRead_def rearm_def elim!: bindE_InlE split: option.splits if_splits)

lemma readByte_no_EOL: "no_EOL readByte"
  by (auto simp: no_EOL_def readByte_def willRead_def rearm_def elim!: bindE_InlE split: option.splits if_splits list.splits)

lemma readUint_no_EOL: "no_EOL (readUint n)"
  unfolding no_EOL_def readUint_readFull using readFull_no_EOL
  by (auto simp: no_EOL_def elim!: bindE_InlE split: if_splits)

lemma readKind_no_EOL: "readKind s = (r, s') \<Longrightarrow> \<exists>k sz er. r = Inr (k, sz, er) \<and> er \<noteq> Some EOL"
  using readByte_no_EOL readUint_no_EOL
  by (fastforce simp: readKind_def readSize_def no_EOL_def bindE_def tryE_def split: prod.splits sum.splits if_splits)

lemma Stream_Kind_EOL_only:
  assumes "kind s = None" "Stream_Kind s = (Inl EOL, s')"
  shows "s' = s"
proof (cases "listLimit s = Some 0")
  case True
  with assms show ?thesis by (simp add: Stream_Kind_def bindE_def)
next
  case False
  obtain r s1 where r: "readKind s = (r, s1)" by fastforce
  with readKind_no_EOL obtain k sz er where "r = Inr (k, sz, er)" "er \<noteq> Some EOL" by blast
  with False assms r show ?thesis
    by (cases er) (auto simp: Stream_Kind_def bindE_def kind_result_def check_limits_def split: if_splits option.splits)
qed

lemma decodeByteSlice_EOL_only:
  assumes "kind s = None" "decodeByteSlice s = (Inl EOL, s')"
  shows "s' = s"
proof -
  from assms(2) have "Stream_Bytes s = (Inl EOL, s')"
    by (auto simp: decodeByteSlice_def mapErrE_def wrapStreamError_EOL_iff split: prod.splits sum.splits)
  then have "Stream_Kind s = (Inl EOL, s')" using readFull_no_EOL
    by (auto simp: Stream_Bytes_def no_EOL_def rearm_def elim!: bindE_InlE split: Kind.splits if_splits)
  with Stream_Kind_EOL_only assms(1) show ?thesis by blast
qed

interpretation signature: rlp_elem decodeByteSlice enc_str "\<lambda>b. length b < 2 ^ 64"
proof -
  have "rlp_codec decodeByteSlice enc_str (\<lambda>b. length b < 2 ^ 64)"
    unfolding decodeByteSlice_def by (intro rlp_codec_mapErr byte_slice.rlp_codec_axioms wrapStreamError_EOL)
  then show "rlp_elem decodeByteSlice enc_str (\<lambda>b. length b < 2 ^ 64)"
    by (intro rlp_elem.intro rlp_elem_axioms.intro decodeByteSlice_EOL_only)
qed

interpretation uint_field: rlp_codec decodeUint "\<lambda>i. enc_nat (unat i)" "\<lambda>_. True"
  unfolding decodeUint_def by (intro rlp_codec_mapErr uint64.rlp_codec_axioms wrapStreamError_EOL)

interpretation big_field: rlp_codec decodeBigInt "\<lambda>i. enc_nat (nat i)" "\<lambda>i. 0 \<le> i \<and> byte_len (nat i) < 2 ^ 64"
  unfolding decodeBigInt_def by (intro rlp_codec_mapErr big_int.rlp_codec_axioms wrapStreamError_EOL)

end
