(* ===== verification/Types_V2.thy ===== *)
theory Types_V2
  imports Rlp
begin

text \<open>
  The messages of the consensus protocol, \<open>core/types/consensus_v2.go\<close>, the block header of
  \<open>core/types/block.go\<close>, the errors of \<open>consensus/XDPoS/utils/errors.go\<close> and \<open>consensus/errors.go\<close>,
  and the extra-field codec of \<open>consensus/XDPoS/utils/utils.go\<close>.

  The fields of a record carry a prefix for the struct they belong to.  Pointers that a decoded
  message always fills are values here; the pointers the code tests or can find empty (the
  certificates of a \<open>SyncInfo\<close>, the certificate of the extra fields, the signature slice of a
  \<open>TimeoutCert\<close>, the base fee) are options.  \<open>keccak\<close> is the hash function of the crypto package.
\<close>

section \<open>Errors\<close>

text \<open>
  \<open>Errorf\<close> stands for an error built with \<open>fmt.Errorf\<close> or \<open>errors.New\<close> at the place of use, by its
  fixed text; \<open>Wrap\<close> adds text to a cause.  \<open>NilPointer\<close>, \<open>IndexOutOfRange\<close> and \<open>Panic\<close> are run-time
  panics, and \<open>StackOverflow\<close> is the end of a recursion deeper than the stack.
\<close>

datatype (plugins only: code size) err =
    ErrUnknownBlock | ErrInvalidCheckpointVote | ErrInvalidVote | ErrInvalidCheckpointSigners
  | ErrValidatorsNotLegit | ErrPenaltiesNotLegit | ErrInvalidMixDigest | ErrInvalidUncleHash
  | ErrInvalidDifficulty | ErrInvalidTimestamp | ErrEmptyEpochSwitchValidators | ErrInvalidV2Extra
  | ErrInvalidQuorumCert | ErrInvalidQC | ErrInvalidQCSignatures | ErrInvalidTC | ErrInvalidTCSignatures
  | ErrInvalidSignature | ErrInvalidFieldInNonEpochSwitch | ErrValidatorNotWithinMasternodes
  | ErrCoinbaseAndValidatorMismatch | ErrNotItsTurn | ErrRoundInvalid | ErrAlreadyMined
  | ErrIncomingMessageRoundNotEqualCurrentRound string u64 u64
  | ErrIncomingMessageRoundTooFarFromCurrentRound string u64 u64
  | ErrIncomingMessageBlockNotFound string hash int err
  | ErrUnknownAncestor | ErrMissingCanonicalGapHeader u64 | ErrGapSnapshotUnavailable u64 hash err
  | ErrFutureBlock | ErrNoValidatorSignatureV2 | ErrNotReadyToPropose | ErrNotReadyToMine
  | ErrCoinbaseMismatch | ErrNotBootstrapSnapshot | ErrNoCandidates
  | Errorf string | Wrap string err | RlpErr rlp_err
  | NilPointer | IndexOutOfRange | Panic string | StackOverflow

section \<open>Messages\<close>

type_synonym Round = u64
type_synonym Signature = bytes

record BlockInfo =
  bi_Hash :: hash
  bi_Round :: Round
  bi_Number :: int

record Vote =
  v_signer :: address
  v_Block :: BlockInfo
  v_Signature :: Signature
  v_GapNumber :: u64

record Timeout =
  t_signer :: address
  t_Round :: Round
  t_Signature :: Signature
  t_GapNumber :: u64

record QuorumCert =
  qc_Block :: BlockInfo
  qc_Signatures :: "Signature list"
  qc_GapNumber :: u64

record TimeoutCert =
  tc_Round :: Round
  tc_Signatures :: "Signature list option"
  tc_GapNumber :: u64

record SyncInfo =
  si_QC :: "QuorumCert option"
  si_TC :: "TimeoutCert option"

record ExtraFields_v2 =
  ex_Round :: Round
  ex_QC :: "QuorumCert option"

record EpochSwitchInfo =
  es_Penalties :: "address list"
  es_Standbynodes :: "address list"
  es_Masternodes :: "address list"
  es_MasternodesLen :: nat
  es_Block :: BlockInfo
  es_Parent :: "BlockInfo option"

record Header =
  h_ParentHash :: hash
  h_UncleHash :: hash
  h_Coinbase :: address
  h_Root :: hash
  h_TxHash :: hash
  h_ReceiptHash :: hash
  h_Bloom :: "2048 word"
  h_Difficulty :: int
  h_Number :: int
  h_GasLimit :: u64
  h_GasUsed :: u64
  h_Time :: u64
  h_Extra :: bytes
  h_MixDigest :: hash
  h_Nonce :: u64
  h_Validators :: bytes
  h_Validator :: bytes
  h_Penalties :: bytes
  h_BaseFee :: "int option"

section \<open>Writers and hashes\<close>

definition writeHash :: "hash \<Rightarrow> writer" where
  "writeHash h = writeByteArray (bytes_of_word 32 h)"

definition writeBlockInfo :: "BlockInfo \<Rightarrow> writer" where
  "writeBlockInfo b = writeStruct
     [writeHash (bi_Hash b), writeUint64 (bi_Round b), writeBigIntPtr (Some (bi_Number b))]"

definition writeVote :: "Vote \<Rightarrow> writer" where
  "writeVote v = writeStruct
     [writeBlockInfo (v_Block v), writeBytes (v_Signature v), writeUint64 (v_GapNumber v)]"

definition writeTimeout :: "Timeout \<Rightarrow> writer" where
  "writeTimeout t = writeStruct
     [writeUint64 (t_Round t), writeBytes (t_Signature t), writeUint64 (t_GapNumber t)]"

definition writeQuorumCert :: "QuorumCert \<Rightarrow> writer" where
  "writeQuorumCert qc = writeStruct
     [writeBlockInfo (qc_Block qc), writeSlice writeBytes (qc_Signatures qc), writeUint64 (qc_GapNumber qc)]"

definition writeTimeoutCert :: "TimeoutCert \<Rightarrow> writer" where
  "writeTimeoutCert tc = writeStruct
     [writeUint64 (tc_Round tc),
      writeSlice writeBytes (case tc_Signatures tc of None \<Rightarrow> [] | Some sigs \<Rightarrow> sigs),
      writeUint64 (tc_GapNumber tc)]"

definition writeSyncInfo :: "SyncInfo \<Rightarrow> writer" where
  "writeSyncInfo s = writeStruct [writePtr writeQuorumCert (si_QC s), writePtr writeTimeoutCert (si_TC s)]"

definition writeExtraFields :: "ExtraFields_v2 \<Rightarrow> writer" where
  "writeExtraFields e = writeStruct [writeUint64 (ex_Round e), writePtr writeQuorumCert (ex_QC e)]"

definition rlpHash :: "(bytes \<Rightarrow> hash) \<Rightarrow> writer \<Rightarrow> hash" where
  "rlpHash keccak w = keccak (encoded_for_hash w)"

definition Vote_Hash :: "(bytes \<Rightarrow> hash) \<Rightarrow> Vote \<Rightarrow> hash" where
  "Vote_Hash keccak v = rlpHash keccak (writeVote v)"

definition Timeout_Hash :: "(bytes \<Rightarrow> hash) \<Rightarrow> Timeout \<Rightarrow> hash" where
  "Timeout_Hash keccak t = rlpHash keccak (writeTimeout t)"

definition SyncInfo_Hash :: "(bytes \<Rightarrow> hash) \<Rightarrow> SyncInfo \<Rightarrow> hash" where
  "SyncInfo_Hash keccak s = rlpHash keccak (writeSyncInfo s)"

text \<open>\<open>VoteForSign\<close> and \<open>TimeoutForSign\<close>: what a vote and a timeout sign.\<close>

definition VoteSigHash :: "(bytes \<Rightarrow> hash) \<Rightarrow> BlockInfo \<Rightarrow> u64 \<Rightarrow> hash" where
  "VoteSigHash keccak blockInfo gapNumber =
     rlpHash keccak (writeStruct [writeBlockInfo blockInfo, writeUint64 gapNumber])"

definition TimeoutSigHash :: "(bytes \<Rightarrow> hash) \<Rightarrow> Round \<Rightarrow> u64 \<Rightarrow> hash" where
  "TimeoutSigHash keccak round gapNumber =
     rlpHash keccak (writeStruct [writeUint64 round, writeUint64 gapNumber])"

subsection \<open>Headers\<close>

text \<open>\<open>rlpHash(header)\<close>: all fields, the base fee only when it is set.\<close>

definition header_prefix :: "Header \<Rightarrow> writer list" where
  "header_prefix h =
    [writeHash (h_ParentHash h), writeHash (h_UncleHash h), writeByteArray (bytes_of_word 20 (h_Coinbase h)),
     writeHash (h_Root h), writeHash (h_TxHash h), writeHash (h_ReceiptHash h),
     writeByteArray (bytes_of_word 256 (h_Bloom h)), writeBigIntPtr (Some (h_Difficulty h)),
     writeBigIntPtr (Some (h_Number h)), writeUint64 (h_GasLimit h), writeUint64 (h_GasUsed h),
     writeUint64 (h_Time h), writeBytes (h_Extra h), writeHash (h_MixDigest h),
     writeByteArray (bytes_of_word 8 (h_Nonce h)), writeBytes (h_Validators h)]"

definition base_fee_writer :: "Header \<Rightarrow> writer list" where
  "base_fee_writer h = (case h_BaseFee h of None \<Rightarrow> [] | Some f \<Rightarrow> [writeBigIntPtr (Some f)])"

definition Header_Hash :: "(bytes \<Rightarrow> hash) \<Rightarrow> Header \<Rightarrow> hash" where
  "Header_Hash keccak h = rlpHash keccak (writeStruct
     (header_prefix h @ [writeBytes (h_Validator h), writeBytes (h_Penalties h)] @ base_fee_writer h))"

text \<open>\<open>sigHash\<close>: the hash the proposer signs leaves the validator field out.  An encoding error is
  a panic.\<close>

definition sigHash :: "(bytes \<Rightarrow> hash) \<Rightarrow> Header \<Rightarrow> err + hash" where
  "sigHash keccak h = (case EncodeToBytes (writeSlice id
       (header_prefix h @ [writeBytes (h_Penalties h)] @ base_fee_writer h)) of
     Inl _ \<Rightarrow> Inl (Panic ''rlp.Encode fail'')
   | Inr b \<Rightarrow> Inr (keccak b))"

section \<open>The extra fields of a header\<close>

definition ExtraFields_EncodeToBytes :: "ExtraFields_v2 \<Rightarrow> rlp_err + bytes" where
  "ExtraFields_EncodeToBytes e = (case EncodeToBytes (writeExtraFields e) of
     Inl er \<Rightarrow> Inl er | Inr b \<Rightarrow> Inr (2 # b))"

definition decodeHash :: "hash decoder" where
  "decodeHash = bindE (decodeByteArray 32) (\<lambda>b. returnE (word_of_bytes b))"

definition decodeBlockInfo :: "BlockInfo decoder" where
  "decodeBlockInfo = decodeStruct
     (bindE (decodeField decodeHash) (\<lambda>h.
      bindE (decodeField decodeUint) (\<lambda>r.
      bindE (decodeField decodeBigInt) (\<lambda>n.
      returnE \<lparr>bi_Hash = h, bi_Round = r, bi_Number = n\<rparr>))))"

definition decodeQuorumCert :: "QuorumCert decoder" where
  "decodeQuorumCert = decodeStruct
     (bindE (decodeField decodeBlockInfo) (\<lambda>b.
      bindE (decodeField (decodeListSlice decodeByteSlice)) (\<lambda>sigs.
      bindE (decodeField decodeUint) (\<lambda>g.
      returnE \<lparr>qc_Block = b, qc_Signatures = sigs, qc_GapNumber = g\<rparr>))))"

definition decodeExtraFields :: "ExtraFields_v2 decoder" where
  "decodeExtraFields = decodeStruct
     (bindE (decodeField decodeUint) (\<lambda>r.
      bindE (decodeField decodeQuorumCert) (\<lambda>qc.
      returnE \<lparr>ex_Round = r, ex_QC = Some qc\<rparr>)))"

definition DecodeBytesExtraFields :: "bytes \<Rightarrow> err + ExtraFields_v2" where
  "DecodeBytesExtraFields b =
    (if length b = 0 then Inl (Errorf ''extra field is 0 length'')
     else if length b > 20 * 1024 then Inl (Errorf ''extra field is too long'')
     else if b ! 0 = 2 then (case DecodeBytes decodeExtraFields (drop 1 b) of
         Inl e \<Rightarrow> Inl (RlpErr e) | Inr x \<Rightarrow> Inr x)
     else Inl (Errorf ''consensus version is not defined, or this block is v1 block''))"

section \<open>Pool keys\<close>

text \<open>Decimal and hexadecimal printing, as \<open>fmt.Sprint\<close> and \<open>Hash.Hex\<close> do it.\<close>

fun dec_of_nat :: "nat \<Rightarrow> string" where
  "dec_of_nat n = (if n < 10 then [char_of (48 + n)] else dec_of_nat (n div 10) @ [char_of (48 + n mod 10)])"

declare dec_of_nat.simps [simp del]

definition dec_of_int :: "int \<Rightarrow> string" where
  "dec_of_int i = (if i < 0 then CHR ''-'' # dec_of_nat (nat (- i)) else dec_of_nat (nat i))"

definition hex_digit :: "nat \<Rightarrow> char" where
  "hex_digit n = (if n < 10 then char_of (48 + n) else char_of (87 + n))"

fun hex_of_nat :: "nat \<Rightarrow> nat \<Rightarrow> string" where
  "hex_of_nat 0 n = []"
| "hex_of_nat (Suc k) n = hex_of_nat k (n div 16) @ [hex_digit (n mod 16)]"

definition Hash_Hex :: "hash \<Rightarrow> string" where
  "Hash_Hex h = ''0x'' @ hex_of_nat 64 (unat h)"

definition Vote_PoolKey :: "Vote \<Rightarrow> string" where
  "Vote_PoolKey v = dec_of_nat (unat (bi_Round (v_Block v))) @ '':'' @ dec_of_nat (unat (v_GapNumber v)) @ '':'' @
     dec_of_int (bi_Number (v_Block v)) @ '':'' @ Hash_Hex (bi_Hash (v_Block v))"

definition Timeout_PoolKey :: "Timeout \<Rightarrow> string" where
  "Timeout_PoolKey t = dec_of_nat (unat (t_Round t)) @ '':'' @ dec_of_nat (unat (t_GapNumber t))"

text \<open>\<open>DeepCopy\<close> as values; the copies of the Go code also have to be fresh memory.\<close>

definition Vote_DeepCopy :: "Vote \<Rightarrow> Vote" where
  "Vote_DeepCopy v = \<lparr>v_signer = v_signer v,
     v_Block = \<lparr>bi_Hash = bi_Hash (v_Block v), bi_Round = bi_Round (v_Block v), bi_Number = bi_Number (v_Block v)\<rparr>,
     v_Signature = v_Signature v, v_GapNumber = v_GapNumber v\<rparr>"

definition Timeout_DeepCopy :: "Timeout \<Rightarrow> Timeout" where
  "Timeout_DeepCopy t = \<lparr>t_signer = t_signer t, t_Round = t_Round t, t_Signature = t_Signature t,
     t_GapNumber = t_GapNumber t\<rparr>"

end
