(* ===== verification/Config_V2.thy ===== *)
theory Config_V2
  imports Prelude
begin

text \<open>
  The round-indexed configuration of \<open>params/config_xdpos.go\<close>, and the certificate threshold: the
  product of the number of masternodes and a \<open>float64\<close>, compared with a number of signatures.  The
  float arithmetic is exact here: a threshold is a dyadic fraction, and the product is rounded to
  53 bits, to nearest with ties to even, as IEEE 754 prescribes for the magnitudes that occur.
\<close>

section \<open>Thresholds in \<open>float64\<close>\<close>

text \<open>\<open>mant / 2 ^ expo\<close>; a \<open>float64\<close> literal between 0 and 1 has this form with \<open>mant < 2 ^ 53\<close>.\<close>

record float64 =
  mant :: nat
  expo :: nat

fun bit_len :: "nat \<Rightarrow> nat" where
  "bit_len n = (if n = 0 then 0 else Suc (bit_len (n div 2)))"

declare bit_len.simps [simp del]

definition round_div :: "nat \<Rightarrow> nat \<Rightarrow> nat" where
  "round_div m k = (let q = m div 2 ^ k; r = m mod 2 ^ k in
     if k \<noteq> 0 \<and> (2 ^ (k - 1) < r \<or> r = 2 ^ (k - 1) \<and> odd q) then q + 1 else q)"

definition round53 :: "nat \<Rightarrow> nat" where
  "round53 m = (let k = bit_len m - 53 in round_div m k * 2 ^ k)"

text \<open>\<open>float64(count) >= float64(total) * threshold\<close>\<close>

definition threshold_reached :: "nat \<Rightarrow> nat \<Rightarrow> float64 \<Rightarrow> bool" where
  "threshold_reached count n thr \<longleftrightarrow> round53 (n * mant thr) \<le> count * 2 ^ expo thr"

text \<open>The value of the constant \<open>0.667\<close>, the threshold of the networks' configurations (one test network's has 0.45 for a time).\<close>

definition certThreshold_667 :: float64 where
  "certThreshold_667 = \<lparr>mant = 3003900951456121, expo = 52\<rparr>"

section \<open>The configurations\<close>

record ExpTimeoutConfig =
  Base :: float64
  MaxExponent :: byte

record V2Config =
  MaxMasternodes :: int
  MaxProtectorNodes :: int
  MaxObserverNodes :: int
  SwitchRound :: u64
  MinePeriod :: int
  TimeoutSyncThreshold :: int
  TimeoutPeriod :: int
  CertThreshold :: float64
  MasternodeReward :: float64
  ProtectorReward :: float64
  ObserverReward :: float64
  MinimumMinerBlockPerEpoch :: int
  LimitPenaltyEpoch :: int
  MinimumSigningTx :: int
  cfg_ExpTimeout :: ExpTimeoutConfig

record V2 =
  SwitchEpoch :: u64
  SwitchBlock :: int
  CurrentConfig :: V2Config
  AllConfigs :: "(u64 \<times> V2Config) list"
  configIndex :: "u64 list"

record XDPoSConfig =
  Period :: u64
  Epoch :: u64
  Reward :: u64
  RewardCheckpoint :: u64
  Gap :: u64
  FoundationWalletAddr :: address
  MaxMasternodesV2 :: int
  SkipV1Validation :: bool
  cfg_V2 :: V2

fun first_at_most :: "u64 \<Rightarrow> u64 list \<Rightarrow> u64" where
  "first_at_most round [] = 0"
| "first_at_most round (i # is) = (if i \<le> round then i else first_at_most round is)"

text \<open>\<open>Config\<close>: a missing entry of the map is the nil pointer.\<close>

definition V2_Config :: "u64 \<Rightarrow> V2 \<Rightarrow> V2Config option" where
  "V2_Config round v2 = map_of (AllConfigs v2) (first_at_most round (configIndex v2))"

definition UpdateConfig :: "u64 \<Rightarrow> V2 \<Rightarrow> V2 option" where
  "UpdateConfig round v2 = (case map_of (AllConfigs v2) (first_at_most round (configIndex v2)) of
     None \<Rightarrow> None | Some c \<Rightarrow> Some (v2\<lparr>CurrentConfig := c\<rparr>))"

definition BuildConfigIndex :: "V2 \<Rightarrow> V2" where
  "BuildConfigIndex v2 = v2\<lparr>configIndex := rev (sort (map fst (AllConfigs v2)))\<rparr>"

section \<open>Lookup\<close>

lemma first_at_most_sorted:
  assumes "sorted_wrt (\<ge>) is" "\<exists>i \<in> set is. i \<le> round"
  shows "first_at_most round is \<in> set is \<and> first_at_most round is \<le> round \<and>
    (\<forall>i \<in> set is. i \<le> round \<longrightarrow> i \<le> first_at_most round is)"
  using assms by (induction "is") auto

lemma sorted_rev_ge: "sorted_wrt (\<ge>) (rev (sort xs))"
  by (simp add: sorted_wrt_rev)

text \<open>
  Property C18.  With the index that \<open>BuildConfigIndex\<close> builds and a configuration for round 0, \<open>Config\<close>
  finds for every round the configuration of the latest switch round not after it, and
  \<open>UpdateConfig\<close> makes exactly that one the current configuration.
\<close>

theorem config_of_latest_switch:
  assumes "distinct (map fst (AllConfigs v2))" and "0 \<in> fst ` set (AllConfigs v2)"
  shows "\<exists>r c. (r, c) \<in> set (AllConfigs v2) \<and> r \<le> round \<and>
    (\<forall>r' \<in> fst ` set (AllConfigs v2). r' \<le> round \<longrightarrow> r' \<le> r) \<and>
    V2_Config round (BuildConfigIndex v2) = Some c \<and>
    UpdateConfig round (BuildConfigIndex v2) = Some ((BuildConfigIndex v2)\<lparr>CurrentConfig := c\<rparr>)"
proof -
  let ?is = "configIndex (BuildConfigIndex v2)"
  let ?r = "first_at_most round ?is"
  have "\<exists>i \<in> set ?is. i \<le> round" using assms(2) by (intro bexI [of _ 0]) (simp_all add: BuildConfigIndex_def)
  from first_at_most_sorted [OF _ this] have r: "?r \<in> fst ` set (AllConfigs v2)" "?r \<le> round"
    "\<forall>i \<in> fst ` set (AllConfigs v2). i \<le> round \<longrightarrow> i \<le> ?r"
    by (auto simp: BuildConfigIndex_def sorted_rev_ge)
  then obtain c where c: "(?r, c) \<in> set (AllConfigs v2)" by fastforce
  with assms(1) have "map_of (AllConfigs v2) ?r = Some c" by simp
  then show ?thesis using r c
    by (intro exI [of _ ?r] exI [of _ c]) (simp add: V2_Config_def UpdateConfig_def BuildConfigIndex_def)
qed

definition example_config :: "u64 \<Rightarrow> int \<Rightarrow> V2Config" where
  "example_config r n = \<lparr>MaxMasternodes = n, MaxProtectorNodes = 0, MaxObserverNodes = 0,
     SwitchRound = r, MinePeriod = 2, TimeoutSyncThreshold = 3,
     TimeoutPeriod = 10, CertThreshold = certThreshold_667,
     MasternodeReward = \<lparr>mant = 0, expo = 0\<rparr>, ProtectorReward = \<lparr>mant = 0, expo = 0\<rparr>,
     ObserverReward = \<lparr>mant = 0, expo = 0\<rparr>, MinimumMinerBlockPerEpoch = 1, LimitPenaltyEpoch = 4,
     MinimumSigningTx = 2, cfg_ExpTimeout = \<lparr>Base = \<lparr>mant = 1, expo = 0\<rparr>, MaxExponent = 0\<rparr>\<rparr>"

definition example_V2 :: V2 where
  "example_V2 = \<lparr>SwitchEpoch = 0, SwitchBlock = 0, CurrentConfig = example_config 0 108,
     AllConfigs = [(900, example_config 900 18), (0, example_config 0 108)], configIndex = []\<rparr>"

theorem config_of_latest_switch_witness:
  "\<exists>r c. (r, c) \<in> set (AllConfigs example_V2) \<and> r \<le> 1000 \<and>
    (\<forall>r' \<in> fst ` set (AllConfigs example_V2). r' \<le> 1000 \<longrightarrow> r' \<le> r) \<and>
    V2_Config 1000 (BuildConfigIndex example_V2) = Some c \<and>
    UpdateConfig 1000 (BuildConfigIndex example_V2) = Some ((BuildConfigIndex example_V2)\<lparr>CurrentConfig := c\<rparr>)"
  by (rule config_of_latest_switch) (simp_all add: example_V2_def)

section \<open>Quorums\<close>

lemma bit_len_bounds: "n < 2 ^ bit_len n" "n \<noteq> 0 \<Longrightarrow> 2 ^ (bit_len n - 1) \<le> n"
proof -
  have step: "n \<noteq> 0 \<Longrightarrow> bit_len n = Suc (bit_len (n div 2))" for n by (simp add: bit_len.simps [of n])
  have zero: "bit_len 0 = 0" by (simp add: bit_len.simps [of 0])
  show "n < 2 ^ bit_len n"
  proof (induction n rule: bit_len.induct)
    case (1 n)
    show ?case
    proof (cases "n = 0")
      case False
      with 1 have "n < 2 ^ bit_len (n div 2) * 2" by (simp add: div_less_iff_less_mult)
      then show ?thesis by (simp add: step [OF False] mult.commute)
    qed simp
  qed
  show "n \<noteq> 0 \<Longrightarrow> 2 ^ (bit_len n - 1) \<le> n"
  proof (induction n rule: bit_len.induct)
    case (1 n)
    show ?case
    proof (cases "n div 2 = 0")
      case True
      then show ?thesis using 1(2) by (simp add: step zero)
    next
      case False
      from 1(1) [OF 1(2) False] have "2 ^ (bit_len (n div 2) - 1) * 2 \<le> n"
        by (simp add: less_eq_div_iff_mult_less_eq)
      then show ?thesis by (simp add: step [OF 1(2)] step [OF False] mult.commute)
    qed
  qed
qed

text \<open>Rounding loses at most half a unit in the last place, one part in \<open>2 ^ 53\<close>.\<close>

lemma round_div_lower: "2 * m \<le> 2 * (round_div m k * 2 ^ k) + 2 ^ k"
proof (cases "k = 0")
  case True
  then show ?thesis by (simp add: round_div_def)
next
  case False
  let ?q = "m div 2 ^ k" and ?r = "m mod 2 ^ k"
  have m: "m = ?q * 2 ^ k + ?r" by (rule div_mult_mod_eq [symmetric])
  have k: "(2 :: nat) ^ k = 2 * 2 ^ (k - 1)" using False by (cases k) auto
  have r: "?r < 2 ^ k" by simp
  show ?thesis
  proof (cases "2 ^ (k - 1) < ?r \<or> ?r = 2 ^ (k - 1) \<and> odd ?q")
    case True
    then have "round_div m k = ?q + 1" using False by (simp add: round_div_def Let_def)
    moreover have "m < (?q + 1) * 2 ^ k" using m r by (metis add_mult_distrib mult_1 nat_add_left_cancel_less)
    ultimately show ?thesis by simp
  next
    case F: False
    then have "round_div m k = ?q" using False by (simp add: round_div_def Let_def)
    moreover have "?r \<le> 2 ^ (k - 1)" using F by auto
    ultimately show ?thesis using m k by (metis add_mult_distrib2 mult_le_mono2 nat_add_left_cancel_le)
  qed
qed

lemma round53_lower: "m * (2 ^ 53 - 1) \<le> round53 m * 2 ^ 53"
proof (cases "bit_len m \<le> 53")
  case True
  then have "round53 m = m" by (simp add: round53_def round_div_def)
  then show ?thesis by (simp add: mult_le_mono2)
next
  case False
  define k where "k = bit_len m - 53"
  define N :: nat where "N = 2 ^ 53"
  have "m \<noteq> 0" using False by (intro notI) (simp add: bit_len.simps [of 0])
  with bit_len_bounds(2) [of m] have "2 ^ (bit_len m - 1) \<le> m" by blast
  moreover have "bit_len m - 1 = 52 + k" using False by (simp add: k_def)
  moreover have "N = 2 * 2 ^ 52" by (simp add: N_def)
  ultimately have "N * 2 ^ k \<le> 2 * m" by (simp add: power_add)
  moreover have "2 * m \<le> 2 * round53 m + 2 ^ k"
    using round_div_lower [of m k] by (simp add: round53_def k_def Let_def)
  then have "N * (2 * m) \<le> N * (2 * round53 m + 2 ^ k)" by (rule mult_le_mono2)
  ultimately have "N * m \<le> N * round53 m + m" by (simp add: distrib_left)
  then show ?thesis unfolding N_def [symmetric] by (simp add: diff_mult_distrib2 mult.commute le_diff_conv)
qed

text \<open>
  A number of distinct masternodes that reaches the threshold is more than two thirds of them, so
  two such sets share more than a third, and every set of at most a third misses some of the shared
  ones.
\<close>

lemma threshold_two_thirds:
  assumes "threshold_reached c n certThreshold_667" "0 < n"
  shows "2 * n < 3 * c"
proof -
  let ?m = "3003900951456121 :: nat"
  have "n * ?m * (2 ^ 53 - 1) \<le> round53 (n * ?m) * 2 ^ 53" by (rule round53_lower)
  also have "\<dots> \<le> c * 2 ^ 52 * 2 ^ 53"
    using assms(1) by (simp add: threshold_reached_def certThreshold_667_def)
  finally have "n * (?m * (2 ^ 53 - 1)) \<le> c * (2 ^ 52 * 2 ^ 53)" by (simp add: mult.assoc)
  then show ?thesis using assms(2) by simp
qed

lemma quorums_intersect:
  assumes "finite M" "A \<subseteq> M" "B \<subseteq> M" "F \<subseteq> M"
    and "threshold_reached (card A) (card M) certThreshold_667"
    and "threshold_reached (card B) (card M) certThreshold_667"
    and "3 * card F \<le> card M" and "M \<noteq> {}"
  shows "card M < 3 * card (A \<inter> B) \<and> (\<exists>v \<in> A \<inter> B. v \<notin> F)"
proof -
  have fin: "finite A" "finite B" "finite F" by (rule finite_subset, fact, fact)+
  have n: "0 < card M" using assms(1,8) by (simp add: card_gt_0_iff)
  have "2 * card M < 3 * card A" "2 * card M < 3 * card B" using threshold_two_thirds n assms(5,6) by auto
  moreover have "card A + card B = card (A \<union> B) + card (A \<inter> B)" using fin by (rule_tac card_Un_Int)
  moreover have "card (A \<union> B) \<le> card M" using assms(1-3) by (intro card_mono) auto
  ultimately have c: "card M < 3 * card (A \<inter> B)" by linarith
  have "\<not> A \<inter> B \<subseteq> F"
  proof
    assume "A \<inter> B \<subseteq> F"
    then have "card (A \<inter> B) \<le> card F" using fin(3) by (rule_tac card_mono)
    with c assms(7) show False by linarith
  qed
  with c show ?thesis by blast
qed

text \<open>
  Property C16.  Quorum intersection under the deployed threshold, rounding of the floating-point
  product included: two sets of masternodes that both reach the certificate threshold have more
  than a third of the masternodes in common, hence a member outside any set of at most a third of
  them.
\<close>

theorem quorum_intersection:
  assumes "finite M" "A \<subseteq> M" "B \<subseteq> M" "F \<subseteq> M"
    and "threshold_reached (card A) (card M) certThreshold_667"
    and "threshold_reached (card B) (card M) certThreshold_667"
    and "3 * card F \<le> card M" and "M \<noteq> {}"
  shows "card M < 3 * card (A \<inter> B) \<and> (\<exists>v \<in> A \<inter> B. v \<notin> F)"
  using assms by (rule quorums_intersect)

theorem quorum_intersection_witness:
  "card {0::nat, 1, 2} < 3 * card ({0::nat, 1, 2} \<inter> {0, 1, 2}) \<and> (\<exists>v \<in> {0::nat, 1, 2} \<inter> {0, 1, 2}. v \<notin> {0})"
  by (rule quorum_intersection) (simp_all add: threshold_reached_def certThreshold_667_def round53_def
      round_div_def bit_len.simps Let_def)

end
