(* ===== verification/Forks.thy ===== *)
theory Forks
  imports Config_V2 Types_V2
begin

text \<open>
  The fork schedule of a chain (\<open>params/config_forks.go\<close>), the checks on the XDPoS schedule
  (\<open>params/config_xdpos_schedule.go\<close>), and what depends on the schedule in a header: the gas price tiers
  (\<open>params/gas.go\<close>), the base fee (\<open>consensus/misc/eip1559\<close>) and the gas limit (\<open>consensus/misc/gaslimit.go\<close>).

  A \<open>*big.Int\<close> that may be nil is an \<open>int option\<close>.  An XDPoS section always has its V2 part here: the
  engine that reads it requires one.
\<close>

section \<open>The fork schedule\<close>

record ChainConfig =
  ChainID :: "int option"
  HomesteadBlock :: "int option"
  DAOForkBlock :: "int option"
  DAOForkSupport :: bool
  EIP150Block :: "int option"
  EIP155Block :: "int option"
  EIP158Block :: "int option"
  ByzantiumBlock :: "int option"
  ConstantinopleBlock :: "int option"
  PetersburgBlock :: "int option"
  IstanbulBlock :: "int option"
  BerlinBlock :: "int option"
  LondonBlock :: "int option"
  MergeBlock :: "int option"
  ShanghaiBlock :: "int option"
  EIP1559Block :: "int option"
  CancunBlock :: "int option"
  PragueBlock :: "int option"
  OsakaBlock :: "int option"
  AmsterdamBlock :: "int option"
  TIP2019Block :: "int option"
  TIPSigningBlock :: "int option"
  TIPRandomizeBlock :: "int option"
  TIPIncreaseMasternodesBlock :: "int option"
  DenylistBlock :: "int option"
  TIPNoHalvingMNRewardBlock :: "int option"
  TIPXDCXBlock :: "int option"
  TIPXDCXLendingBlock :: "int option"
  TIPXDCXCancellationFeeBlock :: "int option"
  TIPTRC21FeeBlock :: "int option"
  Gas50xBlock :: "int option"
  Gas2500xBlock :: "int option"
  TIPXDCXMinerDisableBlock :: "int option"
  TIPXDCXReceiverDisableBlock :: "int option"
  DynamicGasLimitBlock :: "int option"
  TIPFixedRewardBlock :: "int option"
  TIPUpgradePenaltyBlock :: "int option"
  TIPEpochHalvingBlock :: "int option"
  TIPProportionalRewardBlock :: "int option"
  TRC21IssuerSMC :: address
  XDCXListingSMC :: address
  RelayerRegistrationSMC :: address
  LendingRegistrationSMC :: address
  cc_XDPoS :: "XDPoSConfig option"

definition isForked :: "int option \<Rightarrow> int option \<Rightarrow> bool" where
  "isForked s head = (case s of None \<Rightarrow> False | Some b \<Rightarrow> (case head of None \<Rightarrow> False | Some n \<Rightarrow> b \<le> n))"

definition IsHomestead :: "ChainConfig \<Rightarrow> int option \<Rightarrow> bool" where
  "IsHomestead c num = isForked (HomesteadBlock c) num"

definition IsDAOFork :: "ChainConfig \<Rightarrow> int option \<Rightarrow> bool" where
  "IsDAOFork c num = isForked (DAOForkBlock c) num"

definition IsTIP2019 :: "ChainConfig \<Rightarrow> int option \<Rightarrow> bool" where
  "IsTIP2019 c num = isForked (TIP2019Block c) num"

definition IsEIP150 :: "ChainConfig \<Rightarrow> int option \<Rightarrow> bool" where
  "IsEIP150 c num = isForked (EIP150Block c) num"

definition IsEIP155 :: "ChainConfig \<Rightarrow> int option \<Rightarrow> bool" where
  "IsEIP155 c num = isForked (EIP155Block c) num"

definition IsEIP158 :: "ChainConfig \<Rightarrow> int option \<Rightarrow> bool" where
  "IsEIP158 c num = isForked (EIP158Block c) num"

definition IsByzantium :: "ChainConfig \<Rightarrow> int option \<Rightarrow> bool" where
  "IsByzantium c num = isForked (ByzantiumBlock c) num"

definition IsConstantinople :: "ChainConfig \<Rightarrow> int option \<Rightarrow> bool" where
  "IsConstantinople c num = isForked (ConstantinopleBlock c) num"

definition IsPetersburg :: "ChainConfig \<Rightarrow> int option \<Rightarrow> bool" where
  "IsPetersburg c num = (isForked (TIPXDCXCancellationFeeBlock c) num \<or> isForked (PetersburgBlock c) num)"

definition IsIstanbul :: "ChainConfig \<Rightarrow> int option \<Rightarrow> bool" where
  "IsIstanbul c num = (isForked (TIPXDCXCancellationFeeBlock c) num \<or> isForked (IstanbulBlock c) num)"

definition IsTIPSigning :: "ChainConfig \<Rightarrow> int option \<Rightarrow> bool" where
  "IsTIPSigning c num = isForked (TIPSigningBlock c) num"

definition IsTIPRandomize :: "ChainConfig \<Rightarrow> int option \<Rightarrow> bool" where
  "IsTIPRandomize c num = isForked (TIPRandomizeBlock c) num"

definition IsTIPIncreaseMasternodes :: "ChainConfig \<Rightarrow> int option \<Rightarrow> bool" where
  "IsTIPIncreaseMasternodes c num = isForked (TIPIncreaseMasternodesBlock c) num"

definition IsDenylist :: "ChainConfig \<Rightarrow> int option \<Rightarrow> bool" where
  "IsDenylist c num = isForked (DenylistBlock c) num"

definition IsTIPNoHalvingMNReward :: "ChainConfig \<Rightarrow> int option \<Rightarrow> bool" where
  "IsTIPNoHalvingMNReward c num = isForked (TIPNoHalvingMNRewardBlock c) num"

definition IsTIPXDCX :: "ChainConfig \<Rightarrow> int option \<Rightarrow> bool" where
  "IsTIPXDCX c num = isForked (TIPXDCXBlock c) num"

definition IsTIPXDCXLending :: "ChainConfig \<Rightarrow> int option \<Rightarrow> bool" where
  "IsTIPXDCXLending c num = isForked (TIPXDCXLendingBlock c) num"

definition IsTIPXDCXCancellationFee :: "ChainConfig \<Rightarrow> int option \<Rightarrow> bool" where
  "IsTIPXDCXCancellationFee c num = isForked (TIPXDCXCancellationFeeBlock c) num"

definition IsTIPTRC21Fee :: "ChainConfig \<Rightarrow> int option \<Rightarrow> bool" where
  "IsTIPTRC21Fee c num = isForked (TIPTRC21FeeBlock c) num"

definition IsBerlin :: "ChainConfig \<Rightarrow> int option \<Rightarrow> bool" where
  "IsBerlin c num = isForked (BerlinBlock c) num"

definition IsLondon :: "ChainConfig \<Rightarrow> int option \<Rightarrow> bool" where
  "IsLondon c num = isForked (LondonBlock c) num"

definition IsMerge :: "ChainConfig \<Rightarrow> int option \<Rightarrow> bool" where
  "IsMerge c num = isForked (MergeBlock c) num"

definition IsShanghai :: "ChainConfig \<Rightarrow> int option \<Rightarrow> bool" where
  "IsShanghai c num = isForked (ShanghaiBlock c) num"

definition IsXDPoSV2 :: "ChainConfig \<Rightarrow> int option \<Rightarrow> bool" where
  "IsXDPoSV2 c num = (case cc_XDPoS c of None \<Rightarrow> False | Some xc \<Rightarrow> isForked (Some (SwitchBlock (cfg_V2 xc))) num)"

definition IsGas50x :: "ChainConfig \<Rightarrow> int option \<Rightarrow> bool" where
  "IsGas50x c num = isForked (Gas50xBlock c) num"

definition IsGas2500x :: "ChainConfig \<Rightarrow> int option \<Rightarrow> bool" where
  "IsGas2500x c num = isForked (Gas2500xBlock c) num"

definition IsTIPXDCXMiner :: "ChainConfig \<Rightarrow> int option \<Rightarrow> bool" where
  "IsTIPXDCXMiner c num = (isForked (TIPXDCXBlock c) num \<and> \<not> isForked (TIPXDCXMinerDisableBlock c) num)"

definition IsTIPXDCXReceiver :: "ChainConfig \<Rightarrow> int option \<Rightarrow> bool" where
  "IsTIPXDCXReceiver c num = (isForked (TIPXDCXBlock c) num \<and> \<not> isForked (TIPXDCXReceiverDisableBlock c) num)"

definition IsXDCxDisable :: "ChainConfig \<Rightarrow> int option \<Rightarrow> bool" where
  "IsXDCxDisable c num = (isForked (TIPXDCXMinerDisableBlock c) num)"

definition IsEIP1559 :: "ChainConfig \<Rightarrow> int option \<Rightarrow> bool" where
  "IsEIP1559 c num = isForked (EIP1559Block c) num"

definition IsCancun :: "ChainConfig \<Rightarrow> int option \<Rightarrow> bool" where
  "IsCancun c num = isForked (CancunBlock c) num"

definition IsDynamicGasLimit :: "ChainConfig \<Rightarrow> int option \<Rightarrow> bool" where
  "IsDynamicGasLimit c num = isForked (DynamicGasLimitBlock c) num"

definition IsTIPFixedReward :: "ChainConfig \<Rightarrow> int option \<Rightarrow> bool" where
  "IsTIPFixedReward c num = isForked (TIPFixedRewardBlock c) num"

definition IsTIPUpgradePenalty :: "ChainConfig \<Rightarrow> int option \<Rightarrow> bool" where
  "IsTIPUpgradePenalty c num = isForked (TIPUpgradePenaltyBlock c) num"

definition IsTIPEpochHalving :: "ChainConfig \<Rightarrow> int option \<Rightarrow> bool" where
  "IsTIPEpochHalving c num = isForked (TIPEpochHalvingBlock c) num"

definition IsTIPProportionalReward :: "ChainConfig \<Rightarrow> int option \<Rightarrow> bool" where
  "IsTIPProportionalReward c num = isForked (TIPProportionalRewardBlock c) num"

definition IsTIPTieredReward :: "ChainConfig \<Rightarrow> int option \<Rightarrow> bool" where
  "IsTIPTieredReward c num = (IsTIPFixedReward c num \<or> IsTIPProportionalReward c num)"

definition IsPrague :: "ChainConfig \<Rightarrow> int option \<Rightarrow> bool" where
  "IsPrague c num = isForked (PragueBlock c) num"

definition IsOsaka :: "ChainConfig \<Rightarrow> int option \<Rightarrow> bool" where
  "IsOsaka c num = isForked (OsakaBlock c) num"

definition IsAmsterdam :: "ChainConfig \<Rightarrow> int option \<Rightarrow> bool" where
  "IsAmsterdam c num = isForked (AmsterdamBlock c) num"

record GasTable =
  ExtcodeSize :: u64
  ExtcodeCopy :: u64
  Balance :: u64
  SLoad :: u64
  Calls :: u64
  Suicide :: u64
  ExpByte :: u64
  CreateBySuicide :: u64

definition GasTableHomestead :: GasTable where
  "GasTableHomestead = \<lparr>ExtcodeSize = 20, ExtcodeCopy = 20, Balance = 20, SLoad = 50, Calls = 40, Suicide = 0,
     ExpByte = 10, CreateBySuicide = 0\<rparr>"

definition GasTableEIP150 :: GasTable where
  "GasTableEIP150 = \<lparr>ExtcodeSize = 700, ExtcodeCopy = 700, Balance = 400, SLoad = 200, Calls = 700, Suicide = 5000,
     ExpByte = 10, CreateBySuicide = 25000\<rparr>"

definition GasTableEIP158 :: GasTable where
  "GasTableEIP158 = \<lparr>ExtcodeSize = 700, ExtcodeCopy = 700, Balance = 400, SLoad = 200, Calls = 700, Suicide = 5000,
     ExpByte = 50, CreateBySuicide = 25000\<rparr>"

definition ChainConfig_GasTable :: "ChainConfig \<Rightarrow> int option \<Rightarrow> GasTable" where
  "ChainConfig_GasTable c num = (case num of None \<Rightarrow> GasTableHomestead | Some _ \<Rightarrow>
     if IsEIP158 c num then GasTableEIP158 else if IsEIP150 c num then GasTableEIP150 else GasTableHomestead)"

record Rules =
  r_ChainId :: int
  r_IsHomestead :: bool
  r_IsEIP150 :: bool
  r_IsEIP155 :: bool
  r_IsEIP158 :: bool
  r_IsByzantium :: bool
  r_IsConstantinople :: bool
  r_IsPetersburg :: bool
  r_IsIstanbul :: bool
  r_IsBerlin :: bool
  r_IsLondon :: bool
  r_IsMerge :: bool
  r_IsShanghai :: bool
  r_IsXDCxDisable :: bool
  r_IsEIP1559 :: bool
  r_IsCancun :: bool
  r_IsPrague :: bool
  r_IsOsaka :: bool
  r_IsAmsterdam :: bool

definition ChainConfig_Rules :: "ChainConfig \<Rightarrow> int option \<Rightarrow> Rules" where
  "ChainConfig_Rules c num = \<lparr>
     r_ChainId = (case ChainID c of None \<Rightarrow> 0 | Some i \<Rightarrow> i),
     r_IsHomestead = IsHomestead c num,
     r_IsEIP150 = IsEIP150 c num,
     r_IsEIP155 = IsEIP155 c num,
     r_IsEIP158 = IsEIP158 c num,
     r_IsByzantium = IsByzantium c num,
     r_IsConstantinople = IsConstantinople c num,
     r_IsPetersburg = IsPetersburg c num,
     r_IsIstanbul = IsIstanbul c num,
     r_IsBerlin = IsBerlin c num,
     r_IsLondon = IsLondon c num,
     r_IsMerge = IsMerge c num,
     r_IsShanghai = IsShanghai c num,
     r_IsXDCxDisable = IsXDCxDisable c num,
     r_IsEIP1559 = IsEIP1559 c num,
     r_IsCancun = IsCancun c num,
     r_IsPrague = IsPrague c num,
     r_IsOsaka = IsOsaka c num,
     r_IsAmsterdam = IsAmsterdam c num\<rparr>"

section \<open>The XDPoS schedule\<close>

datatype schedule_err = ErrInvalidEpochGap string | ErrMissingForkSwitch string | ErrWrongForkSwitchOrder string

definition CheckSchedule :: "XDPoSConfig option \<Rightarrow> schedule_err option" where
  "CheckSchedule cp = (case cp of None \<Rightarrow> None | Some c \<Rightarrow>
     if Gap c \<noteq> 0 \<and> Gap c < Epoch c then None
     else if Epoch c = 0 then Some (ErrInvalidEpochGap ''XDPoS.Epoch is unset'')
     else if Epoch c = 1 then Some (ErrInvalidEpochGap ''XDPoS.Epoch 1 leaves no gap block'')
     else if Gap c = Epoch c then Some (ErrInvalidEpochGap ''XDPoS.Gap puts the gap trigger on the epoch switch block'')
     else Some (ErrInvalidEpochGap ''XDPoS.Gap designates no gap block inside XDPoS.Epoch''))"

text \<open>\<open>(*big.Int).Div\<close> and \<open>Mod\<close> are Euclidean; for a positive divisor that is HOL's \<open>div\<close> and \<open>mod\<close>.\<close>

definition SwitchEpochFor :: "int option \<Rightarrow> u64 \<Rightarrow> int option \<times> bool" where
  "SwitchEpochFor block epoch = (case block of None \<Rightarrow> (None, False) | Some b \<Rightarrow>
     if epoch = 0 then (None, False)
     else let want = b div uint epoch in (Some want, 0 \<le> want \<and> want < 2 ^ 64))"

definition CheckSwitchBlockAlignment :: "int option \<Rightarrow> u64 \<Rightarrow> schedule_err option" where
  "CheckSwitchBlockAlignment block epoch = (case block of
      None \<Rightarrow> Some (ErrMissingForkSwitch ''XDPoS.V2.SwitchBlock is unset'')
    | Some b \<Rightarrow>
        if epoch = 0 then Some (ErrMissingForkSwitch ''XDPoS.Epoch is unset'')
        else if b \<ge> 0 \<and> \<not> snd (SwitchEpochFor block epoch)
        then Some (ErrWrongForkSwitchOrder ''XDPoS.V2.SwitchBlock names an epoch no uint64 can hold'')
        else if b mod uint epoch \<noteq> 0 then Some (ErrWrongForkSwitchOrder ''XDPoS.V2.SwitchBlock not aligned to XDPoS.Epoch'')
        else None)"

definition BlockConsensusVersion :: "XDPoSConfig \<Rightarrow> int \<Rightarrow> nat" where
  "BlockConsensusVersion c num = (if num > SwitchBlock (cfg_V2 c) then 2 else 1)"

section \<open>Gas prices\<close>

definition DefaultMinGasPrice :: int where "DefaultMinGasPrice = 250000000"
definition InitialBaseFee :: int where "InitialBaseFee = 12500000000"
definition TRC21GasPriceBefore :: int where "TRC21GasPriceBefore = 2500"
definition TRC21GasPrice :: int where "TRC21GasPrice = 250000000"

definition scaledGasPrice :: "int \<Rightarrow> int" where
  "scaledGasPrice multiplier = DefaultMinGasPrice * multiplier"

definition baselineGasPrice :: int where
  "baselineGasPrice = scaledGasPrice 1"

definition gasTiers :: "(int \<times> (ChainConfig \<Rightarrow> int option \<Rightarrow> bool)) list" where
  "gasTiers = [(scaledGasPrice 2500, IsGas2500x), (scaledGasPrice 50, IsGas50x)]"

definition tierGasPrice :: "ChainConfig \<Rightarrow> int option \<Rightarrow> int option" where
  "tierGasPrice cfg num = map_option fst (List.find (\<lambda>(_, activated). activated cfg num) gasTiers)"

definition baselineTRC21GasPrice :: "ChainConfig \<Rightarrow> int option \<Rightarrow> int" where
  "baselineTRC21GasPrice cfg num = (case (num, TIPTRC21FeeBlock cfg) of
      (Some n, Some b) \<Rightarrow> if n > b then TRC21GasPrice else TRC21GasPriceBefore
    | _ \<Rightarrow> TRC21GasPriceBefore)"

definition BaseFeeForBlock :: "ChainConfig \<Rightarrow> int option \<Rightarrow> int" where
  "BaseFeeForBlock cfg num = (case tierGasPrice cfg num of Some price \<Rightarrow> price | None \<Rightarrow> InitialBaseFee)"

definition BaseFeeForOpcode :: int where
  "BaseFeeForOpcode = InitialBaseFee"

definition GetGasPriceForTRC21 :: "int option \<Rightarrow> ChainConfig option \<Rightarrow> err + int" where
  "GetGasPriceForTRC21 num cfgp = (case cfgp of None \<Rightarrow> Inl (Errorf ''chain config is nil'') | Some cfg \<Rightarrow>
     if num = None then Inl (Errorf ''block number is nil'')
     else if TIPTRC21FeeBlock cfg = None then Inl (Errorf ''missing TIPTRC21FeeBlock in chain config'')
     else case tierGasPrice cfg num of Some price \<Rightarrow> Inr price | None \<Rightarrow> Inr (baselineTRC21GasPrice cfg num))"

definition GetGasFee :: "u64 \<Rightarrow> u64 \<Rightarrow> ChainConfig \<Rightarrow> int" where
  "GetGasFee blockNumber gas cfg =
    (let block = Some (uint blockNumber);
         price = (case tierGasPrice cfg block of Some p \<Rightarrow> p | None \<Rightarrow> baselineTRC21GasPrice cfg block)
     in price * uint gas)"

definition chainDefaultGasPrice :: "int option \<Rightarrow> ChainConfig \<Rightarrow> int" where
  "chainDefaultGasPrice num cfg = (case tierGasPrice cfg num of Some p \<Rightarrow> p | None \<Rightarrow> baselineGasPrice)"

definition GetGasPrice :: "int option \<Rightarrow> ChainConfig \<Rightarrow> int" where
  "GetGasPrice num cfg = chainDefaultGasPrice num cfg"

definition GetMinGasPrice :: "int option \<Rightarrow> ChainConfig \<Rightarrow> int" where
  "GetMinGasPrice num cfg = chainDefaultGasPrice num cfg"

section \<open>Base fee and gas limit of a header\<close>

definition CalcBaseFeeForBlockNumber :: "ChainConfig \<Rightarrow> int option \<Rightarrow> int option" where
  "CalcBaseFeeForBlockNumber config num = (if \<not> IsEIP1559 config num then None else Some (BaseFeeForBlock config num))"

definition CalcBaseFee :: "ChainConfig \<Rightarrow> Header \<Rightarrow> int option" where
  "CalcBaseFee config h = CalcBaseFeeForBlockNumber config (Some (h_Number h))"

definition VerifyEip1559Header :: "ChainConfig \<Rightarrow> Header option \<Rightarrow> Header \<Rightarrow> err + unit" where
  "VerifyEip1559Header config parent h =
    (if \<not> IsEIP1559 config (Some (h_Number h)) then
       if h_BaseFee h \<noteq> None then Inl (Errorf ''invalid baseFee'') else Inr ()
     else if h_BaseFee h = None then Inl (Errorf ''header is missing baseFee'')
     else if (case parent of None \<Rightarrow> False
         | Some p \<Rightarrow> IsEIP1559 config (Some (h_Number p)) \<and> h_BaseFee p = None)
       then Inl (Errorf ''parent header is missing baseFee'')
     else if h_BaseFee h \<noteq> CalcBaseFee config h then Inl (Errorf ''invalid baseFee'') else Inr ())"

definition GasLimitBoundDivisor :: u64 where "GasLimitBoundDivisor = 1024"
definition MinGasLimit :: u64 where "MinGasLimit = 5000"

text \<open>The subtraction and the negation are those of \<open>int64\<close>, so they wrap around.\<close>

definition VerifyGaslimit :: "u64 \<Rightarrow> u64 \<Rightarrow> err + unit" where
  "VerifyGaslimit parentGasLimit headerGasLimit =
    (let diff0 = parentGasLimit - headerGasLimit;
         diff = (if sint diff0 < 0 then - diff0 else diff0);
         limit = parentGasLimit div GasLimitBoundDivisor
     in if diff \<ge> limit then Inl (Errorf ''invalid gas limit'')
        else if headerGasLimit < MinGasLimit then Inl (Errorf ''invalid gas limit below'')
        else Inr ())"

section \<open>An example schedule\<close>

text \<open>The tier of 50 from the genesis on, a base fee in the header from block 10 on.\<close>

definition ex_forks :: ChainConfig where
  "ex_forks = \<lparr>
    ChainID = Some 50, HomesteadBlock = None, DAOForkBlock = None, DAOForkSupport = False,
    EIP150Block = None, EIP155Block = None, EIP158Block = None, ByzantiumBlock = None,
    ConstantinopleBlock = None, PetersburgBlock = None, IstanbulBlock = None, BerlinBlock = None,
    LondonBlock = None, MergeBlock = None, ShanghaiBlock = None, EIP1559Block = Some 10, CancunBlock = None,
    PragueBlock = None, OsakaBlock = None, AmsterdamBlock = None, TIP2019Block = None,
    TIPSigningBlock = None, TIPRandomizeBlock = None, TIPIncreaseMasternodesBlock = None,
    DenylistBlock = None, TIPNoHalvingMNRewardBlock = None, TIPXDCXBlock = None, TIPXDCXLendingBlock = None,
    TIPXDCXCancellationFeeBlock = None, TIPTRC21FeeBlock = None, Gas50xBlock = Some 0, Gas2500xBlock = None,
    TIPXDCXMinerDisableBlock = None, TIPXDCXReceiverDisableBlock = None, DynamicGasLimitBlock = None,
    TIPFixedRewardBlock = None, TIPUpgradePenaltyBlock = None, TIPEpochHalvingBlock = None,
    TIPProportionalRewardBlock = None, TRC21IssuerSMC = 0, XDCXListingSMC = 0, RelayerRegistrationSMC = 0,
    LendingRegistrationSMC = 0, cc_XDPoS = None\<rparr>"

end
