(* ===== verification/Pool.thy ===== *)
theory Pool
  imports Types_V2 "HOL-Library.AList"
begin

text \<open>
  The message pools of \<open>consensus/XDPoS/utils/pool.go\<close>: a map from pool keys to maps from message
  hashes to messages, and the cleaning of old rounds that \<open>vote.go\<close> and \<open>timeout.go\<close> run over it.
  The two pools of the engine share the code; the methods a message brings along (\<open>PoolKey\<close>, \<open>Hash\<close>,
  \<open>DeepCopy\<close>) are the record \<open>poolObj\<close>.
\<close>

section \<open>The pool\<close>

record 'o poolObj =
  obj_PoolKey :: "'o \<Rightarrow> string"
  obj_Hash :: "'o \<Rightarrow> hash"
  obj_DeepCopy :: "'o \<Rightarrow> 'o"

type_synonym 'o pool = "(string \<times> (hash \<times> 'o) list) list"

definition NewPool :: "'o pool" where
  "NewPool = []"

definition objs_at :: "string \<Rightarrow> 'o pool \<Rightarrow> (hash \<times> 'o) list" where
  "objs_at poolKey p = (case map_of p poolKey of None \<Rightarrow> [] | Some objs \<Rightarrow> objs)"

definition Pool_Add :: "'o poolObj \<Rightarrow> 'o \<Rightarrow> 'o pool \<Rightarrow> nat \<times> (hash \<times> 'o) list \<times> 'o pool" where
  "Pool_Add ops obj p =
    (let poolKey = obj_PoolKey ops obj;
         objListKeyed = AList.update (obj_Hash ops obj) obj (objs_at poolKey p)
     in (length objListKeyed, map (\<lambda>(k, v). (k, obj_DeepCopy ops v)) objListKeyed,
         AList.update poolKey objListKeyed p))"

definition Pool_Get :: "'o poolObj \<Rightarrow> 'o pool \<Rightarrow> 'o pool" where
  "Pool_Get ops p = map (\<lambda>(k1, v1). (k1, map (\<lambda>(k2, v2). (k2, obj_DeepCopy ops v2)) v1)) p"

definition Pool_Size :: "string \<Rightarrow> 'o pool \<Rightarrow> nat" where
  "Pool_Size poolKey p = length (objs_at poolKey p)"

definition PoolObjKeysList :: "'o pool \<Rightarrow> string list" where
  "PoolObjKeysList p = map fst p"

definition ClearByPoolKey :: "string \<Rightarrow> 'o pool \<Rightarrow> 'o pool" where
  "ClearByPoolKey poolKey p = AList.delete poolKey p"

definition ClearPoolKeyByObj :: "'o poolObj \<Rightarrow> 'o \<Rightarrow> 'o pool \<Rightarrow> 'o pool" where
  "ClearPoolKeyByObj ops obj p = AList.delete (obj_PoolKey ops obj) p"

definition Pool_Clear :: "'o pool \<Rightarrow> 'o pool" where
  "Pool_Clear p = []"

definition GetObjsByKey :: "'o poolObj \<Rightarrow> string \<Rightarrow> 'o pool \<Rightarrow> 'o list" where
  "GetObjsByKey ops poolKey p = map (obj_DeepCopy ops \<circ> snd) (objs_at poolKey p)"

section \<open>Cleaning old rounds\<close>

text \<open>\<open>strings.Split(k, ":")[0]\<close> and \<open>strconv.ParseInt(s, 10, 64)\<close>\<close>

definition before_colon :: "string \<Rightarrow> string" where
  "before_colon k = takeWhile (\<lambda>c. c \<noteq> CHR '':'') k"

definition digit_value :: "char \<Rightarrow> nat option" where
  "digit_value c = (let n = of_char c in if 48 \<le> n \<and> n \<le> 57 then Some (n - 48) else None)"

fun parse_digits :: "nat \<Rightarrow> string \<Rightarrow> nat option" where
  "parse_digits n [] = Some n"
| "parse_digits n (c # cs) = (case digit_value c of None \<Rightarrow> None | Some d \<Rightarrow> parse_digits (10 * n + d) cs)"

definition ParseInt :: "string \<Rightarrow> int option" where
  "ParseInt s =
    (let neg = (s \<noteq> [] \<and> hd s = CHR ''-'');
         digits = (if s \<noteq> [] \<and> (hd s = CHR ''-'' \<or> hd s = CHR ''+'') then tl s else s)
     in if digits = [] then None else case parse_digits 0 digits of
          None \<Rightarrow> None
        | Some n \<Rightarrow> if neg then (if n \<le> 2 ^ 63 then Some (- int n) else None)
            else (if n < 2 ^ 63 then Some (int n) else None))"

definition PoolHygieneRound :: int where
  "PoolHygieneRound = 10"

text \<open>
  \<open>hygieneVotePool\<close> and \<open>hygieneTimeoutPool\<close>; \<open>int64(round) - 10\<close> is arithmetic of \<open>int64\<close>.
\<close>

definition hygiene_step :: "Round \<Rightarrow> string \<Rightarrow> 'o pool \<Rightarrow> 'o pool" where
  "hygiene_step round k p = (case ParseInt (before_colon k) of
      None \<Rightarrow> p
    | Some keyedRound \<Rightarrow> if keyedRound < sint (round - of_int PoolHygieneRound) then ClearByPoolKey k p else p)"

definition hygienePool :: "Round \<Rightarrow> 'o pool \<Rightarrow> 'o pool" where
  "hygienePool round p = fold (hygiene_step round) (PoolObjKeysList p) p"

section \<open>The two pools of the engine\<close>

definition voteObj :: "(bytes \<Rightarrow> hash) \<Rightarrow> Vote poolObj" where
  "voteObj keccak = \<lparr>obj_PoolKey = Vote_PoolKey, obj_Hash = Vote_Hash keccak, obj_DeepCopy = Vote_DeepCopy\<rparr>"

definition timeoutObj :: "(bytes \<Rightarrow> hash) \<Rightarrow> Timeout poolObj" where
  "timeoutObj keccak = \<lparr>obj_PoolKey = Timeout_PoolKey, obj_Hash = Timeout_Hash keccak,
     obj_DeepCopy = Timeout_DeepCopy\<rparr>"

end
