(* ===== verification/Signers.thy ===== *)
theory Signers
  imports Types_V2 "HOL-Library.Multiset"
begin

text \<open>
  Lists of masternodes and the signatures on messages: the helpers of \<open>consensus/XDPoS/utils/utils.go\<close>
  and \<open>common/types.go\<close>, and the signature checks of \<open>engine_v2/utils.go\<close>.

  What a call gets from outside the repository is the record \<open>env\<close>: the hash function, the public key
  recovery of secp256k1, the clock, the outcome of writing to the database, the depth the stack
  allows a recursion, and the order in which goroutines finish and maps are ranged over.
\<close>

section \<open>The environment of a call\<close>

record env =
  keccak :: "bytes \<Rightarrow> hash"
  Ecrecover :: "hash \<Rightarrow> bytes \<Rightarrow> err + bytes"
  now :: u64
  db_error :: "err option"
  depth :: nat
  sched :: "nat \<Rightarrow> nat list"
  newRound_ready :: bool

text \<open>The order of a range over a map, or of goroutines: some permutation of the elements.\<close>

definition go_range :: "env \<Rightarrow> 'a list \<Rightarrow> 'a list" where
  "go_range ev xs =
    (let p = sched ev (length xs) in
     if length p = length xs \<and> distinct p \<and> (\<forall>i \<in> set p. i < length xs) then map ((!) xs) p else xs)"

lemma mset_go_range [simp]: "mset (go_range ev xs) = mset xs"
proof -
  have "mset (map ((!) xs) p) = mset xs"
    if p: "length p = length xs" "distinct p" "\<forall>i \<in> set p. i < length xs" for p
  proof -
    have "set p = {..<length xs}"
    proof (rule card_subset_eq)
      show "set p \<subseteq> {..<length xs}" using p(3) by auto
      show "card (set p) = card {..<length xs}" using p(1,2) by (simp add: distinct_card)
    qed simp
    then have "mset p = mset [0..<length xs]"
      using p(2) by (metis atLeast_upt distinct_upt set_eq_iff_mset_eq_distinct)
    then have "mset (map ((!) xs) p) = mset (map ((!) xs) [0..<length xs])" by (simp only: mset_map)
    then show ?thesis by (simp add: map_nth)
  qed
  then show ?thesis by (simp add: go_range_def Let_def)
qed

lemma set_go_range [simp]: "set (go_range ev xs) = set xs"
  by (metis mset_go_range set_mset_mset)

lemma length_go_range [simp]: "length (go_range ev xs) = length xs"
  by (metis mset_go_range size_mset)

section \<open>Lists of addresses\<close>

fun Position_from :: "int \<Rightarrow> address list \<Rightarrow> address \<Rightarrow> int" where
  "Position_from i [] x = -1"
| "Position_from i (item # list) x = (if item = x then i else Position_from (i + 1) list x)"

definition Position :: "address list \<Rightarrow> address \<Rightarrow> int" where
  "Position list x = Position_from 0 list x"

definition Hop :: "int \<Rightarrow> int \<Rightarrow> int \<Rightarrow> int" where
  "Hop len preIndex curIndex =
    (if preIndex < curIndex then curIndex - (preIndex + 1)
     else if preIndex > curIndex then (len - preIndex) + (curIndex - 1)
     else len - 1)"

definition CompareSignersLists :: "address list \<Rightarrow> address list \<Rightarrow> bool" where
  "CompareSignersLists list1 list2 =
    (if length list1 \<noteq> length list2 then False
     else if length list1 = 0 then True
     else sort list1 = sort list2)"

text \<open>The two nested loops of \<open>RemoveItemFromArray\<close>, the inner one from the end.\<close>

fun remove_down :: "nat \<Rightarrow> address \<Rightarrow> address list \<Rightarrow> address list" where
  "remove_down 0 item arr = arr"
| "remove_down (Suc i) item arr =
     remove_down i item (if arr ! i = item then take i arr @ drop (Suc i) arr else arr)"

definition RemoveItemFromArray :: "address list \<Rightarrow> address list \<Rightarrow> address list" where
  "RemoveItemFromArray arr items = fold (\<lambda>item arr. remove_down (length arr) item arr) items arr"

definition AddressLength :: nat where
  "AddressLength = 20"

text \<open>\<open>copy(addr[:], b)\<close> on a zero address fills as many bytes as there are.\<close>

definition address_of :: "bytes \<Rightarrow> address" where
  "address_of b = word_of_bytes (take AddressLength (b @ replicate AddressLength 0))"

definition ExtractAddressFromBytes :: "bytes \<Rightarrow> address list" where
  "ExtractAddressFromBytes rawBytes =
    (if length rawBytes < AddressLength then []
     else map (\<lambda>i. address_of (drop (i * AddressLength) rawBytes)) [0..<length rawBytes div AddressLength])"

definition ExtractAddressToBytes :: "address list \<Rightarrow> bytes" where
  "ExtractAddressToBytes penalties = fold (\<lambda>signer data. data @ bytes_of_word AddressLength signer) penalties []"

definition GetMasternodesFromEpochSwitchHeader :: "Header \<Rightarrow> address list" where
  "GetMasternodesFromEpochSwitchHeader h =
     map (\<lambda>i. address_of (drop (i * AddressLength) (h_Validators h))) [0..<length (h_Validators h) div AddressLength]"

definition ExtraVanity :: nat where "ExtraVanity = 32"
definition ExtraSeal :: nat where "ExtraSeal = 65"

definition decodeMasternodesFromHeaderExtra :: "Header \<Rightarrow> address list" where
  "decodeMasternodesFromHeaderExtra h =
    (let minRequiredLen = ExtraVanity + ExtraSeal; payload = length (h_Extra h) - minRequiredLen in
     if length (h_Extra h) < minRequiredLen then []
     else if payload mod AddressLength \<noteq> 0 then []
     else map (\<lambda>i. address_of (drop (ExtraVanity + i * AddressLength) (h_Extra h))) [0..<payload div AddressLength])"

section \<open>Signatures\<close>

definition secp256k1halfN :: nat where
  "secp256k1halfN = 0x7FFFFFFFFFFFFFFFFFFFFFFFFFFFFFFF5D576E7357A4501DDFE92F46681B20A0"

definition hasLowS :: "Signature \<Rightarrow> bool" where
  "hasLowS signature =
    (if length signature \<noteq> 65 then False
     else nat_of_be (take 32 (drop 32 signature)) \<le> secp256k1halfN)"

text \<open>\<open>crypto.Keccak256(pubkey[1:])[12:]\<close>\<close>

definition pubkey_address :: "env \<Rightarrow> bytes \<Rightarrow> address" where
  "pubkey_address ev pubkey = ucast (keccak ev (drop 1 pubkey))"

definition verifyMsgSignature :: "env \<Rightarrow> hash \<Rightarrow> Signature \<Rightarrow> address list \<Rightarrow> err + bool \<times> address" where
  "verifyMsgSignature ev signedHash signature masternodes =
    (if masternodes = [] then Inl (Errorf ''empty masternode list detected when verifying message signatures'')
     else case Ecrecover ev signedHash signature of
       Inl e \<Rightarrow> Inl (Wrap ''error while verifying message'' e)
     | Inr pubkey \<Rightarrow> let signerAddress = pubkey_address ev pubkey in
         if signerAddress \<in> set masternodes then
           if \<not> hasLowS signature then Inl ErrInvalidSignature else Inr (True, signerAddress)
         else Inr (False, signerAddress))"

text \<open>One goroutine of \<open>RecoverUniqueSigners\<close>.\<close>

definition recover_signer :: "env \<Rightarrow> hash \<Rightarrow> Signature \<Rightarrow> err + address" where
  "recover_signer ev signedHash signature = (case Ecrecover ev signedHash signature of
      Inl e \<Rightarrow> Inl e
    | Inr pubkey \<Rightarrow> if \<not> hasLowS signature then Inl ErrInvalidSignature else Inr (pubkey_address ev pubkey))"

fun split_unique :: "address set \<Rightarrow> (Signature \<times> address) list \<Rightarrow> Signature list \<times> Signature list" where
  "split_unique seen [] = ([], [])"
| "split_unique seen ((sig, a) # rest) =
     (if a \<in> seen then apsnd ((#) sig) (split_unique seen rest)
      else apfst ((#) sig) (split_unique (insert a seen) rest))"

fun results_of :: "('a \<times> ('e + 'b)) list \<Rightarrow> 'e list \<times> ('a \<times> 'b) list" where
  "results_of [] = ([], [])"
| "results_of ((a, Inl e) # rest) = apfst ((#) e) (results_of rest)"
| "results_of ((a, Inr b) # rest) = apsnd ((#) (a, b)) (results_of rest)"

definition RecoverUniqueSigners :: "env \<Rightarrow> hash \<Rightarrow> Signature list \<Rightarrow> err + Signature list \<times> Signature list" where
  "RecoverUniqueSigners ev signedHash signatureList =
    (if signedHash = 0 then Inl (Errorf ''signedHash cannot be empty'')
     else if signatureList = [] then Inr ([], [])
     else case results_of (map (\<lambda>sig. (sig, recover_signer ev signedHash sig)) (go_range ev signatureList)) of
       (e # _, _) \<Rightarrow> Inl e
     | ([], msgs) \<Rightarrow> Inr (split_unique {} msgs))"

text \<open>
  \<open>verifyAllSignatures\<close>: the goroutines fill their own slot of the result, so their order does not
  matter; the loop afterwards keeps the first signature of each signer.
\<close>

definition verify_slot :: "env \<Rightarrow> hash \<Rightarrow> address list \<Rightarrow> Signature \<Rightarrow> err + address" where
  "verify_slot ev messageHash candidates signature =
    (case verifyMsgSignature ev messageHash signature candidates of
       Inl e \<Rightarrow> Inl (Wrap ''verify sig'' e)
     | Inr (verified, a) \<Rightarrow> if \<not> verified then Inl (Errorf ''verify sig: signer not in masternodes'') else Inr a)"

fun collect_valid :: "address set \<Rightarrow> address set \<Rightarrow> (Signature \<times> (err + address)) list \<Rightarrow>
    Signature list \<times> address list \<times> address list" where
  "collect_valid seen dupSeen [] = ([], [], [])"
| "collect_valid seen dupSeen ((sig, Inl e) # rest) = collect_valid seen dupSeen rest"
| "collect_valid seen dupSeen ((sig, Inr a) # rest) =
     (if a \<in> seen then
        if a \<in> dupSeen then collect_valid seen dupSeen rest
        else (case collect_valid seen (insert a dupSeen) rest of (vs, ss, ds) \<Rightarrow> (vs, ss, a # ds))
      else (case collect_valid (insert a seen) dupSeen rest of (vs, ss, ds) \<Rightarrow> (sig # vs, a # ss, ds)))"

definition verifyAllSignatures :: "env \<Rightarrow> hash \<Rightarrow> Signature list \<Rightarrow> address list \<Rightarrow>
    (Signature list \<times> address list \<times> address list) \<times> err list" where
  "verifyAllSignatures ev messageHash sigs candidates =
    (let slots = map (\<lambda>sig. (sig, verify_slot ev messageHash candidates sig)) sigs in
     (collect_valid {} {} slots, fst (results_of slots)))"

end
