(* ===== verification/Engine.thy ===== *)
theory Engine
  imports Lru Forks Pool Signers
begin

text \<open>
  The state of the consensus engine, \<open>XDPoS_v2\<close> of \<open>engine_v2/engine.go\<close>, the chain it reads, and the
  small methods everything else uses.  A method is an \<open>action\<close> on the engine; \<open>x.lock\<close> is held by
  every entry point for the whole call, so a method sees no interference from the others.

  Channels are lists of what has been sent on them.  \<open>go f()\<close> for a send is the send itself; the
  goroutine that keeps the forensic record runs where it is started.  \<open>Epoch\<close> is not 0, as the
  validation of the configuration requires (\<open>uint64\<close> division by 0 is a panic the model does not
  have).
\<close>

section \<open>The chain\<close>

text \<open>\<open>consensus.ChainReader\<close>, with the \<open>HasBlock\<close> of \<open>BlockStorer\<close>.\<close>

record chain =
  GetHeaderByHash :: "hash \<Rightarrow> Header option"
  GetHeaderByNumber :: "u64 \<Rightarrow> Header option"
  GetHeader :: "hash \<Rightarrow> u64 \<Rightarrow> Header option"
  CurrentHeader :: "Header option"
  HasBlock :: "hash \<Rightarrow> u64 \<Rightarrow> bool"
  chain_Config :: ChainConfig

section \<open>The engine\<close>

record SnapshotV2 =
  sn_Number :: u64
  sn_Hash :: hash
  sn_NextEpochCandidates :: "address list"

datatype bft_msg = MVote Vote | MTimeout Timeout | MSyncInfo SyncInfo

text \<open>\<open>countdown.CountdownTimer\<close>: whether it runs, and the rounds it was last armed for.\<close>

record timer =
  tm_initilised :: bool
  tm_currentRound :: Round
  tm_highestRound :: Round

record engine =
  x_config :: XDPoSConfig
  x_db :: "(hash \<times> SnapshotV2) list"
  x_isInitilised :: bool
  x_whosTurn :: address
  x_snapshots :: "(hash, SnapshotV2) lru"
  x_signatures :: "(hash, address) lru"
  x_epochSwitches :: "(hash, EpochSwitchInfo) lru"
  x_verifiedHeaders :: "(hash, unit) lru"
  x_round2epochBlockInfo :: "(Round, BlockInfo) lru"
  x_signer :: address
  x_signFn :: "(hash \<Rightarrow> err + Signature) option"
  x_BroadcastCh :: "bft_msg list"
  x_minePeriodCh :: "int list"
  x_newRoundCh :: "Round list"
  x_timeoutWorker :: timer
  x_timeoutCount :: int
  x_timeoutPool :: "Timeout pool"
  x_votePool :: "Vote pool"
  x_currentRound :: Round
  x_highestSelfMinedRound :: Round
  x_highestVotedRound :: Round
  x_highestQuorumCert :: QuorumCert
  x_lockQuorumCert :: "QuorumCert option"
  x_highestTimeoutCert :: TimeoutCert
  x_highestCommitBlock :: "BlockInfo option"
  x_HookPenalty :: "(chain \<Rightarrow> int \<Rightarrow> hash \<Rightarrow> address list \<Rightarrow> err + address list) option"
  x_ForensicsQCs :: "QuorumCert list"
  x_votePoolCollectionTime :: "u64 option"

type_synonym 'a engineM = "(engine, err, 'a) action"

definition InMemorySnapshots :: int where "InMemorySnapshots = 128"
definition InMemoryEpochs :: int where "InMemoryEpochs = 5 * 900"
definition InMemoryRound2Epochs :: int where "InMemoryRound2Epochs = 65536"

text \<open>\<open>New\<close>, once the configuration has been validated.\<close>

definition New :: "XDPoSConfig \<Rightarrow> (hash \<times> SnapshotV2) list \<Rightarrow> engine" where
  "New config db = \<lparr>
     x_config = config\<lparr>cfg_V2 := BuildConfigIndex (cfg_V2 config)\<rparr>, x_db = db, x_isInitilised = False,
     x_whosTurn = 0, x_snapshots = NewBasicLRU InMemorySnapshots, x_signatures = NewBasicLRU InMemorySnapshots,
     x_epochSwitches = NewBasicLRU InMemoryEpochs, x_verifiedHeaders = NewBasicLRU InMemorySnapshots,
     x_round2epochBlockInfo = NewBasicLRU InMemoryRound2Epochs, x_signer = 0, x_signFn = None,
     x_BroadcastCh = [], x_minePeriodCh = [], x_newRoundCh = [],
     x_timeoutWorker = \<lparr>tm_initilised = False, tm_currentRound = 0, tm_highestRound = 0\<rparr>, x_timeoutCount = 0,
     x_timeoutPool = NewPool, x_votePool = NewPool, x_currentRound = 0, x_highestSelfMinedRound = 0,
     x_highestVotedRound = 0,
     x_highestQuorumCert = \<lparr>qc_Block = \<lparr>bi_Hash = 0, bi_Round = 0, bi_Number = 0\<rparr>, qc_Signatures = [], qc_GapNumber = 0\<rparr>,
     x_lockQuorumCert = None,
     x_highestTimeoutCert = \<lparr>tc_Round = 0, tc_Signatures = Some [], tc_GapNumber = 0\<rparr>,
     x_highestCommitBlock = None, x_HookPenalty = None, x_ForensicsQCs = [], x_votePoolCollectionTime = None\<rparr>"

section \<open>Accessors\<close>

text \<open>\<open>p.f\<close> for a pointer \<open>p\<close>: nil is a panic.\<close>

definition deref :: "'a option \<Rightarrow> 'a engineM" where
  "deref p = (case p of None \<Rightarrow> throwE NilPointer | Some a \<Rightarrow> returnE a)"

definition xEpoch :: "engine \<Rightarrow> u64" where "xEpoch x = Epoch (x_config x)"
definition xGap :: "engine \<Rightarrow> u64" where "xGap x = Gap (x_config x)"
definition xSwitchBlock :: "engine \<Rightarrow> int" where "xSwitchBlock x = SwitchBlock (cfg_V2 (x_config x))"
definition xSwitchEpoch :: "engine \<Rightarrow> u64" where "xSwitchEpoch x = SwitchEpoch (cfg_V2 (x_config x))"

text \<open>\<open>x.config.V2.Config(round)\<close>, about to be dereferenced.\<close>

definition configAt :: "Round \<Rightarrow> V2Config engineM" where
  "configAt round = bindE (getE (\<lambda>x. V2_Config round (cfg_V2 (x_config x)))) deref"

text \<open>
  The gap number of the epoch of a block number, as \<open>verifyQC\<close>, \<open>sendVote\<close>, \<open>sendTimeout\<close> and
  \<open>getSnapshot\<close> compute it.
\<close>

definition gapNumber_of :: "u64 \<Rightarrow> u64 \<Rightarrow> u64 \<Rightarrow> u64" where
  "gapNumber_of epoch gap number =
    (let gapNumber = number - number mod epoch in if gapNumber > gap then gapNumber - gap else 0)"

definition epochNum_of :: "engine \<Rightarrow> Round \<Rightarrow> u64" where
  "epochNum_of x round = xSwitchEpoch x + round div xEpoch x"

section \<open>Caches\<close>

definition snapshots_Get :: "hash \<Rightarrow> SnapshotV2 option engineM" where
  "snapshots_Get k = (\<lambda>x. case Get k (x_snapshots x) of (v, c) \<Rightarrow> (Inr v, x\<lparr>x_snapshots := c\<rparr>))"

definition snapshots_Add :: "hash \<Rightarrow> SnapshotV2 \<Rightarrow> unit engineM" where
  "snapshots_Add k v = putE (\<lambda>x. x\<lparr>x_snapshots := snd (Add k v (x_snapshots x))\<rparr>)"

definition epochSwitches_Get :: "hash \<Rightarrow> EpochSwitchInfo option engineM" where
  "epochSwitches_Get k = (\<lambda>x. case Get k (x_epochSwitches x) of (v, c) \<Rightarrow> (Inr v, x\<lparr>x_epochSwitches := c\<rparr>))"

definition epochSwitches_Add :: "hash \<Rightarrow> EpochSwitchInfo \<Rightarrow> unit engineM" where
  "epochSwitches_Add k v = putE (\<lambda>x. x\<lparr>x_epochSwitches := snd (Add k v (x_epochSwitches x))\<rparr>)"

definition verifiedHeaders_Get :: "hash \<Rightarrow> unit option engineM" where
  "verifiedHeaders_Get k = (\<lambda>x. case Get k (x_verifiedHeaders x) of (v, c) \<Rightarrow> (Inr v, x\<lparr>x_verifiedHeaders := c\<rparr>))"

definition verifiedHeaders_Add :: "hash \<Rightarrow> unit engineM" where
  "verifiedHeaders_Add k = putE (\<lambda>x. x\<lparr>x_verifiedHeaders := snd (Add k () (x_verifiedHeaders x))\<rparr>)"

definition round2epoch_Get :: "Round \<Rightarrow> BlockInfo option engineM" where
  "round2epoch_Get k = (\<lambda>x. case Get k (x_round2epochBlockInfo x) of (v, c) \<Rightarrow> (Inr v, x\<lparr>x_round2epochBlockInfo := c\<rparr>))"

definition round2epoch_Add :: "Round \<Rightarrow> BlockInfo \<Rightarrow> unit engineM" where
  "round2epoch_Add k v = putE (\<lambda>x. x\<lparr>x_round2epochBlockInfo := snd (Add k v (x_round2epochBlockInfo x))\<rparr>)"

definition signatures_Get :: "hash \<Rightarrow> address option engineM" where
  "signatures_Get k = (\<lambda>x. case Get k (x_signatures x) of (v, c) \<Rightarrow> (Inr v, x\<lparr>x_signatures := c\<rparr>))"

definition signatures_Add :: "hash \<Rightarrow> address \<Rightarrow> unit engineM" where
  "signatures_Add k v = putE (\<lambda>x. x\<lparr>x_signatures := snd (Add k v (x_signatures x))\<rparr>)"

section \<open>Small methods\<close>

text \<open>The certificate is the nil pointer for the last v1 block.\<close>

definition getExtraFields :: "Header \<Rightarrow> (QuorumCert option \<times> Round \<times> address list) engineM" where
  "getExtraFields h = bindE (getE xSwitchBlock) (\<lambda>sb.
     if h_Number h = sb then returnE (None, 0, decodeMasternodesFromHeaderExtra h)
     else case DecodeBytesExtraFields (h_Extra h) of
         Inl e \<Rightarrow> throwE e
       | Inr d \<Rightarrow> returnE (ex_QC d, ex_Round d, GetMasternodesFromEpochSwitchHeader h))"

definition GetRoundNumber :: "Header \<Rightarrow> Round engineM" where
  "GetRoundNumber h = bindE (getE xSwitchBlock) (\<lambda>sb.
     if h_Number h \<le> sb then returnE 0
     else case DecodeBytesExtraFields (h_Extra h) of Inl e \<Rightarrow> throwE e | Inr d \<Rightarrow> returnE (ex_Round d))"

definition signSignature :: "hash \<Rightarrow> Signature engineM" where
  "signSignature signingHash = bindE (getE x_signFn) (\<lambda>signFn. case signFn of
      None \<Rightarrow> throwE (Errorf ''signFn is nil'')
    | Some f \<Rightarrow> (case f signingHash of
          Inl e \<Rightarrow> throwE (Wrap ''error while signing hash'' e)
        | Inr sig \<Rightarrow> returnE sig))"

definition broadcastToBftChannel :: "bft_msg \<Rightarrow> unit engineM" where
  "broadcastToBftChannel msg = putE (\<lambda>x. x\<lparr>x_BroadcastCh := x_BroadcastCh x @ [msg]\<rparr>)"

definition getSyncInfo :: "engine \<Rightarrow> SyncInfo" where
  "getSyncInfo x = \<lparr>si_QC = Some (x_highestQuorumCert x), si_TC = Some (x_highestTimeoutCert x)\<rparr>"

definition Authorize :: "address \<Rightarrow> (hash \<Rightarrow> err + Signature) \<Rightarrow> engine \<Rightarrow> engine" where
  "Authorize signer signFn x = x\<lparr>x_signer := signer, x_signFn := Some signFn\<rparr>"

text \<open>\<open>ecrecover\<close>, and \<open>Author\<close>, which is a call of it.\<close>

definition ecrecover :: "env \<Rightarrow> Header \<Rightarrow> address engineM" where
  "ecrecover ev h = (let hsh = Header_Hash (keccak ev) h in
     bindE (signatures_Get hsh) (\<lambda>known. case known of
       Some a \<Rightarrow> returnE a
     | None \<Rightarrow> bindE (pureE (sigHash (keccak ev) h)) (\<lambda>sh.
         case Ecrecover ev sh (h_Validator h) of
           Inl e \<Rightarrow> throwE e
         | Inr pubkey \<Rightarrow> let signer = pubkey_address ev pubkey in
             bindE (signatures_Add hsh signer) (\<lambda>_. returnE signer))))"

text \<open>\<open>UpdateParams\<close>: a header whose extra does not decode selects the configuration of round 0.\<close>

definition UpdateParams :: "Header \<Rightarrow> unit engineM" where
  "UpdateParams h = bindE (tryE (getExtraFields h)) (\<lambda>r.
     let round = (case r of Inl _ \<Rightarrow> 0 | Inr (_, rd, _) \<Rightarrow> rd) in
     bindE (getE (\<lambda>x. UpdateConfig round (cfg_V2 (x_config x)))) (\<lambda>v2.
     bindE (deref v2) (\<lambda>v2.
     bindE (putE (\<lambda>x. x\<lparr>x_config := (x_config x)\<lparr>cfg_V2 := v2\<rparr>\<rparr>)) (\<lambda>_.
     putE (\<lambda>x. x\<lparr>x_minePeriodCh := x_minePeriodCh x @ [MinePeriod (CurrentConfig v2)]\<rparr>)))))"

end
