(* ===== verification/Snapshots.thy ===== *)
theory Snapshots
  imports Engine
begin

text \<open>
  The snapshots of candidates taken at gap blocks, \<open>engine_v2/snapshot.go\<close>.  The database is the
  association list \<open>x_db\<close>; a blob that is absent, unreadable or undecodable is a missing entry.
\<close>

definition NewSnapshot :: "u64 \<Rightarrow> hash \<Rightarrow> address list \<Rightarrow> SnapshotV2" where
  "NewSnapshot number h candidates = \<lparr>sn_Number = number, sn_Hash = h, sn_NextEpochCandidates = candidates\<rparr>"

definition loadSnapshot :: "hash \<Rightarrow> engine \<Rightarrow> SnapshotV2 option" where
  "loadSnapshot h x = map_of (x_db x) h"

definition StoreSnapshot :: "env \<Rightarrow> SnapshotV2 \<Rightarrow> unit engineM" where
  "StoreSnapshot ev s = (case db_error ev of
      Some e \<Rightarrow> throwE e
    | None \<Rightarrow> putE (\<lambda>x. x\<lparr>x_db := AList.update (sn_Hash s) s (x_db x)\<rparr>))"

definition IsCandidates :: "SnapshotV2 \<Rightarrow> address \<Rightarrow> bool" where
  "IsCandidates s a \<longleftrightarrow> a \<in> set (sn_NextEpochCandidates s)"

definition GetMappedCandidates :: "SnapshotV2 \<Rightarrow> address set" where
  "GetMappedCandidates s = set (sn_NextEpochCandidates s)"

text \<open>The gap block of the switch to v2, whose snapshot \<open>initial\<close> writes.\<close>

definition lastGapNum :: "engine \<Rightarrow> u64" where
  "lastGapNum x = (let sb = Uint64 (xSwitchBlock x) in if sb > xGap x then sb - xGap x else 0)"

definition rebuildBootstrapSnapshot :: "env \<Rightarrow> chain \<Rightarrow> u64 \<Rightarrow> hash \<Rightarrow> SnapshotV2 engineM" where
  "rebuildBootstrapSnapshot ev ch gapBlockNum gapBlockHash =
    bindE (getE (\<lambda>x. (lastGapNum x, Uint64 (xSwitchBlock x)))) (\<lambda>(lastGap, switchBlock).
    if gapBlockNum \<noteq> lastGap then throwE ErrNotBootstrapSnapshot else
    case GetHeaderByNumber ch switchBlock of
      None \<Rightarrow> throwE (Errorf ''missing v2 switch header'')
    | Some checkpointHeader \<Rightarrow>
        bindE (mapErrE (Wrap ''reading masternodes from v2 switch header'') (getExtraFields checkpointHeader))
          (\<lambda>(_, _, masternodes).
        if masternodes = [] then throwE (Errorf ''no masternodes at v2 switch block'') else
        let snap = NewSnapshot lastGap gapBlockHash masternodes in
        bindE (mapErrE (Wrap ''storing bootstrap snapshot'') (StoreSnapshot ev snap)) (\<lambda>_.
        bindE (snapshots_Add (sn_Hash snap) snap) (\<lambda>_. returnE snap))))"

definition gapBlockNum_of :: "u64 \<Rightarrow> bool \<Rightarrow> engine \<Rightarrow> u64" where
  "gapBlockNum_of number isGapNumber x =
    (if isGapNumber then number else gapNumber_of (xEpoch x) (xGap x) number)"

definition getSnapshot :: "env \<Rightarrow> chain \<Rightarrow> u64 \<Rightarrow> bool \<Rightarrow> SnapshotV2 engineM" where
  "getSnapshot ev ch number isGapNumber =
    bindE (getE (gapBlockNum_of number isGapNumber)) (\<lambda>gapBlockNum.
    case GetHeaderByNumber ch gapBlockNum of
      None \<Rightarrow> throwE (ErrMissingCanonicalGapHeader gapBlockNum)
    | Some gapHeader \<Rightarrow>
        let gapBlockHash = Header_Hash (keccak ev) gapHeader in
        bindE (snapshots_Get gapBlockHash) (\<lambda>cached. case cached of
          Some snap \<Rightarrow> returnE snap
        | None \<Rightarrow> bindE (getE (loadSnapshot gapBlockHash)) (\<lambda>loaded. case loaded of
            Some snap \<Rightarrow> bindE (snapshots_Add (sn_Hash snap) snap) (\<lambda>_. returnE snap)
          | None \<Rightarrow> bindE (tryE (rebuildBootstrapSnapshot ev ch gapBlockNum gapBlockHash)) (\<lambda>r. case r of
              Inr rebuilt \<Rightarrow> returnE rebuilt
            | Inl rerr \<Rightarrow> throwE (ErrGapSnapshotUnavailable gapBlockNum gapBlockHash
                (Errorf ''not found''))))))"

definition GetSnapshot :: "env \<Rightarrow> chain \<Rightarrow> Header \<Rightarrow> SnapshotV2 engineM" where
  "GetSnapshot ev ch h = getSnapshot ev ch (Uint64 (h_Number h)) False"

definition GetSignersFromSnapshot :: "env \<Rightarrow> chain \<Rightarrow> Header \<Rightarrow> address list engineM" where
  "GetSignersFromSnapshot ev ch h =
    bindE (getSnapshot ev ch (Uint64 (h_Number h)) False) (\<lambda>snap. returnE (sn_NextEpochCandidates snap))"

definition IsAuthorisedAddress :: "env \<Rightarrow> chain \<Rightarrow> Header \<Rightarrow> address \<Rightarrow> bool engineM" where
  "IsAuthorisedAddress ev ch h a = bindE (tryE (GetSnapshot ev ch h)) (\<lambda>r. returnE (case r of
      Inl _ \<Rightarrow> False
    | Inr snap \<Rightarrow> a \<in> set (sn_NextEpochCandidates snap)))"

text \<open>\<open>UpdateMasternodes\<close> with the addresses of the given masternodes.\<close>

definition UpdateMasternodes :: "env \<Rightarrow> Header \<Rightarrow> address list \<Rightarrow> unit engineM" where
  "UpdateMasternodes ev h ms = (let number = Uint64 (h_Number h) in
    bindE (getE (\<lambda>x. (xEpoch x, xGap x))) (\<lambda>(epoch, gap).
    if number mod epoch \<noteq> epoch - gap then throwE (Errorf ''[UpdateMasternodes] not gap block'') else
    let snap = NewSnapshot number (Header_Hash (keccak ev) h) ms in
    bindE (StoreSnapshot ev snap) (\<lambda>_. snapshots_Add (sn_Hash snap) snap)))"

definition CacheSnapshot :: "SnapshotV2 \<Rightarrow> unit engineM" where
  "CacheSnapshot snap = snapshots_Add (sn_Hash snap) snap"

definition repairGapCandidates :: "u64 \<Rightarrow> u64 \<Rightarrow> u64 \<Rightarrow> u64 list" where
  "repairGapCandidates epoch gap head =
    (if epoch = 0 \<or> gap = 0 \<or> gap \<ge> epoch then []
     else let off = epoch - gap in
       if head < off then []
       else let latest = head - (head - off) mod epoch in
         if latest < epoch then [latest] else [latest - epoch, latest])"

text \<open>
  One step of \<open>RepairGapSnapshots\<close>; \<open>build\<close> is \<open>BuildSnapshotFromState\<close> on the state of the gap block,
  with a state that cannot be opened among its errors.  A failure is only logged.
\<close>

definition repair_one :: "env \<Rightarrow> chain \<Rightarrow> (Header \<Rightarrow> u64 \<Rightarrow> hash \<Rightarrow> err + SnapshotV2) \<Rightarrow> u64 \<Rightarrow> unit engineM" where
  "repair_one ev ch build gapNum = bindE (getE (\<lambda>x. Uint64 (xSwitchBlock x))) (\<lambda>sb.
     if gapNum \<le> sb then returnE () else
     case GetHeaderByNumber ch gapNum of
       None \<Rightarrow> returnE ()
     | Some gapHeader \<Rightarrow> let gapHash = Header_Hash (keccak ev) gapHeader in
         bindE (getE (loadSnapshot gapHash)) (\<lambda>stored.
         if stored \<noteq> None then returnE () else
         case build gapHeader gapNum gapHash of
           Inl _ \<Rightarrow> returnE ()
         | Inr snap \<Rightarrow> bindE (tryE (StoreSnapshot ev snap)) (\<lambda>r. case r of
               Inl _ \<Rightarrow> returnE ()
             | Inr _ \<Rightarrow> snapshots_Add (sn_Hash snap) snap)))"

fun repair_all :: "env \<Rightarrow> chain \<Rightarrow> (Header \<Rightarrow> u64 \<Rightarrow> hash \<Rightarrow> err + SnapshotV2) \<Rightarrow> u64 list \<Rightarrow> unit engineM" where
  "repair_all ev ch build [] = returnE ()"
| "repair_all ev ch build (g # gs) = bindE (repair_one ev ch build g) (\<lambda>_. repair_all ev ch build gs)"

definition RepairGapSnapshots :: "env \<Rightarrow> chain \<Rightarrow> (Header \<Rightarrow> u64 \<Rightarrow> hash \<Rightarrow> err + SnapshotV2) \<Rightarrow> unit engineM" where
  "RepairGapSnapshots ev ch build = (case CurrentHeader ch of
      None \<Rightarrow> returnE ()
    | Some head \<Rightarrow> bindE (getE (\<lambda>x. repairGapCandidates (xEpoch x) (xGap x) (Uint64 (h_Number head))))
        (repair_all ev ch build))"

end
