(* ===== verification/Epochs.thy ===== *)
theory Epochs
  imports Snapshots
begin

text \<open>
  Epochs: which blocks switch to a new epoch, the masternodes of the epoch of a block, and the
  search for the switch block of an epoch (\<open>engine_v2/epochSwitch.go\<close> and \<open>engine_v2/utils.go\<close>).

  The recursion of \<open>getEpochSwitchInfo\<close> goes from a block to its parent until it meets an epoch
  switch; \<open>depth\<close> bounds it as the stack does.  The binary search has a fuel as well.  That enough
  of either is always there is a theorem of \<open>Epochs_Laws\<close>.
\<close>

section \<open>Epoch switches\<close>

definition IsEpochSwitch :: "env \<Rightarrow> Header \<Rightarrow> (bool \<times> u64) engineM" where
  "IsEpochSwitch ev h = bindE (getE (\<lambda>x. (xSwitchBlock x, xEpoch x))) (\<lambda>(sb, epoch).
     if h_Number h = sb then returnE (True, Uint64 (h_Number h) div epoch) else
     bindE (getExtraFields h) (\<lambda>(qcp, round, _).
     bindE (deref qcp) (\<lambda>quorumCert.
     bindE (getE (\<lambda>x. epochNum_of x round)) (\<lambda>epochNum.
     let parentRound = bi_Round (qc_Block quorumCert); epochStartRound = round - round mod epoch in
     if bi_Number (qc_Block quorumCert) = sb then returnE (True, epochNum) else
     bindE (if parentRound < epochStartRound then
         round2epoch_Add round \<lparr>bi_Hash = Header_Hash (keccak ev) h, bi_Round = round, bi_Number = h_Number h\<rparr>
       else returnE ()) (\<lambda>_.
     returnE (parentRound < epochStartRound, epochNum))))))"

definition isEpochSwitchAtRound :: "Round \<Rightarrow> Header \<Rightarrow> (bool \<times> u64) engineM" where
  "isEpochSwitchAtRound round parentHeader =
    bindE (getE (\<lambda>x. (xSwitchBlock x, xEpoch x, epochNum_of x round))) (\<lambda>(sb, epoch, epochNum).
    if h_Number parentHeader = sb then returnE (True, epochNum) else
    bindE (getExtraFields parentHeader) (\<lambda>(_, parentRound, _).
    if round \<le> parentRound then returnE (False, epochNum) else
    let epochStartRound = round - round mod epoch in
    returnE (parentRound < epochStartRound, epochNum)))"

section \<open>The masternodes of an epoch\<close>

text \<open>The standby nodes of a new epoch; a missing snapshot is tolerated.\<close>

definition standby_of :: "env \<Rightarrow> chain \<Rightarrow> Header \<Rightarrow> address list \<Rightarrow> address list \<Rightarrow> address list engineM" where
  "standby_of ev ch h masternodes penalties =
    bindE (tryE (getSnapshot ev ch (Uint64 (h_Number h)) False)) (\<lambda>r. returnE (case r of
      Inl _ \<Rightarrow> []
    | Inr snap \<Rightarrow> let candidates = sn_NextEpochCandidates snap in
        if length masternodes \<noteq> length candidates then
          RemoveItemFromArray (RemoveItemFromArray candidates masternodes) penalties
        else []))"

text \<open>The branch of \<open>getEpochSwitchInfo\<close> for a header that switches the epoch.\<close>

definition epochInfo_at_switch :: "env \<Rightarrow> chain \<Rightarrow> Header \<Rightarrow> hash \<Rightarrow> EpochSwitchInfo engineM" where
  "epochInfo_at_switch ev ch h hsh =
    (if h_Number h = 0 then
       if length (h_Extra h) < ExtraVanity + ExtraSeal then throwE IndexOutOfRange else
       let masternodes = ExtractAddressFromBytes (take (length (h_Extra h) - 65 - 32) (drop 32 (h_Extra h)));
           info = \<lparr>es_Penalties = [], es_Standbynodes = [], es_Masternodes = masternodes,
             es_MasternodesLen = length masternodes,
             es_Block = \<lparr>bi_Hash = hsh, bi_Round = 0, bi_Number = h_Number h\<rparr>, es_Parent = None\<rparr>
       in bindE (epochSwitches_Add hsh info) (\<lambda>_. returnE info)
     else
       bindE (getExtraFields h) (\<lambda>(quorumCert, round, masternodes).
       if masternodes = [] then throwE (Errorf ''masternodes list is empty at epoch switch block'') else
       let penalties = ExtractAddressFromBytes (h_Penalties h) in
       bindE (standby_of ev ch h masternodes penalties) (\<lambda>standbynodes.
       let info = \<lparr>es_Penalties = penalties, es_Standbynodes = standbynodes, es_Masternodes = masternodes,
             es_MasternodesLen = length masternodes,
             es_Block = \<lparr>bi_Hash = hsh, bi_Round = round, bi_Number = h_Number h\<rparr>,
             es_Parent = (case quorumCert of None \<Rightarrow> None | Some qc \<Rightarrow> Some (qc_Block qc))\<rparr>
       in bindE (epochSwitches_Add hsh info) (\<lambda>_. returnE info))))"

text \<open>
  \<open>headers\<close> holds the header asked for as its last element and its ancestors before it, or is empty.
\<close>

definition header_for :: "env \<Rightarrow> chain \<Rightarrow> Header list \<Rightarrow> hash \<Rightarrow> Header engineM" where
  "header_for ev ch headers hsh =
    (if headers = [] then (case GetHeaderByHash ch hsh of
         None \<Rightarrow> throwE (Errorf ''[getEpochSwitchInfo] can not find header from db hash'')
       | Some h \<Rightarrow> returnE h)
     else if Header_Hash (keccak ev) (last headers) \<noteq> hsh then
       throwE (Errorf ''[getEpochSwitchInfo] header hash not match'')
     else returnE (last headers))"

fun epochInfo_rec :: "nat \<Rightarrow> env \<Rightarrow> chain \<Rightarrow> Header list \<Rightarrow> hash \<Rightarrow> EpochSwitchInfo engineM" where
  "epochInfo_rec 0 ev ch headers hsh = throwE StackOverflow"
| "epochInfo_rec (Suc n) ev ch headers hsh =
     bindE (epochSwitches_Get hsh) (\<lambda>cached. case cached of
       Some info \<Rightarrow> returnE info
     | None \<Rightarrow>
         bindE (header_for ev ch headers hsh) (\<lambda>h.
         bindE (IsEpochSwitch ev h) (\<lambda>(isEpochSwitch, _).
         if isEpochSwitch then epochInfo_at_switch ev ch h hsh
         else bindE (epochInfo_rec n ev ch (butlast headers) (h_ParentHash h)) (\<lambda>info.
           bindE (epochSwitches_Add hsh info) (\<lambda>_. returnE info)))))"

definition getEpochSwitchInfo :: "env \<Rightarrow> chain \<Rightarrow> Header list \<Rightarrow> hash \<Rightarrow> EpochSwitchInfo engineM" where
  "getEpochSwitchInfo ev ch headers hsh = epochInfo_rec (depth ev) ev ch headers hsh"

text \<open>
  \<open>getEpochSwitchInfo(chain, []*types.Header{h}, h.Hash())\<close> for a header that may be nil: the hash of
  the nil pointer is the hash of the empty list, and a list with a nil header counts as empty.
\<close>

definition Header_ptr_Hash :: "(bytes \<Rightarrow> hash) \<Rightarrow> Header option \<Rightarrow> hash" where
  "Header_ptr_Hash kc hp = (case hp of None \<Rightarrow> kc [0xC0] | Some h \<Rightarrow> Header_Hash kc h)"

definition epochInfo_of :: "env \<Rightarrow> chain \<Rightarrow> Header option \<Rightarrow> EpochSwitchInfo engineM" where
  "epochInfo_of ev ch hp = getEpochSwitchInfo ev ch (case hp of None \<Rightarrow> [] | Some h \<Rightarrow> [h]) (Header_ptr_Hash (keccak ev) hp)"

text \<open>The getters that answer with an empty list on an error.\<close>

definition epochInfo_or_empty :: "env \<Rightarrow> chain \<Rightarrow> (EpochSwitchInfo \<Rightarrow> address list) \<Rightarrow> Header option \<Rightarrow> address list engineM" where
  "epochInfo_or_empty ev ch f hp = bindE (tryE (epochInfo_of ev ch hp)) (\<lambda>r.
    returnE (case r of Inl _ \<Rightarrow> [] | Inr info \<Rightarrow> f info))"

definition GetMasternodes :: "env \<Rightarrow> chain \<Rightarrow> Header option \<Rightarrow> address list engineM" where
  "GetMasternodes ev ch hp = epochInfo_or_empty ev ch es_Masternodes hp"

definition GetPenalties :: "env \<Rightarrow> chain \<Rightarrow> Header option \<Rightarrow> address list engineM" where
  "GetPenalties ev ch hp = epochInfo_or_empty ev ch es_Penalties hp"

definition GetStandbynodes :: "env \<Rightarrow> chain \<Rightarrow> Header option \<Rightarrow> address list engineM" where
  "GetStandbynodes ev ch hp = epochInfo_or_empty ev ch es_Standbynodes hp"

definition GetMasternodesByHash :: "env \<Rightarrow> chain \<Rightarrow> hash \<Rightarrow> address list engineM" where
  "GetMasternodesByHash ev ch hsh = bindE (tryE (getEpochSwitchInfo ev ch [] hsh)) (\<lambda>r.
     returnE (case r of Inl _ \<Rightarrow> [] | Inr info \<Rightarrow> es_Masternodes info))"

text \<open>The error branch logs the number of the header, which is a panic for the nil header.\<close>

definition GetCurrentEpochSwitchBlock :: "env \<Rightarrow> chain \<Rightarrow> int \<Rightarrow> (u64 \<times> u64) engineM" where
  "GetCurrentEpochSwitchBlock ev ch blockNum = (let hp = GetHeaderByNumber ch (Uint64 blockNum) in
    bindE (tryE (epochInfo_of ev ch hp)) (\<lambda>r. case r of
      Inl e \<Rightarrow> bindE (deref hp) (\<lambda>_. throwE e)
    | Inr info \<Rightarrow> bindE (getE (\<lambda>x. epochNum_of x (bi_Round (es_Block info)))) (\<lambda>epochNum.
        returnE (Uint64 (bi_Number (es_Block info)), epochNum))))"

definition allowedToSend :: "env \<Rightarrow> chain \<Rightarrow> Header option \<Rightarrow> bool engineM" where
  "allowedToSend ev ch blockHeader = bindE (getE x_signer) (\<lambda>signer.
     bindE (GetMasternodes ev ch blockHeader) (\<lambda>masterNodes. returnE (signer \<in> set masterNodes)))"

section \<open>Search for an epoch\<close>

text \<open>
  One probe of the binary search gives either the switch block or the next interval; \<open>None\<close> is the
  \<open>break\<close>.
\<close>

definition search_probe :: "env \<Rightarrow> u64 \<Rightarrow> u64 \<Rightarrow> u64 \<Rightarrow> Header \<Rightarrow>
    (BlockInfo \<times> Header + (u64 \<times> u64) option) engineM" where
  "search_probe ev targetEpochNum start end h =
    bindE (IsEpochSwitch ev h) (\<lambda>(isEpochSwitch, epochNum).
    if epochNum = targetEpochNum then
      bindE (getExtraFields h) (\<lambda>(_, round, _).
      if isEpochSwitch then
        returnE (Inl (\<lparr>bi_Hash = Header_Hash (keccak ev) h, bi_Round = round, bi_Number = h_Number h\<rparr>, h))
      else bindE (getE xEpoch) (\<lambda>epoch.
        let end' = Uint64 (h_Number h); roundModEpoch = round mod epoch;
            estStart = (if end' \<ge> roundModEpoch then end' - roundModEpoch else 0)
        in returnE (Inr (Some (if start < estStart then estStart else start, end')))))
    else if epochNum > targetEpochNum then returnE (Inr (Some (start, Uint64 (h_Number h))))
    else let nextStart = Uint64 (h_Number h) in
      if nextStart = start then returnE (Inr None) else returnE (Inr (Some (nextStart, end))))"

fun binarySearch :: "nat \<Rightarrow> env \<Rightarrow> chain \<Rightarrow> u64 \<Rightarrow> u64 \<Rightarrow> u64 \<Rightarrow> (BlockInfo \<times> Header) engineM" where
  "binarySearch 0 ev ch targetEpochNum start end = throwE StackOverflow"
| "binarySearch (Suc n) ev ch targetEpochNum start end =
     (if start < end then
        case GetHeaderByNumber ch ((start + end) div 2) of
          None \<Rightarrow> throwE (Errorf ''header nil in binary search'')
        | Some h \<Rightarrow> bindE (search_probe ev targetEpochNum start end h) (\<lambda>r. case r of
            Inl found \<Rightarrow> returnE found
          | Inr None \<Rightarrow> throwE (Errorf ''no epoch switch header in binary search'')
          | Inr (Some (start', end')) \<Rightarrow> binarySearch n ev ch targetEpochNum start' end')
      else throwE (Errorf ''no epoch switch header in binary search''))"

text \<open>The interval shrinks with each probe, so its length is enough fuel.\<close>

definition binarySearchBlockByEpochNumber :: "env \<Rightarrow> chain \<Rightarrow> u64 \<Rightarrow> u64 \<Rightarrow> u64 \<Rightarrow> (BlockInfo \<times> Header) engineM" where
  "binarySearchBlockByEpochNumber ev ch targetEpochNum start end =
     binarySearch (Suc (unat end - unat start)) ev ch targetEpochNum start end"

fun cached_rounds :: "Round \<Rightarrow> nat \<Rightarrow> BlockInfo list engineM" where
  "cached_rounds r 0 = returnE []"
| "cached_rounds r (Suc n) = bindE (round2epoch_Get r) (\<lambda>b.
     bindE (cached_rounds (r + 1) n) (\<lambda>bs. returnE (case b of None \<Rightarrow> bs | Some blk \<Rightarrow> blk # bs)))"

fun first_canonical :: "env \<Rightarrow> chain \<Rightarrow> BlockInfo list \<Rightarrow> BlockInfo option" where
  "first_canonical ev ch [] = None"
| "first_canonical ev ch (b # bs) = (case GetHeaderByNumber ch (Uint64 (bi_Number b)) of
      None \<Rightarrow> first_canonical ev ch bs
    | Some h \<Rightarrow> if Header_Hash (keccak ev) h = bi_Hash b then Some b else first_canonical ev ch bs)"

text \<open>The loop runs from \<open>estRound\<close> while \<open>r < estRound + Epoch\<close>; a sum that wraps around makes it empty.\<close>

definition getBlockByEpochNumberInCache :: "env \<Rightarrow> chain \<Rightarrow> Round \<Rightarrow> BlockInfo option engineM" where
  "getBlockByEpochNumberInCache ev ch estRound = bindE (getE xEpoch) (\<lambda>epoch.
     bindE (cached_rounds estRound (if estRound < estRound + epoch then unat epoch else 0)) (\<lambda>bs.
     returnE (case bs of [] \<Rightarrow> None | [b] \<Rightarrow> Some b | _ \<Rightarrow> first_canonical ev ch bs)))"

fun infos_between :: "nat \<Rightarrow> env \<Rightarrow> chain \<Rightarrow> int \<Rightarrow> Header list \<Rightarrow> hash \<Rightarrow> int \<Rightarrow> EpochSwitchInfo list \<Rightarrow>
    EpochSwitchInfo list engineM" where
  "infos_between 0 ev ch beginNum headers iteratorHash iteratorNum infos = throwE StackOverflow"
| "infos_between (Suc n) ev ch beginNum headers iteratorHash iteratorNum infos =
     (if iteratorNum > beginNum then
        bindE (getEpochSwitchInfo ev ch headers iteratorHash) (\<lambda>info. case es_Parent info of
          None \<Rightarrow> returnE infos
        | Some parent \<Rightarrow> let num = bi_Number (es_Block info) in
            infos_between n ev ch beginNum [] (bi_Hash parent) num
              (if num \<ge> beginNum then infos @ [info] else infos))
      else returnE infos)"

text \<open>
  The list \<open>[nil]\<close> that the second iteration passes as headers holds the nil header, which
  \<open>getEpochSwitchInfo\<close> treats as no header.
\<close>

definition GetEpochSwitchInfoBetween :: "env \<Rightarrow> chain \<Rightarrow> Header \<Rightarrow> Header \<Rightarrow> EpochSwitchInfo list engineM" where
  "GetEpochSwitchInfoBetween ev ch beginH endH =
    bindE (infos_between (depth ev) ev ch (h_Number beginH) [endH] (Header_Hash (keccak ev) endH) (h_Number endH) [])
      (\<lambda>infos. returnE (rev infos))"

definition GetBlockByEpochNumber :: "env \<Rightarrow> chain \<Rightarrow> u64 \<Rightarrow> BlockInfo engineM" where
  "GetBlockByEpochNumber ev ch targetEpochNum = (case CurrentHeader ch of
      None \<Rightarrow> throwE (Errorf ''current header is nil'')
    | Some currentHeader \<Rightarrow>
      bindE (epochInfo_of ev ch (Some currentHeader)) (\<lambda>info.
      bindE (getE (\<lambda>x. (epochNum_of x (bi_Round (es_Block info)), xSwitchEpoch x, xEpoch x, xSwitchBlock x)))
        (\<lambda>(epochNum, switchEpoch, epoch, switchBlock).
      if targetEpochNum = epochNum then returnE (es_Block info)
      else if targetEpochNum > epochNum then throwE (Errorf ''input epoch number > current epoch number'')
      else if targetEpochNum < switchEpoch then throwE (Errorf ''input epoch number < v2 begin epoch number'')
      else
        let estRound = (targetEpochNum - switchEpoch) * epoch in
        bindE (getBlockByEpochNumberInCache ev ch estRound) (\<lambda>hit. case hit of
          Some blockInfo \<Rightarrow> returnE blockInfo
        | None \<Rightarrow>
          let estBlockNum0 = bi_Number (es_Block info) - sint epoch * sint (epochNum - targetEpochNum);
              estBlockNum = (if estBlockNum0 < switchBlock then switchBlock else estBlockNum0)
          in bindE (if 2 \<ge> epochNum - targetEpochNum then
                 (case GetHeaderByNumber ch (Uint64 estBlockNum) of
                    None \<Rightarrow> throwE (Errorf ''fail to get est block header by number'')
                  | Some estBlockHeader \<Rightarrow>
                      bindE (GetEpochSwitchInfoBetween ev ch estBlockHeader currentHeader) (\<lambda>infos.
                      bindE (getE epochNum_of) (\<lambda>num.
                      returnE (List.find (\<lambda>i. num (bi_Round (es_Block i)) = targetEpochNum) infos))))
               else returnE None) (\<lambda>found. case found of
            Some i \<Rightarrow> returnE (es_Block i)
          | None \<Rightarrow> bindE (binarySearchBlockByEpochNumber ev ch targetEpochNum (Uint64 estBlockNum)
                (Uint64 (bi_Number (es_Block info)))) (\<lambda>(b, _). returnE b))))))"

definition GetPreviousPenaltyByHash :: "env \<Rightarrow> chain \<Rightarrow> hash \<Rightarrow> nat \<Rightarrow> address list engineM" where
  "GetPreviousPenaltyByHash ev ch hsh limit =
    bindE (tryE (getEpochSwitchInfo ev ch [] hsh)) (\<lambda>r. case r of
      Inl _ \<Rightarrow> returnE []
    | Inr info \<Rightarrow> if limit = 0 then returnE (es_Penalties info) else
        bindE (getE (\<lambda>x. (epochNum_of x (bi_Round (es_Block info)), xEpoch x))) (\<lambda>(epochNum, epoch).
        if epochNum < of_nat limit then returnE [] else
        bindE (deref (es_Parent info)) (\<lambda>parent.
        bindE (tryE (binarySearchBlockByEpochNumber ev ch (epochNum - of_nat limit)
            (Uint64 (bi_Number (es_Block info)) - epoch * of_nat limit) (Uint64 (bi_Number parent)))) (\<lambda>r.
        returnE (case r of Inl _ \<Rightarrow> [] | Inr (_, h) \<Rightarrow> ExtractAddressFromBytes (h_Penalties h))))))"

end
