(* ===== verification/Certificates.thy ===== *)
theory Certificates
  imports Epochs
begin

text \<open>
  Quorum and timeout certificates: how they are checked, and what an accepted one does to the state
  (\<open>engine_v2/engine.go\<close>, \<open>engine_v2/timeout.go\<close>, \<open>engine_v2/forensics.go\<close>).
\<close>

section \<open>Verification\<close>

definition VerifyBlockInfo :: "env \<Rightarrow> chain \<Rightarrow> BlockInfo \<Rightarrow> Header option \<Rightarrow> unit engineM" where
  "VerifyBlockInfo ev ch blockInfo blockHeader =
    bindE (case blockHeader of
        None \<Rightarrow> (case GetHeaderByHash ch (bi_Hash blockInfo) of
            None \<Rightarrow> bindE (deref (CurrentHeader ch)) (\<lambda>_.
              throwE (Errorf ''[VerifyBlockInfo] header doesn't exist for the received blockInfo''))
          | Some h \<Rightarrow> returnE h)
      | Some h \<Rightarrow> if Header_Hash (keccak ev) h \<noteq> bi_Hash blockInfo
          then throwE (Errorf ''[VerifyBlockInfo] Provided blockheader does not match what's in the blockInfo'')
          else returnE h) (\<lambda>h.
    if h_Number h \<noteq> bi_Number blockInfo
    then throwE (Errorf ''[VerifyBlockInfo] chain header number does not match for the received blockInfo'') else
    bindE (getE xSwitchBlock) (\<lambda>sb.
    if bi_Number blockInfo = sb then
      if bi_Round blockInfo \<noteq> 0 then throwE (Errorf ''[VerifyBlockInfo] switch block round have to be 0'')
      else returnE ()
    else bindE (getExtraFields h) (\<lambda>(_, round, _).
      if round \<noteq> bi_Round blockInfo
      then throwE (Errorf ''[VerifyBlockInfo] chain block's round does not match from blockInfo'')
      else returnE ())))"

text \<open>
  The goroutines that check the signatures of a certificate, in the order in which they finish: the
  first failure is the result.
\<close>

fun check_signatures :: "env \<Rightarrow> (err \<Rightarrow> err) \<Rightarrow> err \<Rightarrow> hash \<Rightarrow> address list \<Rightarrow> Signature list \<Rightarrow> err + unit" where
  "check_signatures ev onError notVerified signedHash masternodes [] = Inr ()"
| "check_signatures ev onError notVerified signedHash masternodes (sig # sigs) =
     (case verifyMsgSignature ev signedHash sig masternodes of
        Inl e \<Rightarrow> Inl (onError e)
      | Inr (verified, _) \<Rightarrow> if \<not> verified then Inl notVerified
          else check_signatures ev onError notVerified signedHash masternodes sigs)"

definition verifyQC :: "env \<Rightarrow> chain \<Rightarrow> QuorumCert option \<Rightarrow> Header list \<Rightarrow> unit engineM" where
  "verifyQC ev ch qcp parents = (case qcp of None \<Rightarrow> throwE ErrInvalidQC | Some quorumCert \<Rightarrow>
     let parentHeader = (if parents \<noteq> [] then Some (last parents) else None);
         signedVoteObj = VoteSigHash (keccak ev) (qc_Block quorumCert) (qc_GapNumber quorumCert);
         qcRound = bi_Round (qc_Block quorumCert)
     in
     bindE (mapErrE (\<lambda>_. Errorf ''fail to verify QC due to failure in getting epoch switch info'')
        (getEpochSwitchInfo ev ch parents (bi_Hash (qc_Block quorumCert)))) (\<lambda>epochInfo.
     bindE (pureE (RecoverUniqueSigners ev signedVoteObj (qc_Signatures quorumCert))) (\<lambda>(signatures, duplicates).
     bindE (configAt qcRound) (\<lambda>cfg.
     if qcRound > 0 \<and> \<not> threshold_reached (length signatures) (es_MasternodesLen epochInfo) (CertThreshold cfg)
     then throwE ErrInvalidQCSignatures else
     bindE (pureE (check_signatures ev (\<lambda>_. Errorf ''error while verfying QC message signatures'')
        (Errorf ''fail to verify QC due to signature mis-match'') signedVoteObj (es_Masternodes epochInfo)
        (go_range ev signatures))) (\<lambda>_.
     bindE (getE (\<lambda>x. gapNumber_of (xEpoch x) (xGap x) (Uint64 (bi_Number (es_Block epochInfo))))) (\<lambda>gapNumber.
     if gapNumber \<noteq> qc_GapNumber quorumCert then throwE (Errorf ''gap number mismatch QC'')
     else VerifyBlockInfo ev ch (qc_Block quorumCert) parentHeader))))))"

definition isBlankTC :: "TimeoutCert option \<Rightarrow> bool" where
  "isBlankTC tcp = (case tcp of
      None \<Rightarrow> False
    | Some tc \<Rightarrow> tc_Round tc = 0 \<and> length (case tc_Signatures tc of None \<Rightarrow> [] | Some s \<Rightarrow> s) = 0)"

text \<open>\<open>getTCEpochInfo\<close>: step back from the current epoch to the one of the timeout's round.\<close>

fun tc_epoch_block :: "nat \<Rightarrow> env \<Rightarrow> chain \<Rightarrow> Round \<Rightarrow> u64 \<Rightarrow> BlockInfo \<Rightarrow> BlockInfo engineM" where
  "tc_epoch_block 0 ev ch timeoutRound tempTCEpoch epochBlockInfo = returnE epochBlockInfo"
| "tc_epoch_block (Suc n) ev ch timeoutRound tempTCEpoch epochBlockInfo =
     (if bi_Round epochBlockInfo > timeoutRound \<and> tempTCEpoch > 0 then
        bindE (mapErrE (Wrap ''fail on getTCEpochInfo due to failure in getting epoch block info tc round'')
          (GetBlockByEpochNumber ev ch (tempTCEpoch - 1)))
          (tc_epoch_block n ev ch timeoutRound (tempTCEpoch - 1))
      else returnE epochBlockInfo)"

definition getTCEpochInfo :: "env \<Rightarrow> chain \<Rightarrow> Round \<Rightarrow> EpochSwitchInfo engineM" where
  "getTCEpochInfo ev ch timeoutRound =
    bindE (mapErrE (Wrap ''fail on getTCEpochInfo due to failure in getting epoch switch info'')
       (epochInfo_of ev ch (CurrentHeader ch))) (\<lambda>info.
    bindE (getE (\<lambda>x. epochNum_of x (bi_Round (es_Block info)))) (\<lambda>tempTCEpoch.
    bindE (tc_epoch_block (unat tempTCEpoch) ev ch timeoutRound tempTCEpoch (es_Block info)) (\<lambda>epochBlockInfo.
    mapErrE (Wrap ''fail on getTCEpochInfo due to failure in getting epoch switch info'')
      (getEpochSwitchInfo ev ch [] (bi_Hash epochBlockInfo)))))"

definition verifyTC :: "env \<Rightarrow> chain \<Rightarrow> TimeoutCert option \<Rightarrow> unit engineM" where
  "verifyTC ev ch tcp = (case tcp of None \<Rightarrow> throwE ErrInvalidTC | Some timeoutCert \<Rightarrow>
     (case tc_Signatures timeoutCert of None \<Rightarrow> throwE ErrInvalidTC | Some tcSignatures \<Rightarrow>
     let signedTimeoutObj = TimeoutSigHash (keccak ev) (tc_Round timeoutCert) (tc_GapNumber timeoutCert) in
     bindE (mapErrE (Wrap ''[verifyTC] Unable to get snapshot'') (getSnapshot ev ch (tc_GapNumber timeoutCert) True)) (\<lambda>snap.
     if sn_NextEpochCandidates snap = [] then throwE (Errorf ''empty master node lists from snapshot'') else
     bindE (pureE (RecoverUniqueSigners ev signedTimeoutObj tcSignatures)) (\<lambda>(signatures, duplicates).
     bindE (getTCEpochInfo ev ch (tc_Round timeoutCert)) (\<lambda>epochInfo.
     bindE (configAt (tc_Round timeoutCert)) (\<lambda>cfg.
     if \<not> threshold_reached (length signatures) (es_MasternodesLen epochInfo) (CertThreshold cfg)
     then throwE ErrInvalidTCSignatures else
     pureE (check_signatures ev (Wrap ''error while verifying TC message signatures'')
        (Errorf ''fail to verify TC due to signature mis-match'') signedTimeoutObj (es_Masternodes epochInfo)
        (go_range ev signatures))))))))"

section \<open>Rounds, locks and commits\<close>

definition timer_Reset :: "Round \<Rightarrow> Round \<Rightarrow> timer \<Rightarrow> timer" where
  "timer_Reset currentRound highestRound t =
     t\<lparr>tm_initilised := True, tm_currentRound := currentRound, tm_highestRound := highestRound\<rparr>"

definition setNewRound :: "env \<Rightarrow> Round \<Rightarrow> unit engineM" where
  "setNewRound ev round = putE (\<lambda>x. x\<lparr>
     x_currentRound := round,
     x_timeoutCount := 0,
     x_timeoutWorker := timer_Reset round (bi_Round (qc_Block (x_highestQuorumCert x))) (x_timeoutWorker x),
     x_timeoutPool := Pool_Clear (x_timeoutPool x),
     x_newRoundCh := (if newRound_ready ev then x_newRoundCh x @ [round] else x_newRoundCh x)\<rparr>)"

text \<open>
  \<open>SetCommittedQCs\<close> with the parent and the proposed block of a commit, the only way it is called.
  The order of the tests is the one of the loop.
\<close>

definition SetCommittedQCs :: "env \<Rightarrow> Header \<Rightarrow> Header \<Rightarrow> QuorumCert \<Rightarrow> unit engineM" where
  "SetCommittedQCs ev parentBlock proposedBlock incomingQC =
    bindE (pureE (DecodeBytesExtraFields (h_Extra parentBlock))) (\<lambda>d1.
    bindE (deref (ex_QC d1)) (\<lambda>qc1.
    bindE (pureE (DecodeBytesExtraFields (h_Extra proposedBlock))) (\<lambda>d2.
    bindE (deref (ex_QC d2)) (\<lambda>qc2.
    if bi_Hash (qc_Block qc2) \<noteq> Header_Hash (keccak ev) parentBlock
    then throwE (Errorf ''headers shall be on the same chain and in the right order'')
    else if bi_Hash (qc_Block incomingQC) \<noteq> Header_Hash (keccak ev) proposedBlock
    then throwE (Errorf ''incomingQc is not pointing at the last header received'')
    else putE (\<lambda>x. x\<lparr>x_ForensicsQCs := [qc1, qc2, incomingQC]\<rparr>)))))"

definition commitBlocks :: "env \<Rightarrow> chain \<Rightarrow> Header \<Rightarrow> Round \<Rightarrow> QuorumCert \<Rightarrow> bool engineM" where
  "commitBlocks ev ch proposedBlockHeader proposedBlockRound incomingQc =
    bindE (getE xSwitchBlock) (\<lambda>sb.
    if h_Number proposedBlockHeader - 2 \<le> sb then returnE False else
    case GetHeaderByHash ch (h_ParentHash proposedBlockHeader) of
      None \<Rightarrow> throwE (Errorf ''commitBlocks fail to get header by parent hash'')
    | Some parentBlock \<Rightarrow>
      bindE (getExtraFields parentBlock) (\<lambda>(_, parentRound, _).
      if proposedBlockRound - 1 \<noteq> parentRound then returnE False else
      case GetHeaderByHash ch (h_ParentHash parentBlock) of
        None \<Rightarrow> throwE (Errorf ''commitBlocks fail to get header by grandparent hash'')
      | Some grandParentBlock \<Rightarrow>
        bindE (getExtraFields grandParentBlock) (\<lambda>(_, round, _).
        if proposedBlockRound - 2 \<noteq> round then returnE False else
        bindE (getE x_highestCommitBlock) (\<lambda>committed.
        if (case committed of None \<Rightarrow> False
            | Some c \<Rightarrow> bi_Round c \<ge> round \<or> bi_Number c > h_Number grandParentBlock) then returnE False else
        bindE (putE (\<lambda>x. x\<lparr>x_highestCommitBlock := Some
           \<lparr>bi_Hash = Header_Hash (keccak ev) grandParentBlock, bi_Round = round,
            bi_Number = h_Number grandParentBlock\<rparr>\<rparr>)) (\<lambda>_.
        bindE (tryE (SetCommittedQCs ev parentBlock proposedBlockHeader incomingQc)) (\<lambda>_.
        returnE True))))))"

definition processQC :: "env \<Rightarrow> chain \<Rightarrow> QuorumCert option \<Rightarrow> unit engineM" where
  "processQC ev ch qcp =
    bindE (deref qcp) (\<lambda>incomingQuorumCert.
    let qcRound = bi_Round (qc_Block incomingQuorumCert) in
    bindE (putE (\<lambda>x. if qcRound > bi_Round (qc_Block (x_highestQuorumCert x))
       then x\<lparr>x_highestQuorumCert := incomingQuorumCert\<rparr> else x)) (\<lambda>_.
    case GetHeaderByHash ch (bi_Hash (qc_Block incomingQuorumCert)) of
      None \<Rightarrow> throwE (Errorf ''block not found'')
    | Some proposedBlockHeader \<Rightarrow>
      bindE (getE xSwitchBlock) (\<lambda>sb.
      bindE (if h_Number proposedBlockHeader > sb then
          bindE (getExtraFields proposedBlockHeader) (\<lambda>(pqc, round, _).
          bindE (getE x_lockQuorumCert) (\<lambda>lck.
          bindE (deref pqc) (\<lambda>proposedBlockQuorumCert.
          bindE (if (case lck of None \<Rightarrow> True
                  | Some l \<Rightarrow> bi_Round (qc_Block proposedBlockQuorumCert) > bi_Round (qc_Block l))
              then putE (\<lambda>x. x\<lparr>x_lockQuorumCert := Some proposedBlockQuorumCert\<rparr>) else returnE ()) (\<lambda>_.
          bindE (commitBlocks ev ch proposedBlockHeader round incomingQuorumCert) (\<lambda>_. returnE ())))))
        else returnE ()) (\<lambda>_.
      bindE (getE x_currentRound) (\<lambda>cur.
      if qcRound \<ge> cur then setNewRound ev (qcRound + 1) else returnE ())))))"

definition processTC :: "env \<Rightarrow> TimeoutCert option \<Rightarrow> unit engineM" where
  "processTC ev tcp =
    bindE (deref tcp) (\<lambda>timeoutCert.
    bindE (putE (\<lambda>x. if tc_Round timeoutCert > tc_Round (x_highestTimeoutCert x)
       then x\<lparr>x_highestTimeoutCert := timeoutCert\<rparr> else x)) (\<lambda>_.
    bindE (getE x_currentRound) (\<lambda>cur.
    if tc_Round timeoutCert \<ge> cur then setNewRound ev (tc_Round timeoutCert + 1) else returnE ())))"

section \<open>Start-up\<close>

text \<open>
  \<open>initial\<close>.  The last header of v1 carries no certificate, so its engine starts in round 1 on a
  certificate without signatures; any other header brings its own.
\<close>

definition initial_QC :: "env \<Rightarrow> chain \<Rightarrow> Header \<Rightarrow> unit engineM" where
  "initial_QC ev ch h = bindE (getE (\<lambda>x. (xSwitchBlock x, xGap x))) (\<lambda>(sb, gap).
     if h_Number h = sb then
       let number = Uint64 (h_Number h) in
       putE (\<lambda>x. x\<lparr>x_currentRound := 1, x_highestQuorumCert :=
         \<lparr>qc_Block = \<lparr>bi_Hash = Header_Hash (keccak ev) h, bi_Round = 0, bi_Number = h_Number h\<rparr>,
          qc_Signatures = [], qc_GapNumber = (if number < gap then 0 else number - gap)\<rparr>\<rparr>)
     else bindE (getExtraFields h) (\<lambda>(quorumCert, _, _). processQC ev ch quorumCert))"

definition initial_snapshot :: "env \<Rightarrow> chain \<Rightarrow> unit engineM" where
  "initial_snapshot ev ch = bindE (getE (\<lambda>x. (lastGapNum x, Uint64 (xSwitchBlock x)))) (\<lambda>(lastGap, sb).
     let gapHash = Header_ptr_Hash (keccak ev) (GetHeaderByNumber ch lastGap) in
     bindE (getE (loadSnapshot gapHash)) (\<lambda>stored.
     if stored \<noteq> None then returnE () else
     bindE (deref (GetHeaderByNumber ch sb)) (\<lambda>checkpointHeader.
     bindE (getExtraFields checkpointHeader) (\<lambda>(_, _, masternodes).
     if masternodes = [] then throwE (Errorf ''masternodes are empty v2 switch number'') else
     let snap = NewSnapshot lastGap gapHash masternodes in
     bindE (snapshots_Add (sn_Hash snap) snap) (\<lambda>_. StoreSnapshot ev snap)))))"

definition initial :: "env \<Rightarrow> chain \<Rightarrow> Header \<Rightarrow> unit engineM" where
  "initial ev ch h = bindE (getE x_highestQuorumCert) (\<lambda>hqc.
     if bi_Hash (qc_Block hqc) \<noteq> 0 then putE (\<lambda>x. x\<lparr>x_isInitilised := True\<rparr>) else
     bindE (initial_QC ev ch h) (\<lambda>_.
     bindE (initial_snapshot ev ch) (\<lambda>_.
     bindE (putE (\<lambda>x. x\<lparr>x_minePeriodCh := x_minePeriodCh x @ [MinePeriod (CurrentConfig (cfg_V2 (x_config x)))]\<rparr>)) (\<lambda>_.
     putE (\<lambda>x. x\<lparr>x_isInitilised := True,
       x_timeoutWorker := (if h_Number h = xSwitchBlock x then timer_Reset 0 0 (x_timeoutWorker x) else x_timeoutWorker x)\<rparr>)))))"

text \<open>\<open>Initial\<close>, the entry of the start-up path, also repairs the snapshots of recent gap blocks.\<close>

definition Initial :: "env \<Rightarrow> chain \<Rightarrow> (Header \<Rightarrow> u64 \<Rightarrow> hash \<Rightarrow> err + SnapshotV2) \<Rightarrow> Header \<Rightarrow> unit engineM" where
  "Initial ev ch build h = bindE (initial ev ch h) (\<lambda>_. RepairGapSnapshots ev ch build)"

end
