(* ===== verification/Voting.thy ===== *)
theory Voting
  imports Certificates
begin

text \<open>
  Votes: collecting them into a certificate, the rule under which this node votes, and the proposal
  handler that applies it (\<open>engine_v2/vote.go\<close>, \<open>engine_v2/engine.go\<close>, \<open>consensus/proposed_block.go\<close>).
\<close>

section \<open>Collecting votes\<close>

text \<open>One goroutine of \<open>verifyVotes\<close>: the vote with the signer it leaves behind.\<close>

definition verify_vote :: "env \<Rightarrow> address list \<Rightarrow> Vote \<Rightarrow> Vote" where
  "verify_vote ev masternodes v =
    (if v_signer v \<noteq> 0 then
       if v_signer v \<in> set masternodes then v else v\<lparr>v_signer := 0\<rparr>
     else case verifyMsgSignature ev (VoteSigHash (keccak ev) (v_Block v) (v_GapNumber v)) (v_Signature v) masternodes of
       Inl _ \<Rightarrow> v
     | Inr (verified, masterNode) \<Rightarrow> if \<not> verified then v else v\<lparr>v_signer := masterNode\<rparr>)"

definition verifyVotes :: "env \<Rightarrow> chain \<Rightarrow> (hash \<times> Vote) list \<Rightarrow> Header \<Rightarrow> (hash \<times> Vote) list engineM" where
  "verifyVotes ev ch votes h = bindE (GetMasternodes ev ch (Some h)) (\<lambda>masternodes.
     returnE (map (\<lambda>(k, v). (k, verify_vote ev masternodes v)) votes))"

definition onVotePoolThresholdReached :: "env \<Rightarrow> chain \<Rightarrow> (hash \<times> Vote) list \<Rightarrow> Vote \<Rightarrow> unit engineM" where
  "onVotePoolThresholdReached ev ch pooledVotes currentVote =
    (let signed = map v_Signature (filter (\<lambda>v. v_signer v \<noteq> 0) (go_range ev (map snd pooledVotes))) in
     bindE (mapErrE (\<lambda>_. Errorf ''fail on voteHandler due to failure in getting epoch switch info'')
        (getEpochSwitchInfo ev ch [] (bi_Hash (v_Block currentVote)))) (\<lambda>epochInfo.
     case verifyAllSignatures ev (VoteSigHash (keccak ev) (v_Block currentVote) (v_GapNumber currentVote))
         signed (es_Masternodes epochInfo) of
       ((validSignatures, _, _), _) \<Rightarrow>
     bindE (configAt (bi_Round (v_Block currentVote))) (\<lambda>cfg.
     if \<not> threshold_reached (length validSignatures) (es_MasternodesLen epochInfo) (CertThreshold cfg)
     then returnE ()
     else processQC ev ch (Some \<lparr>qc_Block = v_Block currentVote, qc_Signatures = validSignatures,
       qc_GapNumber = v_GapNumber currentVote\<rparr>))))"

definition votePool_Add :: "env \<Rightarrow> Vote \<Rightarrow> (nat \<times> (hash \<times> Vote) list) engineM" where
  "votePool_Add ev v = (\<lambda>x. case Pool_Add (voteObj (keccak ev)) v (x_votePool x) of
     (n, pooled, p) \<Rightarrow> (Inr (n, pooled), x\<lparr>x_votePool := p\<rparr>))"

definition voteHandler :: "env \<Rightarrow> chain \<Rightarrow> Vote \<Rightarrow> unit engineM" where
  "voteHandler ev ch voteMsg =
    (let round = bi_Round (v_Block voteMsg) in
     bindE (getE x_currentRound) (\<lambda>cur.
     if round \<noteq> cur \<and> round \<noteq> cur + 1
     then throwE (ErrIncomingMessageRoundTooFarFromCurrentRound ''vote'' round cur) else
     bindE (putE (\<lambda>x. if x_votePoolCollectionTime x = None then x\<lparr>x_votePoolCollectionTime := Some (now ev)\<rparr> else x)) (\<lambda>_.
     bindE (votePool_Add ev voteMsg) (\<lambda>(numberOfVotesInPool, pooledVotes).
     bindE (mapErrE (ErrIncomingMessageBlockNotFound ''vote'' (bi_Hash (v_Block voteMsg)) (bi_Number (v_Block voteMsg)))
        (getEpochSwitchInfo ev ch [] (bi_Hash (v_Block voteMsg)))) (\<lambda>epochInfo.
     bindE (configAt round) (\<lambda>cfg.
     if threshold_reached numberOfVotesInPool (es_MasternodesLen epochInfo) (CertThreshold cfg) then
       case GetHeaderByHash ch (bi_Hash (v_Block voteMsg)) of
         None \<Rightarrow> returnE ()
       | Some proposedBlockHeader \<Rightarrow>
           bindE (VerifyBlockInfo ev ch (v_Block voteMsg) None) (\<lambda>_.
           bindE (verifyVotes ev ch pooledVotes proposedBlockHeader) (\<lambda>verifiedVotes.
           bindE (onVotePoolThresholdReached ev ch verifiedVotes voteMsg) (\<lambda>_.
           putE (\<lambda>x. x\<lparr>x_votePoolCollectionTime := None\<rparr>))))
     else returnE ()))))))"

text \<open>\<open>VerifyVoteMessage\<close>: the check of a vote from a peer; the vote comes back with its signer.\<close>

definition VerifyVoteMessage :: "env \<Rightarrow> chain \<Rightarrow> Vote \<Rightarrow> (bool \<times> Vote) engineM" where
  "VerifyVoteMessage ev ch vote = bindE (getE x_currentRound) (\<lambda>cur.
     if bi_Round (v_Block vote) < cur then returnE (False, vote) else
     bindE (getSnapshot ev ch (v_GapNumber vote) True) (\<lambda>snapshot.
     bindE (pureE (verifyMsgSignature ev (VoteSigHash (keccak ev) (v_Block vote) (v_GapNumber vote)) (v_Signature vote)
        (sn_NextEpochCandidates snapshot))) (\<lambda>(verified, signer).
     returnE (verified, vote\<lparr>v_signer := signer\<rparr>))))"

section \<open>The voting rule\<close>

fun nth_ancestor_hash :: "chain \<Rightarrow> nat \<Rightarrow> hash \<Rightarrow> hash option" where
  "nth_ancestor_hash ch 0 hsh = Some hsh"
| "nth_ancestor_hash ch (Suc n) hsh = (case GetHeaderByHash ch hsh of
      None \<Rightarrow> None
    | Some h \<Rightarrow> nth_ancestor_hash ch n (h_ParentHash h))"

text \<open>The number of iterations is \<open>int(diff.Int64())\<close>, and none for a negative difference.\<close>

definition isExtendingFromAncestor :: "chain \<Rightarrow> BlockInfo \<Rightarrow> BlockInfo \<Rightarrow> bool engineM" where
  "isExtendingFromAncestor ch currentBlock ancestorBlock =
    (let blockNumDiff = sint (Uint64 (bi_Number currentBlock - bi_Number ancestorBlock)) in
     case nth_ancestor_hash ch (nat blockNumDiff) (bi_Hash currentBlock) of
       None \<Rightarrow> throwE (Errorf ''could not find its parent block when checking whether currentBlock is extending from the ancestorBlock'')
     | Some hsh \<Rightarrow> returnE (hsh = bi_Hash ancestorBlock))"

definition verifyVotingRule :: "chain \<Rightarrow> BlockInfo \<Rightarrow> QuorumCert \<Rightarrow> bool engineM" where
  "verifyVotingRule ch blockInfo quorumCert =
    bindE (getE (\<lambda>x. (x_currentRound x, x_highestVotedRound x, x_lockQuorumCert x))) (\<lambda>(cur, voted, lck).
    if cur \<le> voted then returnE False
    else if bi_Round blockInfo \<noteq> cur then returnE False
    else case lck of
      None \<Rightarrow> returnE True
    | Some l \<Rightarrow> if bi_Round (qc_Block quorumCert) > bi_Round (qc_Block l) then returnE True
        else isExtendingFromAncestor ch blockInfo (qc_Block l))"

definition sendVote :: "env \<Rightarrow> chain \<Rightarrow> BlockInfo \<Rightarrow> unit engineM" where
  "sendVote ev ch blockInfo =
    bindE (getEpochSwitchInfo ev ch [] (bi_Hash blockInfo)) (\<lambda>info.
    bindE (getE (\<lambda>x. gapNumber_of (xEpoch x) (xGap x) (Uint64 (bi_Number (es_Block info))))) (\<lambda>gapNumber.
    bindE (signSignature (VoteSigHash (keccak ev) blockInfo gapNumber)) (\<lambda>signedHash.
    bindE (putE (\<lambda>x. x\<lparr>x_highestVotedRound := x_currentRound x\<rparr>)) (\<lambda>_.
    let voteMsg = \<lparr>v_signer = 0, v_Block = blockInfo, v_Signature = signedHash, v_GapNumber = gapNumber\<rparr> in
    bindE (voteHandler ev ch voteMsg) (\<lambda>_.
    broadcastToBftChannel (MVote voteMsg))))))"

section \<open>Proposals\<close>

definition v2Round :: "Header \<Rightarrow> Round option" where
  "v2Round h = (if length (h_Extra h) = 0 \<or> h_Extra h ! 0 \<noteq> 2 then None
     else case DecodeBytes decodeExtraFields (drop 1 (h_Extra h)) of Inl _ \<Rightarrow> None | Inr e \<Rightarrow> Some (ex_Round e))"

definition isNewerProposalForSameParent :: "Header \<Rightarrow> Header \<Rightarrow> bool" where
  "isNewerProposalForSameParent h canonical =
    (if h_ParentHash h \<noteq> h_ParentHash canonical then False
     else case v2Round h of None \<Rightarrow> False
       | Some proposalRound \<Rightarrow> (case v2Round canonical of None \<Rightarrow> False
           | Some canonicalRound \<Rightarrow> proposalRound > canonicalRound))"

text \<open>
  \<open>ShouldHandleProposedBlock\<close> answers with the verdict, the reason of a refusal and the canonical hash.
  \<open>storer\<close> is the \<open>BlockStorer\<close> of the chain, if it implements the interface.
\<close>

datatype SkipReason = Accepted | SkipNoCanonicalHeader | SkipNonCanonical | SkipBodyNotStored
  | SkipUnjudgeable | SkipNilHeader

definition ShouldHandleProposedBlock :: "env \<Rightarrow> chain \<Rightarrow> (hash \<Rightarrow> u64 \<Rightarrow> bool) option \<Rightarrow> Header option \<Rightarrow>
    bool \<times> SkipReason \<times> hash" where
  "ShouldHandleProposedBlock ev ch storer hp = (case hp of None \<Rightarrow> (False, SkipNilHeader, 0) | Some h \<Rightarrow>
    (case storer of None \<Rightarrow> (False, SkipUnjudgeable, 0) | Some hasBlock \<Rightarrow>
    (case GetHeaderByNumber ch (Uint64 (h_Number h)) of None \<Rightarrow> (False, SkipNoCanonicalHeader, 0) | Some canonical \<Rightarrow>
      let canonicalHash = Header_Hash (keccak ev) canonical; hsh = Header_Hash (keccak ev) h in
      if canonicalHash \<noteq> hsh \<and> \<not> isNewerProposalForSameParent h canonical then (False, SkipNonCanonical, canonicalHash)
      else if \<not> hasBlock hsh (Uint64 (h_Number h)) then (False, SkipBodyNotStored, canonicalHash)
      else (True, Accepted, canonicalHash))))"

text \<open>The judgement on the chain of the node, which stores blocks.\<close>

definition handles :: "env \<Rightarrow> chain \<Rightarrow> Header \<Rightarrow> bool" where
  "handles ev ch h = fst (ShouldHandleProposedBlock ev ch (Some (HasBlock ch)) (Some h))"

text \<open>
  \<open>ProposedBlockHandler\<close>.  The chain can be reorganised while the handler runs; \<open>ch\<close> is the chain up
  to the vote and \<open>ch'\<close> the chain the second check and the vote see.
\<close>

definition ProposedBlockHandler :: "env \<Rightarrow> chain \<Rightarrow> chain \<Rightarrow> Header \<Rightarrow> unit engineM" where
  "ProposedBlockHandler ev ch ch' blockHeader =
    bindE (getExtraFields blockHeader) (\<lambda>(qcp, round, _).
    if \<not> handles ev ch blockHeader then returnE () else
    let blockInfo = \<lparr>bi_Hash = Header_Hash (keccak ev) blockHeader, bi_Round = round, bi_Number = h_Number blockHeader\<rparr> in
    bindE (processQC ev ch qcp) (\<lambda>_.
    bindE (allowedToSend ev ch (Some blockHeader)) (\<lambda>allow.
    if \<not> allow then returnE () else
    bindE (deref qcp) (\<lambda>quorumCert.
    bindE (verifyVotingRule ch blockInfo quorumCert) (\<lambda>verified.
    if verified then
      if \<not> handles ev ch' blockHeader then returnE () else sendVote ev ch' blockInfo
    else returnE ())))))"

definition hygieneVotePool :: "unit engineM" where
  "hygieneVotePool = putE (\<lambda>x. x\<lparr>x_votePool := hygienePool (x_currentRound x) (x_votePool x)\<rparr>)"

end
