(* ===== verification/Timeouts.thy ===== *)
theory Timeouts
  imports Voting
begin

text \<open>
  Timeouts and the exchange of certificates: \<open>engine_v2/timeout.go\<close> and the sync-info part of
  \<open>engine_v2/engine.go\<close>.
\<close>

section \<open>Collecting timeouts\<close>

definition timeoutPool_Add :: "env \<Rightarrow> Timeout \<Rightarrow> (nat \<times> (hash \<times> Timeout) list) engineM" where
  "timeoutPool_Add ev t = (\<lambda>x. case Pool_Add (timeoutObj (keccak ev)) t (x_timeoutPool x) of
     (n, pooled, p) \<Rightarrow> (Inr (n, pooled), x\<lparr>x_timeoutPool := p\<rparr>))"

definition onTimeoutPoolThresholdReached :: "env \<Rightarrow> chain \<Rightarrow> (hash \<times> Timeout) list \<Rightarrow> Timeout \<Rightarrow> u64 \<Rightarrow> unit engineM" where
  "onTimeoutPoolThresholdReached ev ch pooledTimeouts currentTimeout gapNumber =
    (let timeoutRound = t_Round currentTimeout;
         sigs = map t_Signature (filter (\<lambda>t. t_signer t \<noteq> 0) (go_range ev (map snd pooledTimeouts)))
     in
     bindE (getTCEpochInfo ev ch timeoutRound) (\<lambda>epochInfo.
     case verifyAllSignatures ev (TimeoutSigHash (keccak ev) timeoutRound gapNumber) sigs (es_Masternodes epochInfo) of
       ((validSignatures, _, _), _) \<Rightarrow>
     bindE (configAt timeoutRound) (\<lambda>cfg.
     if \<not> threshold_reached (length validSignatures) (es_MasternodesLen epochInfo) (CertThreshold cfg)
     then returnE () else
     bindE (processTC ev (Some \<lparr>tc_Round = timeoutRound, tc_Signatures = Some validSignatures, tc_GapNumber = gapNumber\<rparr>)) (\<lambda>_.
     bindE (getE getSyncInfo) (\<lambda>syncInfo. broadcastToBftChannel (MSyncInfo syncInfo))))))"

definition timeoutHandler :: "env \<Rightarrow> chain \<Rightarrow> Timeout \<Rightarrow> unit engineM" where
  "timeoutHandler ev ch timeout =
    bindE (getE x_currentRound) (\<lambda>cur.
    if t_Round timeout \<noteq> cur
    then throwE (ErrIncomingMessageRoundNotEqualCurrentRound ''timeout'' (t_Round timeout) cur) else
    bindE (timeoutPool_Add ev timeout) (\<lambda>(numberOfTimeoutsInPool, pooledTimeouts).
    bindE (mapErrE (Wrap ''fail on timeoutHandler due to failure in getting epoch switch info'')
       (epochInfo_of ev ch (CurrentHeader ch))) (\<lambda>epochInfo.
    bindE (configAt (t_Round timeout)) (\<lambda>cfg.
    if threshold_reached numberOfTimeoutsInPool (es_MasternodesLen epochInfo) (CertThreshold cfg)
    then onTimeoutPoolThresholdReached ev ch pooledTimeouts timeout (t_GapNumber timeout)
    else returnE ()))))"

definition VerifyTimeoutMessage :: "env \<Rightarrow> chain \<Rightarrow> Timeout \<Rightarrow> (bool \<times> Timeout) engineM" where
  "VerifyTimeoutMessage ev ch t = bindE (getE x_currentRound) (\<lambda>cur.
     if t_Round t < cur then returnE (False, t) else
     bindE (getSnapshot ev ch (t_GapNumber t) True) (\<lambda>snap.
     if sn_NextEpochCandidates snap = [] then throwE (Errorf ''empty master node lists from snapshot'') else
     bindE (pureE (verifyMsgSignature ev (TimeoutSigHash (keccak ev) (t_Round t) (t_GapNumber t)) (t_Signature t)
        (sn_NextEpochCandidates snap))) (\<lambda>(verified, signer).
     returnE (verified, t\<lparr>t_signer := signer\<rparr>))))"

section \<open>Sending timeouts\<close>

text \<open>A nil current header is dereferenced by \<open>isEpochSwitchAtRound\<close>.\<close>

definition sendTimeout :: "env \<Rightarrow> chain \<Rightarrow> unit engineM" where
  "sendTimeout ev ch =
    bindE (deref (CurrentHeader ch)) (\<lambda>currentBlockHeader.
    bindE (getE x_currentRound) (\<lambda>cur.
    bindE (isEpochSwitchAtRound cur currentBlockHeader) (\<lambda>(isEpochSwitch, epochNum).
    bindE (getE (\<lambda>x. gapNumber_of (xEpoch x) (xGap x))) (\<lambda>gap_of.
    bindE (if isEpochSwitch then returnE (gap_of (Uint64 (h_Number currentBlockHeader) + 1))
      else bindE (epochInfo_of ev ch (Some currentBlockHeader)) (\<lambda>info.
        returnE (gap_of (Uint64 (bi_Number (es_Block info)))))) (\<lambda>gapNumber.
    bindE (signSignature (TimeoutSigHash (keccak ev) cur gapNumber)) (\<lambda>signedHash.
    bindE (getE x_signer) (\<lambda>signer.
    let timeoutMsg = \<lparr>t_signer = signer, t_Round = cur, t_Signature = signedHash, t_GapNumber = gapNumber\<rparr> in
    bindE (timeoutHandler ev ch timeoutMsg) (\<lambda>_.
    broadcastToBftChannel (MTimeout timeoutMsg)))))))))"

text \<open>\<open>%\<close> on \<open>int\<close> truncates, and only its being 0 is used; a threshold of 0 is a panic.\<close>

definition OnCountdownTimeout :: "env \<Rightarrow> chain \<Rightarrow> unit engineM" where
  "OnCountdownTimeout ev ch =
    bindE (allowedToSend ev ch (CurrentHeader ch)) (\<lambda>allow.
    if \<not> allow then returnE () else
    bindE (sendTimeout ev ch) (\<lambda>_.
    bindE (putE (\<lambda>x. x\<lparr>x_timeoutCount := x_timeoutCount x + 1\<rparr>)) (\<lambda>_.
    bindE (getE (\<lambda>x. (x_timeoutCount x, TimeoutSyncThreshold (CurrentConfig (cfg_V2 (x_config x)))))) (\<lambda>(count, thr).
    if thr = 0 then throwE (Panic ''integer divide by zero'')
    else if thr dvd count then bindE (getE getSyncInfo) (\<lambda>s. broadcastToBftChannel (MSyncInfo s))
    else returnE ()))))"

definition hygieneTimeoutPool :: "unit engineM" where
  "hygieneTimeoutPool = putE (\<lambda>x. x\<lparr>x_timeoutPool := hygienePool (x_currentRound x) (x_timeoutPool x)\<rparr>)"

section \<open>Sync info\<close>

definition VerifySyncInfoMessage :: "env \<Rightarrow> chain \<Rightarrow> SyncInfo \<Rightarrow> bool engineM" where
  "VerifySyncInfoMessage ev ch syncInfo =
    bindE (getE (\<lambda>x. (bi_Round (qc_Block (x_highestQuorumCert x)), tc_Round (x_highestTimeoutCert x)))) (\<lambda>(hqc, htc).
    bindE (deref (si_QC syncInfo)) (\<lambda>qc.
    bindE (if hqc \<ge> bi_Round (qc_Block qc) then
        bindE (deref (si_TC syncInfo)) (\<lambda>tc. returnE (htc \<ge> tc_Round tc))
      else returnE False) (\<lambda>stale.
    if stale then returnE False else
    bindE (verifyQC ev ch (si_QC syncInfo) []) (\<lambda>_.
    bindE (if \<not> isBlankTC (si_TC syncInfo) then verifyTC ev ch (si_TC syncInfo) else returnE ()) (\<lambda>_.
    returnE True)))))"

definition SyncInfoHandler :: "env \<Rightarrow> chain \<Rightarrow> SyncInfo \<Rightarrow> unit engineM" where
  "SyncInfoHandler ev ch syncInfo =
     bindE (processQC ev ch (si_QC syncInfo)) (\<lambda>_. processTC ev (si_TC syncInfo))"

end
