(* ===== verification/Mining.thy ===== *)
theory Mining
  imports Timeouts
begin

text \<open>
  Who proposes in a round and what the proposal looks like: \<open>engine_v2/mining.go\<close>, \<open>Prepare\<close> and \<open>Seal\<close> of
  \<open>engine_v2/engine.go\<close>, and the report of missed rounds of \<open>engine_v2/utils.go\<close>.
\<close>

section \<open>Masternodes of a new epoch\<close>

text \<open>\<open>if len(xs) > max { xs = xs[:max] }\<close>; a negative bound is a panic.\<close>

definition truncate_to :: "int \<Rightarrow> 'a list \<Rightarrow> 'a list engineM" where
  "truncate_to bound xs =
    (if int (length xs) > bound then
       if bound < 0 then throwE IndexOutOfRange else returnE (take (nat bound) xs)
     else returnE xs)"

definition calcMasternodes :: "env \<Rightarrow> chain \<Rightarrow> int \<Rightarrow> hash \<Rightarrow> Round \<Rightarrow> (address list \<times> address list) engineM" where
  "calcMasternodes ev ch blockNum parentHash round =
    bindE (configAt round) (\<lambda>cfg.
    bindE (getSnapshot ev ch (Uint64 blockNum) False) (\<lambda>snap.
    let candidates = sn_NextEpochCandidates snap in
    bindE (getE (\<lambda>x. (xSwitchBlock x, x_HookPenalty x))) (\<lambda>(sb, hook).
    if blockNum = sb + 1 then
      bindE (truncate_to (MaxMasternodes cfg) candidates) (\<lambda>masternodes. returnE (masternodes, []))
    else case hook of
      None \<Rightarrow> bindE (truncate_to (MaxMasternodes cfg) candidates) (\<lambda>masternodes. returnE (masternodes, []))
    | Some HookPenalty \<Rightarrow>
        bindE (pureE (HookPenalty ch blockNum parentHash candidates)) (\<lambda>penalties.
        bindE (truncate_to (MaxMasternodes cfg) (RemoveItemFromArray candidates penalties)) (\<lambda>masternodes.
        returnE (masternodes, penalties))))))"

section \<open>Turns\<close>

definition leaderIndex :: "engine \<Rightarrow> Round \<Rightarrow> address list \<Rightarrow> nat" where
  "leaderIndex x round masterNodes = unat (round mod xEpoch x mod of_nat (length masterNodes))"

text \<open>Every branch looks into the parent, so a nil parent is a panic.\<close>

definition yourturn :: "env \<Rightarrow> chain \<Rightarrow> Round \<Rightarrow> Header option \<Rightarrow> address \<Rightarrow> bool engineM" where
  "yourturn ev ch round parentp signer =
    bindE (deref parentp) (\<lambda>parent.
    bindE (getE x_highestSelfMinedRound) (\<lambda>mined.
    if round \<le> mined then throwE ErrAlreadyMined else
    bindE (isEpochSwitchAtRound round parent) (\<lambda>(isEpochSwitch, _).
    bindE (if isEpochSwitch then
        bindE (calcMasternodes ev ch (h_Number parent + 1) (Header_Hash (keccak ev) parent) round) (\<lambda>(ms, _). returnE ms)
      else GetMasternodes ev ch (Some parent)) (\<lambda>masterNodes.
    if masterNodes = [] then throwE (Errorf ''masternodes not found'')
    else if Position masterNodes signer = -1 then returnE False else
    bindE (getE (\<lambda>x. masterNodes ! leaderIndex x round masterNodes)) (\<lambda>leader.
    bindE (putE (\<lambda>x. x\<lparr>x_whosTurn := leader\<rparr>)) (\<lambda>_.
    returnE (leader = signer)))))))"

definition YourTurn :: "env \<Rightarrow> chain \<Rightarrow> Header \<Rightarrow> address \<Rightarrow> bool engineM" where
  "YourTurn ev ch parent signer =
    bindE (getE x_isInitilised) (\<lambda>ini.
    bindE (if \<not> ini then initial ev ch parent else returnE ()) (\<lambda>_.
    bindE (getE x_currentRound) (\<lambda>round.
    bindE (configAt round) (\<lambda>cfg.
    if sint (now ev - h_Time parent) < MinePeriod cfg then returnE False
    else yourturn ev ch round (Some parent) signer))))"

definition calcDifficulty :: int where
  "calcDifficulty = 1"

section \<open>Proposals\<close>

text \<open>
  \<open>Prepare\<close> fills in the consensus fields of a header.  It works on the header in place; here the
  filled header is the result, and an error leaves none.
\<close>

definition Prepare :: "env \<Rightarrow> chain \<Rightarrow> Header \<Rightarrow> Header engineM" where
  "Prepare ev ch h0 =
    bindE (getE (\<lambda>x. (x_currentRound x, x_highestQuorumCert x))) (\<lambda>(currentRound, highestQC).
    if h_ParentHash h0 \<noteq> bi_Hash (qc_Block highestQC) then throwE ErrNotReadyToPropose else
    bindE (pureE (map_sum RlpErr id (ExtraFields_EncodeToBytes \<lparr>ex_Round = currentRound, ex_QC = Some highestQC\<rparr>))) (\<lambda>extraBytes.
    let h1 = h0\<lparr>h_Extra := extraBytes, h_Nonce := 0\<rparr>; number = Uint64 (h_Number h1) in
    case GetHeader ch (h_ParentHash h1) (number - 1) of
      None \<Rightarrow> throwE ErrUnknownAncestor
    | Some parent \<Rightarrow>
    (case (if h_Number parent \<noteq> 0 then VerifyGaslimit (h_GasLimit parent) (h_GasLimit h1) else Inr ()) of
      Inl e \<Rightarrow> throwE e
    | Inr _ \<Rightarrow>
    if h_GasUsed h1 > h_GasLimit h1 then throwE (Errorf ''gas used exceeded gaslimit'') else
    bindE (getE x_signer) (\<lambda>signer.
    bindE (yourturn ev ch currentRound (Some parent) signer) (\<lambda>isMyTurn.
    if \<not> isMyTurn then throwE ErrNotReadyToMine else
    let h2 = h1\<lparr>h_Difficulty := calcDifficulty\<rparr> in
    bindE (IsEpochSwitch ev h2) (\<lambda>(isEpochSwitchBlock, _).
    bindE (if isEpochSwitchBlock then
        bindE (calcMasternodes ev ch (h_Number h2) (h_ParentHash h2) currentRound) (\<lambda>(masterNodes, penalties).
        returnE (h2\<lparr>h_Validators := h_Validators h2 @ ExtractAddressToBytes masterNodes,
          h_Penalties := h_Penalties h2 @ ExtractAddressToBytes penalties\<rparr>))
      else returnE h2) (\<lambda>h3.
    bindE (getE (\<lambda>x. h_Time parent + Period (x_config x))) (\<lambda>time.
    let h4 = h3\<lparr>h_MixDigest := 0, h_Time := (if time < now ev then now ev else time)\<rparr> in
    if h_Coinbase h4 \<noteq> signer then throwE ErrCoinbaseMismatch else returnE h4))))))))"

text \<open>
  \<open>Seal\<close> signs a proposal; \<open>stopped\<close> tells whether the stop channel is closed, in which case there is no
  result.  The signature function is called whether or not there is one.
\<close>

definition Seal :: "env \<Rightarrow> chain \<Rightarrow> bool \<Rightarrow> Header \<Rightarrow> Header option engineM" where
  "Seal ev ch stopped h =
    (if Uint64 (h_Number h) = 0 then throwE ErrUnknownBlock else
    bindE (getE (\<lambda>x. (x_signer x, x_signFn x))) (\<lambda>(signer, signFn).
    if stopped then returnE None else
    bindE (pureE (sigHash (keccak ev) h)) (\<lambda>signingHash.
    bindE (deref signFn) (\<lambda>f.
    bindE (pureE (f signingHash)) (\<lambda>signature.
    let h' = h\<lparr>h_Validator := signature\<rparr> in
    bindE (pureE (DecodeBytesExtraFields (h_Extra h'))) (\<lambda>decoded.
    bindE (IsEpochSwitch ev h') (\<lambda>(isEpochSwitch, _).
    bindE (if isEpochSwitch then
        yourturn ev ch (ex_Round decoded) (GetHeaderByHash ch (h_ParentHash h')) signer
      else returnE False) (\<lambda>_.
    bindE (putE (\<lambda>x. x\<lparr>x_highestSelfMinedRound := ex_Round decoded\<rparr>)) (\<lambda>_.
    returnE (Some h'))))))))))"

definition CurrentRound :: "engine \<Rightarrow> Round" where
  "CurrentRound x = x_currentRound x"

definition FindParentBlockToAssign :: "(hash \<Rightarrow> u64 \<Rightarrow> 'b option) \<Rightarrow> engine \<Rightarrow> 'b option" where
  "FindParentBlockToAssign GetBlock x =
     GetBlock (bi_Hash (qc_Block (x_highestQuorumCert x))) (Uint64 (bi_Number (qc_Block (x_highestQuorumCert x))))"

section \<open>Missed rounds\<close>

record MissedRoundInfo =
  mr_Round :: Round
  mr_Miner :: address
  mr_CurrentBlockHash :: hash
  mr_CurrentBlockNum :: int
  mr_ParentBlockHash :: hash
  mr_ParentBlockNum :: int

text \<open>The rounds between a block and its parent, with the masternode whose turn each was.\<close>

definition missed_between :: "env \<Rightarrow> engine \<Rightarrow> address list \<Rightarrow> Header \<Rightarrow> Header \<Rightarrow> Round \<Rightarrow> Round \<Rightarrow> MissedRoundInfo list" where
  "missed_between ev x masternodes nextHeader parentHeader parentRound currRound =
    map (\<lambda>i. \<lparr>mr_Round = of_nat i, mr_Miner = masternodes ! leaderIndex x (of_nat i) masternodes,
        mr_CurrentBlockHash = Header_Hash (keccak ev) nextHeader, mr_CurrentBlockNum = h_Number nextHeader,
        mr_ParentBlockHash = Header_Hash (keccak ev) parentHeader, mr_ParentBlockNum = h_Number parentHeader\<rparr>)
      [unat (parentRound + 1)..<unat currRound]"

text \<open>The walk back to the switch block; \<open>n\<close> bounds its length.\<close>

fun missed_rounds :: "nat \<Rightarrow> env \<Rightarrow> chain \<Rightarrow> EpochSwitchInfo \<Rightarrow> Header \<Rightarrow> MissedRoundInfo list engineM" where
  "missed_rounds 0 ev ch info nextHeader = throwE StackOverflow"
| "missed_rounds (Suc n) ev ch info nextHeader =
     (if h_Number nextHeader > bi_Number (es_Block info) then
        case GetHeaderByHash ch (h_ParentHash nextHeader) of
          None \<Rightarrow> throwE (Errorf ''fail to get header by hash'')
        | Some parentHeader \<Rightarrow>
          bindE (GetRoundNumber parentHeader) (\<lambda>parentRound.
          bindE (GetRoundNumber nextHeader) (\<lambda>currRound.
          bindE (getE (\<lambda>x. if parentRound + 1 \<noteq> currRound
              then missed_between ev x (es_Masternodes info) nextHeader parentHeader parentRound currRound else [])) (\<lambda>here.
          bindE (missed_rounds n ev ch info parentHeader) (\<lambda>rest. returnE (here @ rest)))))
      else returnE [])"

text \<open>The round and the number of the switch block, and the missed rounds since.\<close>

definition CalculateMissingRounds :: "env \<Rightarrow> chain \<Rightarrow> Header \<Rightarrow> (Round \<times> int \<times> MissedRoundInfo list) engineM" where
  "CalculateMissingRounds ev ch h =
    bindE (epochInfo_of ev ch (Some h)) (\<lambda>info.
    if es_Masternodes info = [] then throwE (Errorf ''masternodes is empty in CalculateMissingRounds'') else
    bindE (missed_rounds (depth ev) ev ch info h) (\<lambda>missed.
    returnE (bi_Round (es_Block info), bi_Number (es_Block info), missed)))"

end
