(* ===== verification/Header_Check.thy ===== *)
theory Header_Check
  imports Mining
begin

text \<open>
  The verification of headers: \<open>engine_v2/verifyHeader.go\<close>, with \<open>VerifyHeader\<close> and \<open>VerifyHeaders\<close> of
  \<open>engine_v2/engine.go\<close>.
\<close>

definition NonceAuthVote :: u64 where "NonceAuthVote = 0xFFFFFFFFFFFFFFFF"
definition NonceDropVote :: u64 where "NonceDropVote = 0"

text \<open>\<open>types.CalcUncleHash(nil)\<close>: the hash of the encoding of the empty list.\<close>

definition UncleHash :: "(bytes \<Rightarrow> hash) \<Rightarrow> hash" where
  "UncleHash kc = kc [0xC0]"

section \<open>The parts of \<open>verifyHeader\<close>\<close>

text \<open>The checks that need only the header and the clock.\<close>

definition verify_form :: "env \<Rightarrow> Header \<Rightarrow> bool \<Rightarrow> unit engineM" where
  "verify_form ev h fullVerify =
    (if length (h_Validator h) = 0 then throwE ErrNoValidatorSignatureV2
     else if length (h_Validator h) \<noteq> 65 then throwE (Errorf ''invalid validator signature length'')
     else if fullVerify \<and> h_Time h > now ev then throwE ErrFutureBlock
     else returnE ())"

definition verify_parent :: "env \<Rightarrow> chain \<Rightarrow> Header \<Rightarrow> Header list \<Rightarrow> Header engineM" where
  "verify_parent ev ch h parents =
    (let number = Uint64 (h_Number h);
         parentp = (if parents \<noteq> [] then Some (last parents) else GetHeader ch (h_ParentHash h) (number - 1))
     in case parentp of
        None \<Rightarrow> throwE ErrUnknownAncestor
      | Some parent \<Rightarrow>
          if Uint64 (h_Number parent) \<noteq> number - 1 \<or> Header_Hash (keccak ev) parent \<noteq> h_ParentHash h
          then throwE ErrUnknownAncestor else returnE parent)"

definition verify_gas :: "Header \<Rightarrow> Header \<Rightarrow> unit engineM" where
  "verify_gas parent h =
    (case (if h_Number parent \<noteq> 0 then VerifyGaslimit (h_GasLimit parent) (h_GasLimit h) else Inr ()) of
       Inl e \<Rightarrow> throwE e
     | Inr _ \<Rightarrow> if h_GasUsed h > h_GasLimit h then throwE (Errorf ''gas used exceeded gaslimit'') else returnE ())"

text \<open>The certificate of the parent and the round of the header, as the header carries them.\<close>

definition verify_extra :: "Header \<Rightarrow> (QuorumCert \<times> Round) engineM" where
  "verify_extra h = bindE (mapErrE (\<lambda>_. ErrInvalidV2Extra) (getExtraFields h)) (\<lambda>(qcp, round, _).
     case qcp of None \<Rightarrow> throwE ErrInvalidQuorumCert | Some quorumCert \<Rightarrow> returnE (quorumCert, round))"

definition verify_time :: "Header \<Rightarrow> Header \<Rightarrow> Round \<Rightarrow> unit engineM" where
  "verify_time parent h round = bindE (configAt round) (\<lambda>cfg. bindE (getE xSwitchBlock) (\<lambda>sb.
     let minePeriod = word_of_int (MinePeriod cfg) in
     if Uint64 (h_Number parent) \<ge> Uint64 sb \<and> h_Time parent + minePeriod > h_Time h
     then throwE ErrInvalidTimestamp else returnE ()))"

definition verify_fields :: "env \<Rightarrow> chain \<Rightarrow> Header \<Rightarrow> Header \<Rightarrow> unit engineM" where
  "verify_fields ev ch parent h =
    (if h_Nonce h \<noteq> NonceAuthVote \<and> h_Nonce h \<noteq> NonceDropVote then throwE ErrInvalidVote
     else if h_MixDigest h \<noteq> 0 then throwE ErrInvalidMixDigest
     else if h_UncleHash h \<noteq> UncleHash (keccak ev) then throwE ErrInvalidUncleHash
     else bindE (pureE (VerifyEip1559Header (chain_Config ch) (Some parent) h)) (\<lambda>_.
       if h_Difficulty h \<noteq> 1 then throwE ErrInvalidDifficulty else returnE ()))"

text \<open>The masternodes against which the proposer is checked, with the checks on the lists in the header.\<close>

definition verify_masternodes :: "env \<Rightarrow> chain \<Rightarrow> Header \<Rightarrow> Round \<Rightarrow> bool \<Rightarrow> address list engineM" where
  "verify_masternodes ev ch h round fullVerify = bindE (IsEpochSwitch ev h) (\<lambda>(isEpochSwitch, _).
     if isEpochSwitch then
       if h_Nonce h \<noteq> NonceDropVote then throwE ErrInvalidCheckpointVote
       else if length (h_Validators h) = 0 then throwE ErrEmptyEpochSwitchValidators
       else if length (h_Validators h) mod AddressLength \<noteq> 0 then throwE ErrInvalidCheckpointSigners
       else if fullVerify then
         bindE (calcMasternodes ev ch (h_Number h) (h_ParentHash h) round) (\<lambda>(localMasterNodes, localPenalties).
         if \<not> CompareSignersLists localMasterNodes (ExtractAddressFromBytes (h_Validators h)) then throwE ErrValidatorsNotLegit
         else if \<not> CompareSignersLists localPenalties (ExtractAddressFromBytes (h_Penalties h)) then throwE ErrPenaltiesNotLegit
         else returnE localMasterNodes)
       else returnE (ExtractAddressFromBytes (h_Validators h))
     else if length (h_Validators h) \<noteq> 0 then throwE ErrInvalidFieldInNonEpochSwitch
     else if length (h_Penalties h) \<noteq> 0 then throwE ErrInvalidFieldInNonEpochSwitch
     else GetMasternodes ev ch (Some h))"

definition verify_proposer :: "env \<Rightarrow> Header \<Rightarrow> Round \<Rightarrow> address list \<Rightarrow> unit engineM" where
  "verify_proposer ev h round masterNodes =
    bindE (pureE (sigHash (keccak ev) h)) (\<lambda>signedHash.
    bindE (pureE (verifyMsgSignature ev signedHash (h_Validator h) masterNodes)) (\<lambda>(verified, validatorAddress).
    if \<not> verified then throwE ErrValidatorNotWithinMasternodes
    else if validatorAddress \<noteq> h_Coinbase h then throwE ErrCoinbaseAndValidatorMismatch else
    bindE (getE (\<lambda>x. masterNodes ! leaderIndex x round masterNodes)) (\<lambda>leader.
    if leader \<noteq> validatorAddress then throwE ErrNotItsTurn else returnE ())))"

section \<open>Verification\<close>

definition verifyHeader :: "env \<Rightarrow> chain \<Rightarrow> Header \<Rightarrow> Header list \<Rightarrow> bool \<Rightarrow> unit engineM" where
  "verifyHeader ev ch h parents fullVerify =
    bindE (getE x_isInitilised) (\<lambda>ini.
    bindE (if \<not> ini then initial ev ch h else returnE ()) (\<lambda>_.
    bindE (verifiedHeaders_Get (Header_Hash (keccak ev) h)) (\<lambda>known.
    if known \<noteq> None then returnE () else
    bindE (verify_form ev h fullVerify) (\<lambda>_.
    bindE (verify_parent ev ch h parents) (\<lambda>parent.
    bindE (verify_gas parent h) (\<lambda>_.
    bindE (verify_extra h) (\<lambda>(quorumCert, round).
    bindE (verify_time parent h round) (\<lambda>_.
    if round \<le> bi_Round (qc_Block quorumCert) then throwE ErrRoundInvalid else
    bindE (verifyQC ev ch (Some quorumCert) parents) (\<lambda>_.
    bindE (verify_fields ev ch parent h) (\<lambda>_.
    bindE (verify_masternodes ev ch h round fullVerify) (\<lambda>masterNodes.
    bindE (verify_proposer ev h round masterNodes) (\<lambda>_.
    if fullVerify then verifiedHeaders_Add (Header_Hash (keccak ev) h) else returnE ()))))))))))))"

definition VerifyHeader :: "env \<Rightarrow> chain \<Rightarrow> Header \<Rightarrow> bool \<Rightarrow> unit engineM" where
  "VerifyHeader ev ch h fullVerify = verifyHeader ev ch h [] fullVerify"

text \<open>
  \<open>VerifyHeaders\<close>: the results in the order they are sent.  A header is checked against the headers
  before it, whatever became of those; an abort cuts the list short, which is a shorter list of headers
  here.  An index out of range of \<open>fullVerifies\<close> is a panic.
\<close>

fun verify_headers :: "env \<Rightarrow> chain \<Rightarrow> Header list \<Rightarrow> Header list \<Rightarrow> bool list \<Rightarrow> (err + unit) list engineM" where
  "verify_headers ev ch before [] fullVerifies = returnE []"
| "verify_headers ev ch before (h # hs) [] = throwE IndexOutOfRange"
| "verify_headers ev ch before (h # hs) (full # fulls) =
     bindE (tryE (verifyHeader ev ch h before full)) (\<lambda>r.
     bindE (verify_headers ev ch (before @ [h]) hs fulls) (\<lambda>rs. returnE (r # rs)))"

definition VerifyHeaders :: "env \<Rightarrow> chain \<Rightarrow> Header list \<Rightarrow> bool list \<Rightarrow> (err + unit) list engineM" where
  "VerifyHeaders ev ch headers fullVerifies = verify_headers ev ch [] headers fullVerifies"

definition VerifyUncles :: "'b list \<Rightarrow> err + unit" where
  "VerifyUncles uncles = (if length uncles > 0 then Inl (Errorf ''uncles not allowed in XDPoS_v2'') else Inr ())"

end
