(* ===== verification/Bft.thy ===== *)
theory Bft
  imports Header_Check
begin

text \<open>
  The entry of consensus messages from peers, \<open>eth/bft/bft_handler.go\<close>: a message too far from the head
  of the chain is dropped, the others are verified, put on the broadcast channel and handled.  The
  channel is the one of the engine.
\<close>

record Bfter =
  b_epoch :: u64
  b_chainHeight :: u64
  b_quit :: bool

definition maxBlockDist :: int where
  "maxBlockDist = 7"

text \<open>The differences are those of \<open>int64\<close>.\<close>

definition dist64 :: "u64 \<Rightarrow> u64 \<Rightarrow> int" where
  "dist64 n height = sint (n - height)"

definition enqueueForBroadcast :: "Bfter \<Rightarrow> bft_msg \<Rightarrow> bool engineM" where
  "enqueueForBroadcast b msg =
    (if b_quit b then returnE False
     else bindE (putE (\<lambda>x. x\<lparr>x_BroadcastCh := x_BroadcastCh x @ [msg]\<rparr>)) (\<lambda>_. returnE True))"

definition Bfter_Vote :: "env \<Rightarrow> chain \<Rightarrow> Bfter \<Rightarrow> Vote \<Rightarrow> unit engineM" where
  "Bfter_Vote ev ch b vote =
    (let dist = dist64 (Uint64 (bi_Number (v_Block vote))) (b_chainHeight b) in
     if dist < - maxBlockDist \<or> dist > maxBlockDist then returnE () else
     bindE (VerifyVoteMessage ev ch vote) (\<lambda>(verified, vote').
     if verified then
       bindE (enqueueForBroadcast b (MVote vote')) (\<lambda>sent.
       if \<not> sent then returnE () else voteHandler ev ch vote')
     else returnE ()))"

text \<open>\<open>-int64(b.epoch)*3\<close> and \<open>int64(b.epoch)*3\<close> wrap around as well.\<close>

definition Bfter_Timeout :: "env \<Rightarrow> chain \<Rightarrow> Bfter \<Rightarrow> Timeout \<Rightarrow> unit engineM" where
  "Bfter_Timeout ev ch b timeout =
    (let dist = dist64 (t_GapNumber timeout) (b_chainHeight b) in
     if dist < sint (- b_epoch b * 3) \<or> dist > sint (b_epoch b * 3) then returnE () else
     bindE (VerifyTimeoutMessage ev ch timeout) (\<lambda>(verified, timeout').
     if verified then
       bindE (enqueueForBroadcast b (MTimeout timeout')) (\<lambda>sent.
       if \<not> sent then returnE () else timeoutHandler ev ch timeout')
     else returnE ()))"

definition Bfter_SyncInfo :: "env \<Rightarrow> chain \<Rightarrow> Bfter \<Rightarrow> SyncInfo option \<Rightarrow> unit engineM" where
  "Bfter_SyncInfo ev ch b sp = (case sp of None \<Rightarrow> returnE () | Some syncInfo \<Rightarrow>
     (case si_QC syncInfo of None \<Rightarrow> returnE () | Some qc \<Rightarrow>
     let dist = dist64 (Uint64 (bi_Number (qc_Block qc))) (b_chainHeight b) in
     if dist < - maxBlockDist \<or> dist > maxBlockDist then returnE () else
     bindE (VerifySyncInfoMessage ev ch syncInfo) (\<lambda>verified.
     if verified then
       bindE (enqueueForBroadcast b (MSyncInfo syncInfo)) (\<lambda>sent.
       if \<not> sent then returnE () else SyncInfoHandler ev ch syncInfo)
     else returnE ())))"

end
