(* ===== verification/Frames.thy ===== *)
theory Frames
  imports Bft
begin

text \<open>
  What the lookups of the engine leave alone.  Everything that reads the chain, the snapshots or the
  epochs writes only to the caches, to the snapshot database and to the note whose turn it is; \<open>same_core\<close> says so, and is proved for
  each lookup once.
\<close>

section \<open>The core of the engine\<close>

definition same_core :: "engine \<Rightarrow> engine \<Rightarrow> bool" where
  "same_core x y \<longleftrightarrow> (\<exists>w d s g e v r. y = x\<lparr>x_whosTurn := w, x_db := d, x_snapshots := s, x_signatures := g, x_epochSwitches := e,
     x_verifiedHeaders := v, x_round2epochBlockInfo := r\<rparr>)"

lemma same_coreI:
  "same_core x (x\<lparr>x_whosTurn := w, x_db := d, x_snapshots := s, x_signatures := g, x_epochSwitches := e, x_verifiedHeaders := v,
     x_round2epochBlockInfo := r\<rparr>)"
  unfolding same_core_def by blast

lemma same_core_updates:
  "same_core x (x\<lparr>x_db := d\<rparr>)" "same_core x (x\<lparr>x_snapshots := s\<rparr>)" "same_core x (x\<lparr>x_signatures := g\<rparr>)"
  "same_core x (x\<lparr>x_epochSwitches := e\<rparr>)" "same_core x (x\<lparr>x_verifiedHeaders := v\<rparr>)"
  "same_core x (x\<lparr>x_round2epochBlockInfo := r\<rparr>)" "same_core x (x\<lparr>x_whosTurn := w\<rparr>)"
  unfolding same_core_def by (cases x; simp; blast)+

interpretation core: action_preorder same_core
proof
  show "same_core s s" for s using same_core_updates(1) [of s "x_db s"] by simp
  show "same_core s t \<Longrightarrow> same_core t u \<Longrightarrow> same_core s u" for s t u
    unfolding same_core_def by force
qed

text \<open>The fields a lookup cannot change.\<close>

lemma same_core_fields:
  assumes "same_core x y"
  shows "x_config y = x_config x" "x_signer y = x_signer x" "x_signFn y = x_signFn x"
    "x_BroadcastCh y = x_BroadcastCh x" "x_timeoutPool y = x_timeoutPool x" "x_votePool y = x_votePool x"
    "x_currentRound y = x_currentRound x" "x_highestSelfMinedRound y = x_highestSelfMinedRound x"
    "x_highestVotedRound y = x_highestVotedRound x" "x_highestQuorumCert y = x_highestQuorumCert x"
    "x_lockQuorumCert y = x_lockQuorumCert x" "x_highestTimeoutCert y = x_highestTimeoutCert x"
    "x_highestCommitBlock y = x_highestCommitBlock x" "x_timeoutCount y = x_timeoutCount x"
    "x_isInitilised y = x_isInitilised x" "x_HookPenalty y = x_HookPenalty x"
  using assms by (auto simp: same_core_def)

lemma same_core_config:
  assumes "same_core x y"
  shows "xEpoch y = xEpoch x" "xGap y = xGap x" "xSwitchBlock y = xSwitchBlock x" "xSwitchEpoch y = xSwitchEpoch x"
    "epochNum_of y = epochNum_of x"
  using same_core_fields(1) [OF assms]
  by (simp_all add: xEpoch_def xGap_def xSwitchBlock_def xSwitchEpoch_def epochNum_of_def fun_eq_iff)

text \<open>The part of the state that certificates move, with the flag and the height that say whether they are read.\<close>

definition progress :: "engine \<Rightarrow> QuorumCert \<times> TimeoutCert \<times> QuorumCert option \<times> BlockInfo option \<times> Round \<times> bool \<times> int" where
  "progress x = (x_highestQuorumCert x, x_highestTimeoutCert x, x_lockQuorumCert x, x_highestCommitBlock x, x_currentRound x,
     x_isInitilised x, xSwitchBlock x)"

lemma progress_core: "same_core x y \<Longrightarrow> progress y = progress x"
  by (simp add: progress_def same_core_fields same_core_config)

section \<open>The lookups\<close>

named_theorems core_frame

lemma keeps_cache [core_frame]:
  "keeps same_core (snapshots_Get k)" "keeps same_core (snapshots_Add k sv)"
  "keeps same_core (epochSwitches_Get k)" "keeps same_core (epochSwitches_Add k ev)"
  "keeps same_core (verifiedHeaders_Get k)" "keeps same_core (verifiedHeaders_Add k)"
  "keeps same_core (round2epoch_Get rd)" "keeps same_core (round2epoch_Add rd b)"
  "keeps same_core (signatures_Get k)" "keeps same_core (signatures_Add k a)"
  unfolding snapshots_Get_def snapshots_Add_def epochSwitches_Get_def epochSwitches_Add_def verifiedHeaders_Get_def
    verifiedHeaders_Add_def round2epoch_Get_def round2epoch_Add_def signatures_Get_def signatures_Add_def
  by (auto simp: keeps_def same_core_updates split: prod.splits)

lemma core_deref [core_frame]: "keeps same_core (deref p)"
  unfolding deref_def by (intro core.keeps_rules)

lemma core_configAt [core_frame]: "keeps same_core (configAt r)"
  unfolding configAt_def by (intro core.keeps_rules core_frame)

lemma core_getExtraFields [core_frame]: "keeps same_core (getExtraFields h)"
  unfolding getExtraFields_def by (intro core.keeps_rules)

lemma core_StoreSnapshot [core_frame]: "keeps same_core (StoreSnapshot ev s)"
  unfolding StoreSnapshot_def by (intro core.keeps_rules core.keeps_putE same_core_updates)

lemma core_rebuild [core_frame]: "keeps same_core (rebuildBootstrapSnapshot ev ch n h)"
  unfolding rebuildBootstrapSnapshot_def by (intro core.keeps_rules core_frame)

lemma core_getSnapshot [core_frame]: "keeps same_core (getSnapshot ev ch n b)"
  unfolding getSnapshot_def by (intro core.keeps_rules core_frame)

lemma core_IsEpochSwitch [core_frame]: "keeps same_core (IsEpochSwitch ev h)"
  unfolding IsEpochSwitch_def by (intro core.keeps_rules core_frame)

lemma core_isEpochSwitchAtRound [core_frame]: "keeps same_core (isEpochSwitchAtRound r h)"
  unfolding isEpochSwitchAtRound_def by (intro core.keeps_rules core_frame)

lemma core_standby [core_frame]: "keeps same_core (standby_of ev ch h ms ps)"
  unfolding standby_of_def by (intro core.keeps_rules core_frame)

lemma core_epochInfo_at_switch [core_frame]: "keeps same_core (epochInfo_at_switch ev ch h hsh)"
  unfolding epochInfo_at_switch_def by (intro core.keeps_rules core_frame)

lemma core_header_for [core_frame]: "keeps same_core (header_for ev ch hs hsh)"
  unfolding header_for_def by (intro core.keeps_rules)

lemma core_epochInfo_rec [core_frame]: "keeps same_core (epochInfo_rec n ev ch hs hsh)"
proof (induction n arbitrary: hs hsh)
  case 0
  show ?case by (simp only: epochInfo_rec.simps core.keeps_throwE)
next
  case (Suc n)
  show ?case unfolding epochInfo_rec.simps(2) [of n] by (intro core.keeps_rules core_frame Suc.IH)
qed

lemma core_getEpochSwitchInfo [core_frame]: "keeps same_core (getEpochSwitchInfo ev ch hs hsh)"
  unfolding getEpochSwitchInfo_def by (rule core_epochInfo_rec)

lemma core_epochInfo_of [core_frame]: "keeps same_core (epochInfo_of ev ch hp)"
  unfolding epochInfo_of_def by (rule core_getEpochSwitchInfo)

lemma core_epochInfo_or_empty [core_frame]: "keeps same_core (epochInfo_or_empty ev ch f hp)"
  unfolding epochInfo_or_empty_def by (intro core.keeps_rules core_frame)

lemma core_GetMasternodes [core_frame]: "keeps same_core (GetMasternodes ev ch hp)"
  unfolding GetMasternodes_def by (rule core_epochInfo_or_empty)

lemma core_allowedToSend [core_frame]: "keeps same_core (allowedToSend ev ch hp)"
  unfolding allowedToSend_def by (intro core.keeps_rules core_frame)

lemma core_repair_all [core_frame]: "keeps same_core (repair_all ev ch build gs)"
proof (induction gs)
  case Nil
  show ?case by (simp only: repair_all.simps core.keeps_returnE)
next
  case (Cons g gs)
  show ?case unfolding repair_all.simps(2) repair_one_def by (intro core.keeps_rules core_frame Cons.IH)
qed

lemma core_RepairGapSnapshots [core_frame]: "keeps same_core (RepairGapSnapshots ev ch build)"
  unfolding RepairGapSnapshots_def by (intro core.keeps_rules core_frame)

lemma core_search_probe [core_frame]: "keeps same_core (search_probe ev t a b h)"
  unfolding search_probe_def by (intro core.keeps_rules core_frame)

lemma core_binarySearch [core_frame]: "keeps same_core (binarySearch n ev ch t a b)"
proof (induction n arbitrary: a b)
  case 0
  show ?case by (simp only: binarySearch.simps core.keeps_throwE)
next
  case (Suc n)
  show ?case unfolding binarySearch.simps(2) [of n] by (intro core.keeps_rules core_frame Suc.IH)
qed

lemma core_cached_rounds [core_frame]: "keeps same_core (cached_rounds r n)"
proof (induction n arbitrary: r)
  case 0
  show ?case by (simp only: cached_rounds.simps core.keeps_returnE)
next
  case (Suc n)
  show ?case unfolding cached_rounds.simps(2) [of _ n] by (intro core.keeps_rules core_frame Suc.IH)
qed

lemma core_infos_between [core_frame]: "keeps same_core (infos_between n ev ch bn hs ih inum acc)"
proof (induction n arbitrary: hs ih inum acc)
  case 0
  show ?case by (simp only: infos_between.simps core.keeps_throwE)
next
  case (Suc n)
  show ?case unfolding infos_between.simps(2) [of n] by (intro core.keeps_rules core_frame Suc.IH)
qed

lemma core_GetBlockByEpochNumber [core_frame]: "keeps same_core (GetBlockByEpochNumber ev ch t)"
  unfolding GetBlockByEpochNumber_def getBlockByEpochNumberInCache_def GetEpochSwitchInfoBetween_def
    binarySearchBlockByEpochNumber_def
  by (intro core.keeps_rules core_frame)

lemma core_VerifyBlockInfo [core_frame]: "keeps same_core (VerifyBlockInfo ev ch b hp)"
  unfolding VerifyBlockInfo_def by (intro core.keeps_rules core_frame)

lemma core_verifyQC [core_frame]: "keeps same_core (verifyQC ev ch qcp ps)"
  unfolding verifyQC_def by (intro core.keeps_rules core_frame)

lemma core_tc_epoch_block [core_frame]: "keeps same_core (tc_epoch_block n ev ch r e b)"
proof (induction n arbitrary: e b)
  case 0
  show ?case by (simp only: tc_epoch_block.simps core.keeps_returnE)
next
  case (Suc n)
  show ?case unfolding tc_epoch_block.simps(2) [of n] by (intro core.keeps_rules core_frame Suc.IH)
qed

lemma core_getTCEpochInfo [core_frame]: "keeps same_core (getTCEpochInfo ev ch r)"
  unfolding getTCEpochInfo_def by (intro core.keeps_rules core_frame)

lemma core_verifyTC [core_frame]: "keeps same_core (verifyTC ev ch tcp)"
  unfolding verifyTC_def by (intro core.keeps_rules core_frame)

lemma core_signSignature [core_frame]: "keeps same_core (signSignature h)"
  unfolding signSignature_def by (intro core.keeps_rules)

lemma core_verifyVotes [core_frame]: "keeps same_core (verifyVotes ev ch vs h)"
  unfolding verifyVotes_def by (intro core.keeps_rules core_frame)

lemma core_isExtendingFromAncestor [core_frame]: "keeps same_core (isExtendingFromAncestor ch b a)"
  unfolding isExtendingFromAncestor_def by (intro core.keeps_rules)

lemma core_verifyVotingRule [core_frame]: "keeps same_core (verifyVotingRule ch b qc)"
  unfolding verifyVotingRule_def by (intro core.keeps_rules core_frame)

lemma core_verify_messages [core_frame]:
  "keeps same_core (VerifyVoteMessage ev ch v)" "keeps same_core (VerifyTimeoutMessage ev ch t)"
  "keeps same_core (VerifySyncInfoMessage ev ch si)"
  unfolding VerifyVoteMessage_def VerifyTimeoutMessage_def VerifySyncInfoMessage_def
  by (intro core.keeps_rules core_frame)+

lemma core_calcMasternodes [core_frame]: "keeps same_core (calcMasternodes ev ch n h r)"
  unfolding calcMasternodes_def truncate_to_def by (intro core.keeps_rules core_frame)

lemma core_yourturn [core_frame]: "keeps same_core (yourturn ev ch r hp a)"
  unfolding yourturn_def by (intro core.keeps_rules core_frame core.keeps_putE same_core_updates)

lemma core_Prepare [core_frame]: "keeps same_core (Prepare ev ch h)"
  unfolding Prepare_def by (intro core.keeps_rules core_frame)

end
