(* ===== verification/Rounds.thy ===== *)
theory Rounds
  imports Frames
begin

text \<open>
  Rounds, certificates, locks and commits only move forward: the relation \<open>advances\<close>, which every entry
  point of the engine keeps, and the exact conditions under which the voted round, the lock and the
  committed block change.
\<close>

section \<open>Moving forward\<close>

definition hqc :: "engine \<Rightarrow> Round" where "hqc x = bi_Round (qc_Block (x_highestQuorumCert x))"
definition htc :: "engine \<Rightarrow> Round" where "htc x = tc_Round (x_highestTimeoutCert x)"

text \<open>A lock is only replaced by one of a later round, a commit by one of a later round and no lower number.\<close>

definition lock_le :: "QuorumCert option \<Rightarrow> QuorumCert option \<Rightarrow> bool" where
  "lock_le l l' \<longleftrightarrow> (case l of None \<Rightarrow> True | Some q \<Rightarrow> (case l' of None \<Rightarrow> False
     | Some q' \<Rightarrow> q' = q \<or> bi_Round (qc_Block q) < bi_Round (qc_Block q')))"

definition commit_le :: "BlockInfo option \<Rightarrow> BlockInfo option \<Rightarrow> bool" where
  "commit_le c c' \<longleftrightarrow> (case c of None \<Rightarrow> True | Some b \<Rightarrow> (case c' of None \<Rightarrow> False
     | Some b' \<Rightarrow> b' = b \<or> bi_Round b < bi_Round b' \<and> bi_Number b \<le> bi_Number b'))"

text \<open>
  The round after a certificate of round \<open>2 ^ 64 - 1\<close> is 0.  Until there is such a certificate, the
  current round never goes back.  An initialised engine stays initialised.
\<close>

definition advances :: "engine \<Rightarrow> engine \<Rightarrow> bool" where
  "advances x y \<longleftrightarrow> hqc x \<le> hqc y \<and> htc x \<le> htc y \<and> lock_le (x_lockQuorumCert x) (x_lockQuorumCert y) \<and>
     commit_le (x_highestCommitBlock x) (x_highestCommitBlock y) \<and>
     (x_currentRound x \<le> x_currentRound y \<or> hqc y = -1 \<or> htc y = -1) \<and>
     (x_isInitilised x \<longrightarrow> x_isInitilised y)"

lemma lock_le_refl [simp]: "lock_le l l"
  by (auto simp: lock_le_def split: option.splits)

lemma lock_le_trans: "lock_le a b \<Longrightarrow> lock_le b c \<Longrightarrow> lock_le a c"
  by (auto simp: lock_le_def split: option.splits)

lemma commit_le_refl [simp]: "commit_le c c"
  by (auto simp: commit_le_def split: option.splits)

lemma commit_le_trans: "commit_le a b \<Longrightarrow> commit_le b c \<Longrightarrow> commit_le a c"
  by (auto simp: commit_le_def split: option.splits)

lemma max_round: "(-1 :: u64) \<le> r \<longleftrightarrow> r = -1"
  by (metis word_order.extremum word_order.extremum_unique)

interpretation adv: action_preorder advances
proof
  show "advances s s" for s by (simp add: advances_def)
  show "advances s t \<Longrightarrow> advances t u \<Longrightarrow> advances s u" for s t u
    by (auto simp: advances_def max_round intro: lock_le_trans commit_le_trans order_trans)
qed

lemma advances_progress: "progress y = progress x \<Longrightarrow> advances x y"
  by (auto simp: advances_def hqc_def htc_def progress_def)

lemma advances_core: "same_core x y \<Longrightarrow> advances x y"
  by (auto simp: advances_def hqc_def htc_def same_core_fields)

lemma adv_core: "keeps same_core m \<Longrightarrow> keeps advances m"
  by (erule keeps_mono) (rule advances_core)

lemmas adv_frame = core_frame [THEN adv_core]

section \<open>Certificates\<close>

lemma next_round:
  assumes "c \<le> r" "r \<noteq> (-1 :: u64)"
  shows "c \<le> r + 1"
proof -
  have "1 + r \<noteq> 0" using assms(2) by (metis add.commute add_eq_0_iff)
  then have "unat (r + 1) = Suc (unat r)" by (simp add: unatSuc add.commute)
  with assms(1) show ?thesis by (simp add: word_le_nat_alt)
qed

text \<open>Entering the round after a certificate that is already recorded.\<close>

definition recorded :: "Round \<Rightarrow> engine \<Rightarrow> bool" where
  "recorded q x \<longleftrightarrow> q \<le> hqc x \<or> q \<le> htc x"

lemma recorded_advances: "advances x y \<Longrightarrow> recorded q x \<Longrightarrow> recorded q y"
  by (auto simp: recorded_def advances_def)

lemma advances_setNewRound:
  assumes "recorded q x" "x_currentRound x \<le> q"
  shows "advances x (snd (setNewRound ev (q + 1) x))"
proof (cases "q = -1")
  case True
  with assms(1) show ?thesis by (auto simp: setNewRound_def advances_def recorded_def hqc_def htc_def max_round)
next
  case False
  from next_round [OF assms(2) this] show ?thesis by (simp add: setNewRound_def advances_def hqc_def htc_def)
qed

definition advances_from :: "Round \<Rightarrow> engine \<Rightarrow> engine \<Rightarrow> bool" where
  "advances_from q x y \<longleftrightarrow> (recorded q x \<longrightarrow> advances x y)"

interpretation advq: action_preorder "advances_from q" for q
proof
  show "advances_from q s s" for s by (simp add: advances_from_def adv.refl)
  show "advances_from q s t \<Longrightarrow> advances_from q t u \<Longrightarrow> advances_from q s u" for s t u
    by (auto simp: advances_from_def intro: adv.trans recorded_advances)
qed

lemma advq_adv: "keeps advances m \<Longrightarrow> keeps (advances_from q) m"
  by (erule keeps_mono) (simp add: advances_from_def)

lemma advq_setNewRound:
  "keeps (advances_from q) (bindE (getE x_currentRound) (\<lambda>cur. if q \<ge> cur then setNewRound ev (q + 1) else returnE ()))"
  by (auto simp: keeps_def advances_from_def bindE_def adv.refl intro: advances_setNewRound)

lemma adv_record:
  assumes "\<And>x. recorded q (f x)" "\<And>x. advances x (f x)" "keeps (advances_from q) m"
  shows "keeps advances (bindE (putE f) (\<lambda>_. m))"
proof -
  have "advances x (snd (m (f x)))" for x
    using assms(3) adv.trans [OF assms(2)] assms(1) by (simp add: keeps_def advances_from_def)
  then show ?thesis by (simp add: keeps_def)
qed

lemma adv_processTC: "keeps advances (processTC ev tcp)"
proof (cases tcp)
  case None
  then show ?thesis unfolding processTC_def deref_def by (simp add: keeps_def adv.refl)
next
  case (Some tc)
  show ?thesis unfolding processTC_def deref_def Some option.case bindE_returnE
    by (rule adv_record [of "tc_Round tc"], auto simp: recorded_def htc_def hqc_def advances_def)
      (rule advq_setNewRound)
qed

lemma adv_SetCommittedQCs: "keeps advances (SetCommittedQCs ev p h qc)"
  unfolding SetCommittedQCs_def
  by (intro adv.keeps_rules adv.keeps_putE adv_frame) (simp add: advances_def hqc_def htc_def)

text \<open>An update that looks at the state first, and then something that moves forward.\<close>

lemma adv_get_put:
  assumes "\<And>x. b (g x) \<Longrightarrow> advances x (f x)" "keeps advances m" "keeps advances n"
  shows "keeps advances (bindE (getE g) (\<lambda>a. if b a then bindE (putE f) (\<lambda>_. m) else n))"
proof -
  have "advances x (snd (m (f x)))" if "b (g x)" for x
    using adv.trans [OF assms(1) [OF that]] assms(2) by (simp add: keeps_def)
  then show ?thesis using assms(3) by (simp add: keeps_def)
qed

lemma adv_get_put':
  assumes "\<And>x. \<not> b (g x) \<Longrightarrow> advances x (f x)" "keeps advances m" "keeps advances n"
  shows "keeps advances (bindE (getE g) (\<lambda>a. if b a then n else bindE (putE f) (\<lambda>_. m)))"
proof -
  have "advances x (snd (m (f x)))" if "\<not> b (g x)" for x
    using adv.trans [OF assms(1) [OF that]] assms(2) by (simp add: keeps_def)
  then show ?thesis using assms(3) by (simp add: keeps_def)
qed

lemma adv_commitBlocks: "keeps advances (commitBlocks ev ch h r qc)"
  unfolding commitBlocks_def
  by (intro adv.keeps_rules adv_frame adv_get_put' adv_SetCommittedQCs)
    (auto simp: advances_def hqc_def htc_def commit_le_def split: option.splits)

lemma adv_lock:
  "keeps advances (bindE (getE x_lockQuorumCert) (\<lambda>lck. bindE (deref pqc) (\<lambda>qc.
     bindE (if (case lck of None \<Rightarrow> True | Some l \<Rightarrow> bi_Round (qc_Block qc) > bi_Round (qc_Block l))
       then putE (\<lambda>x. x\<lparr>x_lockQuorumCert := Some qc\<rparr>) else returnE ()) (\<lambda>_. m qc))))"
  if "\<And>qc. keeps advances (m qc)"
proof (cases pqc)
  case None
  then show ?thesis by (simp add: deref_def keeps_def adv.refl)
next
  case (Some qc)
  let ?b = "\<lambda>lck. case lck of None \<Rightarrow> True | Some l \<Rightarrow> bi_Round (qc_Block qc) > bi_Round (qc_Block l)"
  let ?f = "\<lambda>x. x\<lparr>x_lockQuorumCert := Some qc\<rparr>"
  have "keeps advances (bindE (getE x_lockQuorumCert) (\<lambda>lck. if ?b lck then bindE (putE ?f) (\<lambda>_. m qc) else m qc))"
    by (rule adv_get_put) (auto simp: that advances_def hqc_def htc_def lock_le_def split: option.splits)
  then show ?thesis by (simp add: Some deref_def if_distrib [of "\<lambda>a. bindE a _"] cong: if_cong)
qed

lemma adv_processQC: "keeps advances (processQC ev ch qcp)"
proof (cases qcp)
  case None
  then show ?thesis unfolding processQC_def deref_def by (simp add: keeps_def adv.refl)
next
  case (Some qc)
  show ?thesis unfolding processQC_def Some deref_def option.case bindE_returnE Let_def
  proof (rule adv_record [of "bi_Round (qc_Block qc)"])
    show "keeps (advances_from (bi_Round (qc_Block qc))) (case GetHeaderByHash ch (bi_Hash (qc_Block qc)) of
      None \<Rightarrow> throwE (Errorf ''block not found'')
    | Some h \<Rightarrow> bindE (getE xSwitchBlock) (\<lambda>sb.
      bindE (if h_Number h > sb then
          bindE (getExtraFields h) (\<lambda>(pqc, round, _).
          bindE (getE x_lockQuorumCert) (\<lambda>lck.
          bindE (case pqc of None \<Rightarrow> throwE NilPointer | Some a \<Rightarrow> returnE a) (\<lambda>pq.
          bindE (if (case lck of None \<Rightarrow> True | Some l \<Rightarrow> bi_Round (qc_Block pq) > bi_Round (qc_Block l))
              then putE (\<lambda>x. x\<lparr>x_lockQuorumCert := Some pq\<rparr>) else returnE ()) (\<lambda>_.
          bindE (commitBlocks ev ch h round qc) (\<lambda>_. returnE ())))))
        else returnE ()) (\<lambda>_.
      bindE (getE x_currentRound) (\<lambda>cur.
      if bi_Round (qc_Block qc) \<ge> cur then setNewRound ev (bi_Round (qc_Block qc) + 1) else returnE ()))))"
      by (intro advq_setNewRound advq_adv [OF adv_lock [unfolded deref_def]] adv_frame [THEN advq_adv]
          adv.keeps_bindE adv_commitBlocks adv.keeps_returnE advq.keeps_rules)
  qed (auto simp: recorded_def htc_def hqc_def advances_def)
qed

section \<open>The voted round\<close>

text \<open>
  The processing of certificates and of collected votes neither votes nor sends anything; the other
  handlers send, but only \<open>sendVote\<close> changes the voted round.
\<close>

definition quiet :: "engine \<Rightarrow> engine \<Rightarrow> bool" where
  "quiet x y \<longleftrightarrow> x_highestVotedRound y = x_highestVotedRound x \<and> x_BroadcastCh y = x_BroadcastCh x \<and>
     x_signFn y = x_signFn x \<and> x_signer y = x_signer x \<and> x_config y = x_config x"

interpretation quiet: action_preorder quiet
  by unfold_locales (auto simp: quiet_def)

lemma quiet_core: "keeps same_core m \<Longrightarrow> keeps quiet m"
  by (erule keeps_mono) (simp add: quiet_def same_core_fields)

lemmas quiet_frame = core_frame [THEN quiet_core]

lemma quiet_putE: "(\<And>x. quiet x (f x)) \<Longrightarrow> keeps quiet (putE f)"
  by (rule quiet.keeps_putE)

lemma quiet_processQC: "keeps quiet (processQC ev ch qcp)"
  unfolding processQC_def commitBlocks_def SetCommittedQCs_def setNewRound_def
  by (intro quiet_frame quiet_putE quiet.keeps_rules) (simp_all add: quiet_def)

lemma quiet_processTC: "keeps quiet (processTC ev tcp)"
  unfolding processTC_def setNewRound_def by (intro quiet_frame quiet_putE quiet.keeps_rules) (simp_all add: quiet_def)

lemma quiet_pools: "keeps quiet (votePool_Add ev v)" "keeps quiet (timeoutPool_Add ev t)"
  by (auto simp: votePool_Add_def timeoutPool_Add_def keeps_def quiet_def split: prod.splits)

lemma quiet_voteHandler: "keeps quiet (voteHandler ev ch v)"
  unfolding voteHandler_def onVotePoolThresholdReached_def
  by (intro quiet_frame quiet_pools quiet_processQC quiet_putE quiet.keeps_rules) (simp_all add: quiet_def)

definition same_voted :: "engine \<Rightarrow> engine \<Rightarrow> bool" where
  "same_voted x y \<longleftrightarrow> x_highestVotedRound y = x_highestVotedRound x"

interpretation unvoted: action_preorder same_voted
  by unfold_locales (auto simp: same_voted_def)

lemma unvoted_quiet: "keeps quiet m \<Longrightarrow> keeps same_voted m"
  by (erule keeps_mono) (simp add: quiet_def same_voted_def)

lemmas unvoted_frame = quiet_frame [THEN unvoted_quiet] quiet_pools [THEN unvoted_quiet]
  quiet_voteHandler [THEN unvoted_quiet] quiet_processQC [THEN unvoted_quiet] quiet_processTC [THEN unvoted_quiet]

lemma unvoted_putE: "(\<And>x. x_highestVotedRound (f x) = x_highestVotedRound x) \<Longrightarrow> keeps same_voted (putE f)"
  by (rule unvoted.keeps_putE) (simp add: same_voted_def)

lemma unvoted_timeoutHandler: "keeps same_voted (timeoutHandler ev ch t)"
  unfolding timeoutHandler_def onTimeoutPoolThresholdReached_def broadcastToBftChannel_def
  by (intro unvoted_frame unvoted_putE unvoted.keeps_rules) simp_all

lemma unvoted_OnCountdownTimeout: "keeps same_voted (OnCountdownTimeout ev ch)"
  unfolding OnCountdownTimeout_def sendTimeout_def broadcastToBftChannel_def
  by (intro unvoted_frame unvoted_timeoutHandler unvoted_putE unvoted.keeps_rules) simp_all

lemma unvoted_Bfter:
  "keeps same_voted (Bfter_Vote ev ch b v)" "keeps same_voted (Bfter_Timeout ev ch b t)"
  "keeps same_voted (Bfter_SyncInfo ev ch b si)"
  unfolding Bfter_Vote_def Bfter_Timeout_def Bfter_SyncInfo_def enqueueForBroadcast_def SyncInfoHandler_def
  by (intro unvoted_frame unvoted_timeoutHandler unvoted_putE unvoted.keeps_rules; simp)+

lemma unvoted_Seal: "keeps same_voted (Seal ev ch b h)"
  unfolding Seal_def by (intro unvoted_frame unvoted_putE unvoted.keeps_rules) simp_all

lemma unvoted_UpdateParams: "keeps same_voted (UpdateParams h)"
  unfolding UpdateParams_def by (intro unvoted_frame unvoted_putE unvoted.keeps_rules) simp_all

lemma unvoted_hygiene: "keeps same_voted hygieneVotePool" "keeps same_voted hygieneTimeoutPool"
  unfolding hygieneVotePool_def hygieneTimeoutPool_def by (rule unvoted_putE; simp)+

lemma unvoted_initial: "keeps same_voted (initial ev ch h)"
  unfolding initial_def initial_QC_def initial_snapshot_def
  by (intro unvoted_frame unvoted_putE unvoted.keeps_rules) simp_all

end
