(* ===== verification/Types_Laws.thy ===== *)
theory Types_Laws
  imports Rlp_Laws Types_V2
begin

text \<open>
  The codec of the extra fields of a header: what \<open>ExtraFields_EncodeToBytes\<close> writes,
  \<open>DecodeBytesExtraFields\<close> reads back, and it accepts nothing else.  What a vote or a timeout signs is an
  injective encoding of it.
\<close>

section \<open>Words as bytes\<close>

lemma word_of_bytes_of_word [simp]:
  assumes "LENGTH('a::len) \<le> 8 * k"
  shows "word_of_bytes (bytes_of_word k (w :: 'a word)) = w"
proof -
  have "(2 :: nat) ^ LENGTH('a) \<le> 256 ^ k"
    using assms power_increasing [of "LENGTH('a)" "8 * k" "2 :: nat"] by (simp add: power_mult)
  then have "unat w < 256 ^ k" using unat_lt2p [of w] by linarith
  then show ?thesis by (simp add: word_of_bytes_def bytes_of_word_def nat_of_be_of_nat)
qed

lemma bytes_of_word_of_bytes:
  assumes "LENGTH('a::len) = 8 * length b"
  shows "bytes_of_word (length b) (word_of_bytes b :: 'a word) = b"
proof -
  have "(256 :: nat) ^ length b = 2 ^ LENGTH('a)" using assms by (simp add: power_mult)
  then have "unat (word_of_bytes b :: 'a word) = nat_of_be b"
    using nat_of_be_less [of b] by (simp add: word_of_bytes_def unat_of_nat take_bit_nat_eq_self)
  then show ?thesis by (simp add: bytes_of_word_def)
qed

lemma length_bytes_of_word [simp]: "length (bytes_of_word k w) = k"
  by (simp add: bytes_of_word_def)

section \<open>The codecs of the fields\<close>

text \<open>A record is what its fields are.\<close>

lemma record_eqs:
  "b = \<lparr>bi_Hash = h, bi_Round = r, bi_Number = n\<rparr> \<longleftrightarrow> bi_Hash b = h \<and> bi_Round b = r \<and> bi_Number b = n"
  "q = \<lparr>qc_Block = c, qc_Signatures = ss, qc_GapNumber = g\<rparr> \<longleftrightarrow> qc_Block q = c \<and> qc_Signatures q = ss \<and> qc_GapNumber q = g"
  "e = \<lparr>ex_Round = r', ex_QC = p\<rparr> \<longleftrightarrow> ex_Round e = r' \<and> ex_QC e = p"
  by (cases b, simp) (cases q, simp, cases e, simp)

lemma rlp_codec_eq:
  assumes "rlp_codec d e D" "\<And>x. e x = e' x" "\<And>x. D x \<longleftrightarrow> D' x"
  shows "rlp_codec d e' D'"
proof -
  have "e = e'" "D = D'" using assms(2,3) by auto
  with assms(1) show ?thesis by simp
qed

text \<open>The field \<open>g\<close> of a struct and the fields after it.\<close>

lemma rlp_reader_struct_field:
  assumes "rlp_codec d e1 D1" "\<And>a. rlp_reader (d2 a) e2 (D2 a)"
    and "\<And>a x. D2 a x \<Longrightarrow> g x = a" "\<And>x. e x = e1 (g x) @ e2 x" "\<And>x. D x \<longleftrightarrow> D1 (g x) \<and> D2 (g x) x"
  shows "rlp_reader (bindE (decodeField d) d2) e D"
proof -
  have "e = (\<lambda>x. e1 (g x) @ e2 x)" "D = (\<lambda>x. D1 (g x) \<and> D2 (g x) x)" using assms(4,5) by auto
  with rlp_reader_bind [where g = g, OF rlp_reader_field [OF assms(1)] assms(2) assms(3)] show ?thesis by simp
qed

definition enc_hash :: "hash \<Rightarrow> bytes" where
  "enc_hash h = enc_str (bytes_of_word 32 h)"

interpretation hash_field: rlp_codec decodeHash enc_hash "\<lambda>_. True"
proof -
  have arr: "rlp_codec (decodeByteArray 32) enc_str (\<lambda>b. length b = 32 \<and> (32 :: nat) < 2 ^ 64)"
    by (rule byte_array_codec) simp
  have "rlp_reader decodeHash (\<lambda>h. enc_str (bytes_of_word 32 h) @ [])
      (\<lambda>h. (length (bytes_of_word 32 h) = 32 \<and> (32 :: nat) < 2 ^ 64) \<and> h = word_of_bytes (bytes_of_word 32 h))"
    unfolding decodeHash_def
    by (rule rlp_reader_bind [OF rlp_codec.axioms(1) [OF arr] rlp_reader_return])
      (use bytes_of_word_of_bytes [where 'a = 256] in force)
  then have "rlp_reader decodeHash enc_hash (\<lambda>_. True)" by (simp add: enc_hash_def [abs_def])
  then show "rlp_codec decodeHash enc_hash (\<lambda>_. True)"
    by (intro rlp_codec.intro rlp_codec_axioms.intro)
      (auto simp: enc_hash_def decodeHash_def rlp_codec.at_EOL [OF arr])
qed

definition BlockInfo_payload :: "BlockInfo \<Rightarrow> bytes" where
  "BlockInfo_payload b = enc_hash (bi_Hash b) @ enc_nat (unat (bi_Round b)) @ enc_nat (nat (bi_Number b))"

text \<open>The length bounds below are those of a byte slice.\<close>

definition BlockInfo_ok :: "BlockInfo \<Rightarrow> bool" where
  "BlockInfo_ok b \<longleftrightarrow> 0 \<le> bi_Number b \<and> byte_len (nat (bi_Number b)) < 2 ^ 64 \<and> length (BlockInfo_payload b) < 2 ^ 64"

lemmas plain_fields = hash_field.rlp_codec_axioms uint_field.rlp_codec_axioms big_field.rlp_codec_axioms

interpretation block_info: rlp_codec decodeBlockInfo "\<lambda>b. enc_list (BlockInfo_payload b)" BlockInfo_ok
proof -
  have n: "rlp_reader (bindE (decodeField decodeBigInt) (\<lambda>n. returnE \<lparr>bi_Hash = h, bi_Round = r, bi_Number = n\<rparr>))
      (\<lambda>b. enc_nat (nat (bi_Number b)))
      (\<lambda>b. bi_Hash b = h \<and> bi_Round b = r \<and> 0 \<le> bi_Number b \<and> byte_len (nat (bi_Number b)) < 2 ^ 64)" for h r
    by (rule rlp_reader_struct_field [where g = bi_Number, OF plain_fields(3) rlp_reader_return]) (auto simp: record_eqs)
  have r: "rlp_reader (bindE (decodeField decodeUint) (\<lambda>r. bindE (decodeField decodeBigInt)
      (\<lambda>n. returnE \<lparr>bi_Hash = h, bi_Round = r, bi_Number = n\<rparr>)))
      (\<lambda>b. enc_nat (unat (bi_Round b)) @ enc_nat (nat (bi_Number b)))
      (\<lambda>b. bi_Hash b = h \<and> 0 \<le> bi_Number b \<and> byte_len (nat (bi_Number b)) < 2 ^ 64)" for h
    by (rule rlp_reader_struct_field [where g = bi_Round, OF plain_fields(2) n]) auto
  have h: "rlp_reader (bindE (decodeField decodeHash) (\<lambda>h. bindE (decodeField decodeUint) (\<lambda>r.
      bindE (decodeField decodeBigInt) (\<lambda>n. returnE \<lparr>bi_Hash = h, bi_Round = r, bi_Number = n\<rparr>)))) BlockInfo_payload
      (\<lambda>b. 0 \<le> bi_Number b \<and> byte_len (nat (bi_Number b)) < 2 ^ 64)"
    by (rule rlp_reader_struct_field [where g = bi_Hash, OF plain_fields(1) r]) (auto simp: BlockInfo_payload_def)
  show "rlp_codec decodeBlockInfo (\<lambda>b. enc_list (BlockInfo_payload b)) BlockInfo_ok"
    unfolding decodeBlockInfo_def by (rule rlp_codec_eq [OF rlp_codec_struct [OF h]]) (auto simp: BlockInfo_ok_def)
qed

definition QuorumCert_payload :: "QuorumCert \<Rightarrow> bytes" where
  "QuorumCert_payload q = enc_list (BlockInfo_payload (qc_Block q)) @ enc_list (concat (map enc_str (qc_Signatures q))) @
     enc_nat (unat (qc_GapNumber q))"

definition QuorumCert_ok :: "QuorumCert \<Rightarrow> bool" where
  "QuorumCert_ok q \<longleftrightarrow> BlockInfo_ok (qc_Block q) \<and> (\<forall>sig \<in> set (qc_Signatures q). length sig < 2 ^ 64) \<and>
     length (concat (map enc_str (qc_Signatures q))) < 2 ^ 64 \<and> length (QuorumCert_payload q) < 2 ^ 64"

interpretation quorum_cert: rlp_codec decodeQuorumCert "\<lambda>q. enc_list (QuorumCert_payload q)" QuorumCert_ok
proof -
  note sigs = rlp_codec_slice [OF signature.rlp_elem_axioms]
  let ?ok = "\<lambda>q. (\<forall>sig \<in> set (qc_Signatures q). length sig < 2 ^ 64) \<and> length (concat (map enc_str (qc_Signatures q))) < 2 ^ 64"
  have g: "rlp_reader (bindE (decodeField decodeUint) (\<lambda>g. returnE \<lparr>qc_Block = b, qc_Signatures = ss, qc_GapNumber = g\<rparr>))
      (\<lambda>q. enc_nat (unat (qc_GapNumber q))) (\<lambda>q. qc_Block q = b \<and> qc_Signatures q = ss)" for b ss
    by (rule rlp_reader_struct_field [where g = qc_GapNumber, OF plain_fields(2) rlp_reader_return]) (auto simp: record_eqs)
  have s: "rlp_reader (bindE (decodeField (decodeListSlice decodeByteSlice)) (\<lambda>ss. bindE (decodeField decodeUint)
      (\<lambda>g. returnE \<lparr>qc_Block = b, qc_Signatures = ss, qc_GapNumber = g\<rparr>)))
      (\<lambda>q. enc_list (concat (map enc_str (qc_Signatures q))) @ enc_nat (unat (qc_GapNumber q)))
      (\<lambda>q. qc_Block q = b \<and> ?ok q)" for b
    by (rule rlp_reader_struct_field [where g = qc_Signatures, OF sigs g]) auto
  have b: "rlp_reader (bindE (decodeField decodeBlockInfo) (\<lambda>b. bindE (decodeField (decodeListSlice decodeByteSlice))
      (\<lambda>ss. bindE (decodeField decodeUint) (\<lambda>g. returnE \<lparr>qc_Block = b, qc_Signatures = ss, qc_GapNumber = g\<rparr>))))
      QuorumCert_payload (\<lambda>q. BlockInfo_ok (qc_Block q) \<and> ?ok q)"
    by (rule rlp_reader_struct_field [where g = qc_Block, OF block_info.rlp_codec_axioms s]) (auto simp: QuorumCert_payload_def)
  show "rlp_codec decodeQuorumCert (\<lambda>q. enc_list (QuorumCert_payload q)) QuorumCert_ok"
    unfolding decodeQuorumCert_def by (rule rlp_codec_eq [OF rlp_codec_struct [OF b]]) (auto simp: QuorumCert_ok_def)
qed

definition ExtraFields_payload :: "ExtraFields_v2 \<Rightarrow> bytes" where
  "ExtraFields_payload e = enc_nat (unat (ex_Round e)) @ enc_list (QuorumCert_payload (the (ex_QC e)))"

definition ExtraFields_ok :: "ExtraFields_v2 \<Rightarrow> bool" where
  "ExtraFields_ok e \<longleftrightarrow> (\<exists>q. ex_QC e = Some q \<and> QuorumCert_ok q) \<and> length (ExtraFields_payload e) < 2 ^ 64"

interpretation extra_fields: rlp_codec decodeExtraFields "\<lambda>e. enc_list (ExtraFields_payload e)" ExtraFields_ok
proof -
  have q: "rlp_reader (bindE (decodeField decodeQuorumCert) (\<lambda>q. returnE \<lparr>ex_Round = r, ex_QC = Some q\<rparr>))
      (\<lambda>e. enc_list (QuorumCert_payload (the (ex_QC e)))) (\<lambda>e. ex_Round e = r \<and> (\<exists>q. ex_QC e = Some q \<and> QuorumCert_ok q))" for r
    by (rule rlp_reader_struct_field [where g = "\<lambda>e. the (ex_QC e)", OF quorum_cert.rlp_codec_axioms rlp_reader_return]) (auto simp: record_eqs)
  have e: "rlp_reader (bindE (decodeField decodeUint) (\<lambda>r. bindE (decodeField decodeQuorumCert)
      (\<lambda>q. returnE \<lparr>ex_Round = r, ex_QC = Some q\<rparr>))) ExtraFields_payload (\<lambda>e. \<exists>q. ex_QC e = Some q \<and> QuorumCert_ok q)"
    by (rule rlp_reader_struct_field [where g = ex_Round, OF plain_fields(2) q]) (auto simp: ExtraFields_payload_def)
  show "rlp_codec decodeExtraFields (\<lambda>e. enc_list (ExtraFields_payload e)) ExtraFields_ok"
    unfolding decodeExtraFields_def by (rule rlp_codec_eq [OF rlp_codec_struct [OF e]]) (auto simp: ExtraFields_ok_def)
qed

section \<open>The writers\<close>

lemma emits_writeHash: "emits (writeHash h) (enc_hash h)"
  unfolding writeHash_def enc_hash_def by (rule emits_writeByteArray) simp_all

lemma emits_writeBlockInfo:
  assumes "BlockInfo_ok b"
  shows "emits (writeBlockInfo b) (enc_list (BlockInfo_payload b))"
  using emits_writeStruct [of "[writeHash (bi_Hash b), writeUint64 (bi_Round b), writeBigIntPtr (Some (bi_Number b))]"
      "[enc_hash (bi_Hash b), enc_nat (unat (bi_Round b)), enc_nat (nat (bi_Number b))]"] assms
  by (simp add: writeBlockInfo_def BlockInfo_payload_def BlockInfo_ok_def emits_writeHash emits_writeUint64 emits_writeBigIntPtr)

lemma emits_writeQuorumCert:
  assumes "QuorumCert_ok q"
  shows "emits (writeQuorumCert q) (enc_list (QuorumCert_payload q))"
proof -
  have "emits (writeSlice writeBytes (qc_Signatures q)) (enc_list (concat (map enc_str (qc_Signatures q))))"
    using assms by (intro emits_writeSlice emits_writeBytes) (auto simp: QuorumCert_ok_def)
  then show ?thesis
    using emits_writeStruct [of "[writeBlockInfo (qc_Block q), writeSlice writeBytes (qc_Signatures q), writeUint64 (qc_GapNumber q)]"
        "[enc_list (BlockInfo_payload (qc_Block q)), enc_list (concat (map enc_str (qc_Signatures q))), enc_nat (unat (qc_GapNumber q))]"]
      assms
    by (simp add: writeQuorumCert_def QuorumCert_payload_def QuorumCert_ok_def emits_writeBlockInfo emits_writeUint64)
qed

lemma emits_writeExtraFields:
  assumes "ExtraFields_ok e"
  shows "emits (writeExtraFields e) (enc_list (ExtraFields_payload e))"
proof -
  from assms obtain q where q: "ex_QC e = Some q" "QuorumCert_ok q" by (auto simp: ExtraFields_ok_def)
  with emits_writeStruct [of "[writeUint64 (ex_Round e), writeQuorumCert q]"
      "[enc_nat (unat (ex_Round e)), enc_list (QuorumCert_payload q)]"] assms
  show ?thesis
    by (simp add: writeExtraFields_def writePtr_def ExtraFields_payload_def ExtraFields_ok_def emits_writeQuorumCert emits_writeUint64)
qed

lemma encode_ok: "ExtraFields_ok e \<Longrightarrow> ExtraFields_EncodeToBytes e = Inr (2 # enc_list (ExtraFields_payload e))"
  by (simp add: ExtraFields_EncodeToBytes_def emits_EncodeToBytes [OF emits_writeExtraFields])

section \<open>The length of an encoding\<close>

text \<open>\<open>w\<close> adds at least \<open>k\<close> bytes of string data whenever it succeeds.\<close>

definition grows :: "nat \<Rightarrow> writer \<Rightarrow> bool" where
  "grows k w \<longleftrightarrow> (\<forall>buf buf'. w buf = (Inr (), buf') \<longrightarrow> length (str buf) + k \<le> length (str buf'))"

lemma growsD: "grows k w \<Longrightarrow> w buf = (Inr (), buf') \<Longrightarrow> length (str buf) + k \<le> length (str buf')"
  by (simp add: grows_def)

lemma grows_append: "grows (length b) (append_str b)"
  by (auto simp: grows_def append_str_def)

lemma grows_bindE: "grows j v \<Longrightarrow> grows k w \<Longrightarrow> grows (j + k) (bindE v (\<lambda>_. w))"
  by (fastforce simp: grows_def elim!: bindE_InrE)

lemma grows_mono: "grows k w \<Longrightarrow> j \<le> k \<Longrightarrow> grows j w"
  by (fastforce simp: grows_def)

lemma grows_header: "grows 1 (encodeStringHeader n)"
  using grows_mono [OF grows_append] by (auto simp: encodeStringHeader_def Let_def)

lemma grows_fields: "list_all2 grows ks ws \<Longrightarrow> grows (sum_list ks) (write_fields ws)"
  by (induction rule: list_all2_induct) (auto simp: grows_bindE, simp add: grows_def)

lemma grows_struct: "list_all2 grows ks ws \<Longrightarrow> grows (sum_list ks) (writeStruct ws)"
  using growsD [OF grows_fields]
  by (fastforce simp: grows_def writeStruct_def list_begin_def listEnd_def Let_def elim!: bindE_InrE)

lemma grows_writeBytes: "grows (max (Suc 0) (length b)) (writeBytes b)"
proof -
  have "grows (1 + length b) (bindE (encodeStringHeader (length b)) (\<lambda>_. append_str b))"
    by (intro grows_bindE grows_header grows_append)
  then have "grows (max (Suc 0) (length b)) (bindE (encodeStringHeader (length b)) (\<lambda>_. append_str b))"
    by (rule grows_mono) simp
  with grows_append [of "[b ! 0]"] show ?thesis by (simp add: writeBytes_def)
qed

lemma copy_heads_longer: "length s - p \<le> length (copy_heads s p hs)"
proof (induction hs arbitrary: p)
  case (Cons h hs)
  from Cons.IH [of "p + (offset h - p)"] show ?case by simp
qed simp

lemma grows_EncodeToBytes: "grows k w \<Longrightarrow> EncodeToBytes w = Inr b \<Longrightarrow> k \<le> length b"
  using copy_heads_longer [of _ 0]
  by (fastforce simp: EncodeToBytes_def makeBytes_def reset_buf_def grows_def split: prod.splits sum.splits dest: le_trans)

lemma length_puthead_le: "length (puthead a b n) \<le> 9"
  using byte_len_u64 [of n] by (simp add: length_puthead headsize_def intsize_def)

lemma length_enc_str_le: "length (enc_str b) \<le> 9 + length b"
  using length_puthead_le [of "0x80" "0xB7" "of_nat (length b)"] by (simp add: enc_str_def)

lemma length_enc_list_le: "length (enc_list p) \<le> 9 + length p"
  using length_puthead_le [of "0xC0" "0xF7" "of_nat (length p)"] by (simp add: enc_list_def)

lemma length_enc_nat_le: "length (enc_nat n) \<le> 9 + byte_len n"
  using length_enc_str_le [of "be_of_nat (byte_len n) n"] by (simp add: enc_nat_def)

lemma length_concat_enc_str_le:
  "length (concat (map enc_str ss)) \<le> 10 * sum_list (map (\<lambda>sig. max (Suc 0) (length sig)) ss)"
proof (induction ss)
  case (Cons b ss)
  then show ?case using length_enc_str_le [of b] by (simp add: max_def)
qed simp

lemma grows_any: "grows k w \<Longrightarrow> grows 0 w"
  by (erule grows_mono) simp

lemma grows_writeUint64: "grows 0 (writeUint64 i)"
  by (auto simp: writeUint64_def Let_def intro: grows_any [OF grows_append])

lemma grows_throwE: "grows k (throwE e)"
  by (simp add: grows_def)

lemma grows_writeBigIntPtr: "grows (byte_len (nat i) - 8) (writeBigIntPtr (Some i))"
proof (cases "nat i < 2 ^ 64")
  case True
  then have "byte_len (nat i) \<le> 8" by (intro byte_len_le) simp
  with True grows_writeUint64 [of "of_int i"] show ?thesis
    by (simp add: writeBigIntPtr_def writeBigInt_def grows_throwE)
next
  case False
  let ?n = "byte_len (nat i)"
  have "grows (1 + ?n) (bindE (encodeStringHeader ?n) (\<lambda>_. append_str (be_of_nat ?n (nat i))))"
    using grows_bindE [OF grows_header grows_append [of "be_of_nat ?n (nat i)"]] by simp
  then have "grows (?n - 8) (bindE (encodeStringHeader ?n) (\<lambda>_. append_str (be_of_nat ?n (nat i))))"
    by (rule grows_mono) simp
  with False show ?thesis by (simp add: writeBigIntPtr_def writeBigInt_def Let_def grows_throwE)
qed

lemma grows_writeQuorumCert:
  "grows (byte_len (nat (bi_Number (qc_Block q))) - 8 + sum_list (map (\<lambda>sig. max (Suc 0) (length sig)) (qc_Signatures q)))
     (writeQuorumCert q)"
proof -
  have "grows 0 (writeHash h)" for h
    unfolding writeHash_def writeByteArray_def using grows_bindE [OF grows_header grows_append] by (rule grows_any)
  then have b: "grows (byte_len (nat (bi_Number (qc_Block q))) - 8) (writeBlockInfo (qc_Block q))"
    using grows_struct [of "[0, 0, byte_len (nat (bi_Number (qc_Block q))) - 8]"]
    by (simp add: writeBlockInfo_def grows_writeUint64 grows_writeBigIntPtr)
  have "grows (sum_list (map (\<lambda>sig. max (Suc 0) (length sig)) ss)) (writeStruct (map writeBytes ss))" for ss
    by (rule grows_struct) (simp add: list_all2_conv_all_nth grows_writeBytes)
  then have s: "grows (sum_list (map (\<lambda>sig. max (Suc 0) (length sig)) (qc_Signatures q))) (writeSlice writeBytes (qc_Signatures q))"
    using grows_any [OF grows_append] by (auto simp: writeSlice_def)
  show ?thesis
    using grows_struct [of "[_, _, 0]" "[writeBlockInfo (qc_Block q), writeSlice writeBytes (qc_Signatures q), writeUint64 (qc_GapNumber q)]"]
      b s by (simp add: writeQuorumCert_def grows_writeUint64)
qed

lemma written_number:
  assumes "writeQuorumCert q buf = (Inr (), buf')"
  shows "0 \<le> bi_Number (qc_Block q)"
proof (rule ccontr)
  assume "\<not> ?thesis"
  then have "\<And>b r. writeBigIntPtr (Some (bi_Number (qc_Block q))) b \<noteq> (Inr (), r)" by (simp add: writeBigIntPtr_def)
  with assms show False by (auto simp: writeQuorumCert_def writeBlockInfo_def writeStruct_def elim!: bindE_InrE)
qed

text \<open>What fits into the extra field of a header is within all the bounds of the codec.\<close>

lemma encoded_ok:
  assumes "EncodeToBytes (writeExtraFields e) = Inr b" "ex_QC e = Some q" "length b \<le> 20 * 1024"
  shows "ExtraFields_ok e"
proof -
  let ?n = "byte_len (nat (bi_Number (qc_Block q)))" and ?s = "sum_list (map (\<lambda>sig. max (Suc 0) (length sig)) (qc_Signatures q))"
  have "grows (0 + (?n - 8 + ?s)) (writeExtraFields e)"
    using grows_struct [of "[0, ?n - 8 + ?s]" "[writeUint64 (ex_Round e), writeQuorumCert q]"] assms(2)
    by (simp add: writeExtraFields_def writePtr_def grows_writeUint64 grows_writeQuorumCert)
  from grows_EncodeToBytes [OF this assms(1)] assms(3) have n: "?n \<le> 20488" and s: "?s \<le> 20480" by linarith+
  from assms(1,2) have num: "0 \<le> bi_Number (qc_Block q)"
    by (auto simp: EncodeToBytes_def writeExtraFields_def writePtr_def writeStruct_def
        elim!: bindE_InrE split: prod.splits sum.splits dest!: written_number)
  have hash: "length (enc_hash h) \<le> 41" for h
    using length_enc_str_le [of "bytes_of_word 32 h"] by (simp add: enc_hash_def)
  have u: "length (enc_nat (unat (i :: u64))) \<le> 17" for i
    using length_enc_nat_le [of "unat i"] byte_len_u64 [of i] by linarith
  have p1: "length (BlockInfo_payload (qc_Block q)) \<le> 21000"
    using hash [of "bi_Hash (qc_Block q)"] u [of "bi_Round (qc_Block q)"] length_enc_nat_le [of "nat (bi_Number (qc_Block q))"] n
    by (simp add: BlockInfo_payload_def)
  have c: "length (concat (map enc_str (qc_Signatures q))) \<le> 204800"
    using length_concat_enc_str_le [of "qc_Signatures q"] s by linarith
  have p2: "length (QuorumCert_payload q) \<le> 300000"
    using p1 c u [of "qc_GapNumber q"] length_enc_list_le [of "BlockInfo_payload (qc_Block q)"]
      length_enc_list_le [of "concat (map enc_str (qc_Signatures q))"]
    by (simp add: QuorumCert_payload_def)
  have p3: "length (ExtraFields_payload e) \<le> 400000"
    using p2 u [of "ex_Round e"] length_enc_list_le [of "QuorumCert_payload q"] assms(2)
    by (simp add: ExtraFields_payload_def)
  have sig: "length sig \<le> ?s" if "sig \<in> set (qc_Signatures q)" for sig
    using member_le_sum_list [of "max (Suc 0) (length sig)" "map (\<lambda>sig. max (Suc 0) (length sig)) (qc_Signatures q)"] that by simp
  have "\<forall>sig \<in> set (qc_Signatures q). length sig < 2 ^ 64" using sig s by fastforce
  with num n p1 c p2 p3 assms(2) show ?thesis
    by (simp add: ExtraFields_ok_def QuorumCert_ok_def BlockInfo_ok_def)
qed

section \<open>The extra fields\<close>

lemma extra_fields_codec:
  "DecodeBytesExtraFields b = Inr e \<longleftrightarrow>
     ExtraFields_EncodeToBytes e = Inr b \<and> ex_QC e \<noteq> None \<and> length b \<le> 20 * 1024"
proof
  assume "DecodeBytesExtraFields b = Inr e"
  then obtain c where c: "b = 2 # c" "length b \<le> 20 * 1024" "DecodeBytes decodeExtraFields c = Inr e"
    by (cases b) (auto simp: DecodeBytesExtraFields_def split: if_splits sum.splits)
  with extra_fields.decode_top_canonical [of c e] have "ExtraFields_ok e" "c = enc_list (ExtraFields_payload e)" by simp_all
  with c encode_ok show "ExtraFields_EncodeToBytes e = Inr b \<and> ex_QC e \<noteq> None \<and> length b \<le> 20 * 1024"
    by (auto simp: ExtraFields_ok_def)
next
  assume a: "ExtraFields_EncodeToBytes e = Inr b \<and> ex_QC e \<noteq> None \<and> length b \<le> 20 * 1024"
  then obtain c q where c: "b = 2 # c" "EncodeToBytes (writeExtraFields e) = Inr c" "ex_QC e = Some q"
    by (auto simp: ExtraFields_EncodeToBytes_def split: sum.splits)
  with a have ok: "ExtraFields_ok e" by (intro encoded_ok [of e c q]) simp_all
  with encode_ok a c have "c = enc_list (ExtraFields_payload e)" by simp
  with extra_fields.decode_top [OF ok] a c show "DecodeBytesExtraFields b = Inr e"
    by (simp add: DecodeBytesExtraFields_def)
qed

text \<open>
  Property C17.  The extra field of a header and the fields it stands for determine each other: the
  decoder accepts exactly the byte strings of at most 20 KB that the encoder produces from a round and
  a certificate, and gives back that round and that certificate.  In particular there is only one
  encoding of each, and no encoding is rejected but for its length.
\<close>

theorem extra_fields_roundtrip:
  "DecodeBytesExtraFields b = Inr e \<longleftrightarrow>
     ExtraFields_EncodeToBytes e = Inr b \<and> ex_QC e \<noteq> None \<and> length b \<le> 20 * 1024"
  by (rule extra_fields_codec)

end
