(* ===== verification/Signers_Laws.thy ===== *)
theory Signers_Laws
  imports Signers Types_Laws
begin

text \<open>
  What the helpers on lists of addresses and on signatures compute: the list operations against their
  specifications, and the signature checks as statements about sets of signers.
\<close>

section \<open>Lists of addresses\<close>

lemma CompareSignersLists_mset: "CompareSignersLists xs ys \<longleftrightarrow> mset xs = mset ys"
proof -
  have "sort xs = sort ys \<longleftrightarrow> mset xs = mset ys"
  proof
    assume "sort xs = sort ys"
    then have "mset (sort xs) = mset (sort ys)" by (rule arg_cong)
    then show "mset xs = mset ys" by simp
  next
    assume "mset xs = mset ys"
    then show "sort xs = sort ys" by (intro properties_for_sort) simp_all
  qed
  moreover have "mset xs = mset ys \<Longrightarrow> length xs = length ys" by (rule mset_eq_length)
  ultimately show ?thesis by (auto simp: CompareSignersLists_def)
qed

lemma remove_down_filter:
  "i \<le> length arr \<Longrightarrow> remove_down i item arr = filter (\<lambda>a. a \<noteq> item) (take i arr) @ drop i arr"
proof (induction i arbitrary: arr)
  case (Suc i)
  then have i: "i < length arr" by simp
  then have "take (Suc i) arr = take i arr @ [arr ! i]" "drop i arr = arr ! i # drop (Suc i) arr"
    by (simp_all add: take_Suc_conv_app_nth Cons_nth_drop_Suc)
  with Suc.IH [of arr] Suc.IH [of "take i arr @ drop (Suc i) arr"] i show ?case by auto
qed simp

lemma RemoveItemFromArray_filter: "RemoveItemFromArray arr items = filter (\<lambda>a. a \<notin> set items) arr"
proof (induction items arbitrary: arr)
  case (Cons item items)
  have "remove_down (length arr) item arr = filter (\<lambda>a. a \<noteq> item) arr" by (simp add: remove_down_filter)
  with Cons.IH show ?case by (simp add: RemoveItemFromArray_def conj_commute)
qed (simp add: RemoveItemFromArray_def)

lemma Position_not_found: "0 \<le> i \<Longrightarrow> Position_from i xs a = -1 \<longleftrightarrow> a \<notin> set xs"
  by (induction i xs a rule: Position_from.induct) auto

section \<open>Addresses in bytes\<close>

lemma ExtractAddressToBytes_concat: "ExtractAddressToBytes as = concat (map (bytes_of_word 20) as)"
proof -
  have "fold (\<lambda>signer data. data @ bytes_of_word AddressLength signer) as acc = acc @ concat (map (bytes_of_word 20) as)" for acc
    by (induction as arbitrary: acc) (simp_all add: AddressLength_def)
  then show ?thesis by (simp add: ExtractAddressToBytes_def)
qed

lemma length_ExtractAddressToBytes [simp]: "length (ExtractAddressToBytes as) = 20 * length as"
  by (induction as) (simp_all add: ExtractAddressToBytes_concat)

lemma address_of_bytes: "address_of (bytes_of_word 20 a @ rest) = a"
  by (simp add: address_of_def AddressLength_def)

lemma drop_addresses:
  "i < length as \<Longrightarrow> drop (i * 20) (ExtractAddressToBytes as) = bytes_of_word 20 (as ! i) @ ExtractAddressToBytes (drop (Suc i) as)"
proof (induction as arbitrary: i)
  case (Cons a as)
  then show ?case by (cases i) (simp_all add: ExtractAddressToBytes_concat)
qed simp

lemma addresses_of_bytes:
  "map (\<lambda>i. address_of (drop (i * AddressLength) (ExtractAddressToBytes as))) [0..<length (ExtractAddressToBytes as) div AddressLength] = as"
  by (rule nth_equalityI) (simp_all add: AddressLength_def drop_addresses address_of_bytes)

lemma ExtractAddress_roundtrip [simp]: "ExtractAddressFromBytes (ExtractAddressToBytes as) = as"
proof (cases as)
  case (Cons a bs)
  with addresses_of_bytes [of as] show ?thesis by (simp add: ExtractAddressFromBytes_def AddressLength_def)
qed (simp add: ExtractAddressFromBytes_def ExtractAddressToBytes_def AddressLength_def)

section \<open>Sets of signers\<close>

text \<open>The signers that signed a message, by a signature of the list that the checks accept.\<close>

definition signers :: "env \<Rightarrow> hash \<Rightarrow> Signature list \<Rightarrow> address set" where
  "signers ev h sigs = {a. \<exists>sig \<in> set sigs. recover_signer ev h sig = Inr a}"

lemma signers_finite [simp]: "finite (signers ev h sigs)"
proof (rule finite_subset)
  show "signers ev h sigs \<subseteq> (\<lambda>sig. case recover_signer ev h sig of Inl _ \<Rightarrow> 0 | Inr a \<Rightarrow> a) ` set sigs"
    by (force simp: signers_def)
qed simp

lemma signers_mset: "mset ss = mset ts \<Longrightarrow> signers ev h ss = signers ev h ts"
  unfolding signers_def by (drule mset_eq_setD) simp

lemma verifyMsgSignature_iff:
  "verifyMsgSignature ev h sig ms = Inr (True, a) \<longleftrightarrow> recover_signer ev h sig = Inr a \<and> a \<in> set ms"
  by (auto simp: verifyMsgSignature_def recover_signer_def Let_def split: sum.splits if_splits)

lemma verify_slot_iff: "verify_slot ev h ms sig = Inr a \<longleftrightarrow> recover_signer ev h sig = Inr a \<and> a \<in> set ms"
  by (auto simp: verify_slot_def verifyMsgSignature_iff [symmetric] split: sum.splits prod.splits if_splits)

lemma results_of_ok:
  "fst (results_of (map (\<lambda>a. (a, f a)) xs)) = [] \<longleftrightarrow> (\<forall>a \<in> set xs. \<exists>b. f a = Inr b)"
  "fst (results_of (map (\<lambda>a. (a, f a)) xs)) = [] \<Longrightarrow> snd (results_of (map (\<lambda>a. (a, f a)) xs)) = map (\<lambda>a. (a, projr (f a))) xs"
proof -
  have "fst (results_of ((a, r) # rest)) = [] \<longleftrightarrow> (\<exists>b. r = Inr b) \<and> fst (results_of rest) = []"
    "snd (results_of ((a, r) # rest)) = (case r of Inl _ \<Rightarrow> [] | Inr b \<Rightarrow> [(a, b)]) @ snd (results_of rest)" for a r rest
    by (cases r; simp)+
  note step = this
  show "fst (results_of (map (\<lambda>a. (a, f a)) xs)) = [] \<longleftrightarrow> (\<forall>a \<in> set xs. \<exists>b. f a = Inr b)"
    by (induction xs) (simp_all add: step)
  show "snd (results_of (map (\<lambda>a. (a, f a)) xs)) = map (\<lambda>a. (a, projr (f a))) xs"
    if "fst (results_of (map (\<lambda>a. (a, f a)) xs)) = []"
    using that by (induction xs) (auto simp: step)
qed

text \<open>The signatures kept by \<open>split_unique\<close> are one for each signer not seen before.\<close>

lemma split_unique_spec:
  assumes "\<And>sig a. (sig, a) \<in> set msgs \<Longrightarrow> f sig = a" "split_unique seen msgs = (us, ds)"
  shows "set us \<subseteq> fst ` set msgs \<and> distinct (map f us) \<and> set (map f us) = snd ` set msgs - seen \<and> mset us + mset ds = mset (map fst msgs)"
  using assms
proof (induction msgs arbitrary: seen us ds)
  case (Cons m msgs)
  obtain sig a where m: "m = (sig, a)" by (cases m)
  obtain us' ds' where r: "split_unique (if a \<in> seen then seen else insert a seen) msgs = (us', ds')" by fastforce
  have f: "f sig = a" "\<And>sig a. (sig, a) \<in> set msgs \<Longrightarrow> f sig = a" using Cons.prems(1) m by auto
  note IH = Cons.IH [OF f(2) r]
  show ?case
  proof (cases "a \<in> seen")
    case True
    with IH Cons.prems(2) m r f(1) show ?thesis by (auto simp: apsnd_def map_prod_def)
  next
    case False
    with Cons.prems(2) m r have "us = sig # us'" "ds = ds'" by (simp_all add: apfst_def map_prod_def)
    moreover have "insert a (f ` set us') = insert a (snd ` set msgs) - seen" using IH False by auto
    moreover have "a \<notin> f ` set us'" using IH False by auto
    ultimately show ?thesis using IH False m f(1) by auto
  qed
qed simp

lemma RecoverUniqueSigners_spec:
  assumes "RecoverUniqueSigners ev h sigs = Inr (us, ds)"
  shows "(\<forall>sig \<in> set sigs. \<exists>a. recover_signer ev h sig = Inr a) \<and> set us \<subseteq> set sigs \<and>
    set (map (\<lambda>sig. projr (recover_signer ev h sig)) us) = signers ev h sigs \<and> length us = card (signers ev h sigs) \<and>
    mset us + mset ds = mset sigs"
proof (cases "sigs = []")
  case True
  with assms show ?thesis by (auto simp: RecoverUniqueSigners_def signers_def split: if_splits)
next
  case False
  let ?f = "recover_signer ev h"
  let ?r = "results_of (map (\<lambda>sig. (sig, ?f sig)) (go_range ev sigs))"
  from assms False have r: "fst ?r = []" "split_unique {} (snd ?r) = (us, ds)"
    by (auto simp: RecoverUniqueSigners_def split: prod.splits list.splits if_splits)
  from results_of_ok(1) [of ?f "go_range ev sigs"] r(1) have all: "\<forall>sig \<in> set sigs. \<exists>a. ?f sig = Inr a" by simp
  have msgs: "snd ?r = map (\<lambda>sig. (sig, projr (?f sig))) (go_range ev sigs)" by (rule results_of_ok(2) [OF r(1)])
  have s: "set us \<subseteq> fst ` set (snd ?r) \<and> distinct (map (\<lambda>sig. projr (?f sig)) us) \<and>
      set (map (\<lambda>sig. projr (?f sig)) us) = snd ` set (snd ?r) - {} \<and> mset us + mset ds = mset (map fst (snd ?r))"
    by (rule split_unique_spec [OF _ r(2)]) (auto simp: msgs)
  have sg: "signers ev h sigs = snd ` set (snd ?r)"
    using all by (force simp: signers_def msgs image_image)
  from s have "length us = card (set (map (\<lambda>sig. projr (?f sig)) us))"
    by (metis distinct_card length_map)
  with all s sg show ?thesis by (auto simp: msgs comp_def image_image)
qed

lemma RecoverUniqueSigners_ok:
  assumes "h \<noteq> 0" "\<And>sig. sig \<in> set sigs \<Longrightarrow> \<exists>a. recover_signer ev h sig = Inr a"
  shows "\<exists>us ds. RecoverUniqueSigners ev h sigs = Inr (us, ds)"
proof -
  have "fst (results_of (map (\<lambda>sig. (sig, recover_signer ev h sig)) (go_range ev sigs))) = []"
    using assms(2) by (simp add: results_of_ok(1))
  then show ?thesis using assms(1)
    by (auto simp: RecoverUniqueSigners_def split: prod.splits list.splits)
qed

text \<open>The valid signatures that \<open>verifyAllSignatures\<close> collects: one for each masternode among the signers.\<close>

lemma collect_valid_spec:
  assumes "collect_valid seen dup slots = (vs, ss, ds)"
  shows "distinct ss \<and> set ss = {a. \<exists>sig. (sig, Inr a) \<in> set slots} - seen \<and>
    list_all2 (\<lambda>sig a. (sig, Inr a) \<in> set slots) vs ss"
  using assms
proof (induction seen dup slots arbitrary: vs ss ds rule: collect_valid.induct)
  case (2 seen dup sig e rest)
  from "2.IH" [of vs ss ds] "2.prems" show ?case by (auto elim: list_all2_mono)
next
  case (3 seen dup sig a rest)
  show ?case
  proof (cases "a \<in> seen")
    case True
    with 3 obtain ds' where "distinct ss \<and> set ss = {a. \<exists>sig. (sig, Inr a) \<in> set rest} - seen \<and>
        list_all2 (\<lambda>sig a. (sig, Inr a) \<in> set rest) vs ss"
      by (auto split: if_splits prod.splits)
    with True show ?thesis by (auto elim: list_all2_mono)
  next
    case False
    with "3.prems" obtain vs' ss' where c: "collect_valid (insert a seen) dup rest = (vs', ss', ds)" "vs = sig # vs'" "ss = a # ss'"
      by (auto split: prod.splits)
    from "3.IH"(3) [OF False c(1)] c False show ?thesis by (auto elim: list_all2_mono)
  qed
qed simp

lemma signers_list_all2: "list_all2 (\<lambda>sig a. recover_signer ev h sig = Inr a) vs ss \<Longrightarrow> signers ev h vs = set ss"
  by (induction rule: list_all2_induct) (auto simp: signers_def)

lemma verifyAllSignatures_spec:
  assumes "verifyAllSignatures ev h sigs ms = ((vs, ss, ds), es)"
  shows "list_all2 (\<lambda>sig a. recover_signer ev h sig = Inr a) vs ss \<and> distinct ss \<and> set ss = signers ev h sigs \<inter> set ms \<and>
    set vs \<subseteq> set sigs"
proof -
  let ?slots = "map (\<lambda>sig. (sig, verify_slot ev h ms sig)) sigs"
  from assms have "collect_valid {} {} ?slots = (vs, ss, ds)" by (simp add: verifyAllSignatures_def Let_def)
  from collect_valid_spec [OF this] have c: "distinct ss" "set ss = {a. \<exists>sig. (sig, Inr a) \<in> set ?slots}"
    "list_all2 (\<lambda>sig a. (sig, Inr a) \<in> set ?slots) vs ss" by simp_all
  have slot: "(sig, Inr a) \<in> set ?slots \<longleftrightarrow> sig \<in> set sigs \<and> recover_signer ev h sig = Inr a \<and> a \<in> set ms" for sig a
    by (auto simp: verify_slot_iff [symmetric])
  have "set ss = signers ev h sigs \<inter> set ms" unfolding c(2) signers_def slot by auto
  moreover from c(3) have "list_all2 (\<lambda>sig a. recover_signer ev h sig = Inr a) vs ss"
    by (rule list_all2_mono) (use slot in blast)
  moreover have "set vs \<subseteq> set sigs"
    using c(3) slot by (fastforce simp: list_all2_conv_all_nth in_set_conv_nth)
  ultimately show ?thesis using c(1) by blast
qed

end
