(* ===== verification/Certificates_Laws.thy ===== *)
theory Certificates_Laws
  imports Frames Signers_Laws
begin

text \<open>
  Certificates: what \<open>verifyQC\<close> and \<open>verifyTC\<close> accept, as statements about sets of masternodes that do
  not depend on the order in which the goroutines finish; that what a node collects from its pools is
  accepted by the others; and who is to blame for two certificates of the same round.
\<close>

section \<open>Signature checks\<close>

lemma check_signatures_iff:
  "check_signatures ev f nv h ms sigs = Inr () \<longleftrightarrow> (\<forall>sig \<in> set sigs. \<exists>a \<in> set ms. recover_signer ev h sig = Inr a)"
proof (induction sigs)
  case (Cons sig sigs)
  show ?case
  proof (cases "verifyMsgSignature ev h sig ms")
    case (Inl e)
    have "\<not> (\<exists>a \<in> set ms. recover_signer ev h sig = Inr a)"
    proof
      assume "\<exists>a \<in> set ms. recover_signer ev h sig = Inr a"
      then obtain a where "verifyMsgSignature ev h sig ms = Inr (True, a)" using verifyMsgSignature_iff by blast
      with Inl show False by simp
    qed
    with Inl show ?thesis by simp
  next
    case (Inr r)
    obtain v a where r: "r = (v, a)" by (cases r)
    show ?thesis
    proof (cases v)
      case True
      with Inr r verifyMsgSignature_iff [of ev h sig ms a] Cons.IH show ?thesis by auto
    next
      case False
      have "\<not> (\<exists>a \<in> set ms. recover_signer ev h sig = Inr a)"
        using Inr r False verifyMsgSignature_iff [of ev h sig ms] by fastforce
      with Inr r False show ?thesis by simp
    qed
  qed
qed simp

text \<open>
  A list of signatures is accepted from a set of masternodes when every signature recovers to one of
  them; its weight is the number of different signers.
\<close>

definition signed_by :: "env \<Rightarrow> hash \<Rightarrow> Signature list \<Rightarrow> address list \<Rightarrow> bool" where
  "signed_by ev h sigs ms \<longleftrightarrow> h \<noteq> 0 \<and> (\<forall>sig \<in> set sigs. \<exists>a \<in> set ms. recover_signer ev h sig = Inr a)"

lemma signed_by_signers: "signed_by ev h sigs ms \<Longrightarrow> signers ev h sigs \<subseteq> set ms"
  by (force simp: signed_by_def signers_def)

text \<open>The two steps of a check together: deduplicate, then verify each signature that is left.\<close>

lemma checked_signatures:
  "(\<exists>us ds. RecoverUniqueSigners ev h sigs = Inr (us, ds) \<and> P (length us) \<and>
      check_signatures ev f nv h ms (go_range ev us) = Inr ()) \<longleftrightarrow>
   signed_by ev h sigs ms \<and> P (card (signers ev h sigs))"
proof
  assume "\<exists>us ds. RecoverUniqueSigners ev h sigs = Inr (us, ds) \<and> P (length us) \<and>
    check_signatures ev f nv h ms (go_range ev us) = Inr ()"
  then obtain us ds where r: "RecoverUniqueSigners ev h sigs = Inr (us, ds)" "P (length us)"
    "check_signatures ev f nv h ms (go_range ev us) = Inr ()" by blast
  note spec = RecoverUniqueSigners_spec [OF r(1)]
  from r(1) have "h \<noteq> 0" by (auto simp: RecoverUniqueSigners_def)
  moreover have "\<exists>a \<in> set ms. recover_signer ev h sig = Inr a" if sig: "sig \<in> set sigs" for sig
  proof -
    from spec sig obtain a where a: "recover_signer ev h sig = Inr a" by blast
    with sig have "a \<in> signers ev h sigs" by (auto simp: signers_def)
    with spec have "a \<in> (\<lambda>sig. projr (recover_signer ev h sig)) ` set us" by simp
    then obtain u where u: "u \<in> set us" "a = projr (recover_signer ev h u)" by blast
    with r(3) obtain b where "b \<in> set ms" "recover_signer ev h u = Inr b" by (auto simp: check_signatures_iff)
    with a u show ?thesis by auto
  qed
  ultimately show "signed_by ev h sigs ms \<and> P (card (signers ev h sigs))"
    using r(2) spec by (simp add: signed_by_def)
next
  assume a: "signed_by ev h sigs ms \<and> P (card (signers ev h sigs))"
  then have "h \<noteq> 0" "\<And>sig. sig \<in> set sigs \<Longrightarrow> \<exists>a. recover_signer ev h sig = Inr a" by (auto simp: signed_by_def)
  from RecoverUniqueSigners_ok [of h sigs ev, OF this] obtain us ds where
    r: "RecoverUniqueSigners ev h sigs = Inr (us, ds)" by blast
  from RecoverUniqueSigners_spec [OF r] a show "\<exists>us ds. RecoverUniqueSigners ev h sigs = Inr (us, ds) \<and> P (length us) \<and>
    check_signatures ev f nv h ms (go_range ev us) = Inr ()"
    using r by (auto simp: check_signatures_iff signed_by_def)
qed

section \<open>Quorum certificates\<close>

lemma run_deref [runs]: "deref p x = (Inr a, y) \<longleftrightarrow> y = x \<and> p = Some a"
  by (cases p) (auto simp: deref_def)

lemma run_configAt [runs]: "configAt r x = (Inr c, y) \<longleftrightarrow> y = x \<and> V2_Config r (cfg_V2 (x_config x)) = Some c"
  by (auto simp: configAt_def runs)

lemma run_getExtraFields [runs]:
  "getExtraFields h x = (Inr t, y) \<longleftrightarrow> y = x \<and>
    (h_Number h = xSwitchBlock x \<and> t = (None, 0, decodeMasternodesFromHeaderExtra h) \<or>
     h_Number h \<noteq> xSwitchBlock x \<and> (\<exists>d. DecodeBytesExtraFields (h_Extra h) = Inr d \<and>
       t = (ex_QC d, ex_Round d, GetMasternodesFromEpochSwitchHeader h)))"
  by (cases "DecodeBytesExtraFields (h_Extra h)") (auto simp: getExtraFields_def runs)

lemma getExtraFields_state [simp]: "snd (getExtraFields h x) = x"
  by (simp add: getExtraFields_def bindE_def split: sum.splits)

lemma getExtraFields_core: "same_core x y \<Longrightarrow> fst (getExtraFields h y) = fst (getExtraFields h x)"
  by (simp add: getExtraFields_def bindE_def same_core_config split: sum.splits)

text \<open>The round of a header as its extra field gives it; the last block of v1 is of round 0.\<close>

definition has_round :: "engine \<Rightarrow> Header \<Rightarrow> Round \<Rightarrow> bool" where
  "has_round x h r \<longleftrightarrow> (if h_Number h = xSwitchBlock x then r = 0
     else \<exists>d. DecodeBytesExtraFields (h_Extra h) = Inr d \<and> ex_Round d = r)"

text \<open>\<open>b\<close> describes the given header, or the header of that hash in the chain.\<close>

definition describes :: "env \<Rightarrow> chain \<Rightarrow> engine \<Rightarrow> Header option \<Rightarrow> BlockInfo \<Rightarrow> bool" where
  "describes ev ch x hp b \<longleftrightarrow> (\<exists>h. (case hp of None \<Rightarrow> GetHeaderByHash ch (bi_Hash b) = Some h
       | Some p \<Rightarrow> h = p \<and> Header_Hash (keccak ev) p = bi_Hash b) \<and>
     h_Number h = bi_Number b \<and> has_round x h (bi_Round b))"

lemma VerifyBlockInfo_iff: "VerifyBlockInfo ev ch b hp x = (Inr (), y) \<longleftrightarrow> y = x \<and> describes ev ch x hp b"
  unfolding VerifyBlockInfo_def describes_def has_round_def
  by (cases hp; cases "GetHeaderByHash ch (bi_Hash b)") (auto simp: runs)

lemma has_round_core: "same_core x y \<Longrightarrow> has_round y h r \<longleftrightarrow> has_round x h r"
  by (simp add: has_round_def same_core_config)

lemma describes_core: "same_core x y \<Longrightarrow> describes ev ch y hp b \<longleftrightarrow> describes ev ch x hp b"
  by (simp add: describes_def has_round_core)

text \<open>What makes a certificate valid for the masternodes \<open>info\<close> of the epoch of its block.\<close>

definition valid_QC :: "env \<Rightarrow> chain \<Rightarrow> engine \<Rightarrow> EpochSwitchInfo \<Rightarrow> Header option \<Rightarrow> QuorumCert \<Rightarrow> bool" where
  "valid_QC ev ch x info hp qc \<longleftrightarrow>
     (let h = VoteSigHash (keccak ev) (qc_Block qc) (qc_GapNumber qc); r = bi_Round (qc_Block qc) in
      signed_by ev h (qc_Signatures qc) (es_Masternodes info) \<and>
      (\<exists>cfg. V2_Config r (cfg_V2 (x_config x)) = Some cfg \<and>
        (r = 0 \<or> threshold_reached (card (signers ev h (qc_Signatures qc))) (es_MasternodesLen info) (CertThreshold cfg))) \<and>
      qc_GapNumber qc = gapNumber_of (xEpoch x) (xGap x) (Uint64 (bi_Number (es_Block info))) \<and>
      describes ev ch x hp (qc_Block qc))"

lemma valid_QC_core: "same_core x y \<Longrightarrow> valid_QC ev ch y info hp qc \<longleftrightarrow> valid_QC ev ch x info hp qc"
  by (simp add: valid_QC_def describes_core same_core_config same_core_fields)

lemma verifyQC_accepts:
  "(\<exists>y. verifyQC ev ch (Some qc) parents x = (Inr (), y)) \<longleftrightarrow>
   (\<exists>info x1. getEpochSwitchInfo ev ch parents (bi_Hash (qc_Block qc)) x = (Inr info, x1) \<and>
      valid_QC ev ch x info (if parents = [] then None else Some (last parents)) qc)"
proof -
  let ?h = "VoteSigHash (keccak ev) (qc_Block qc) (qc_GapNumber qc)" and ?r = "bi_Round (qc_Block qc)"
  let ?hp = "if parents = [] then None else Some (last parents)"
  let ?C = "\<lambda>info us. check_signatures ev (\<lambda>_. Errorf ''error while verfying QC message signatures'')
    (Errorf ''fail to verify QC due to signature mis-match'') ?h (es_Masternodes info) (go_range ev us) = Inr ()"
  let ?gap = "\<lambda>info x. qc_GapNumber qc = gapNumber_of (xEpoch x) (xGap x) (Uint64 (bi_Number (es_Block info)))"
  have sigs: "(\<exists>us ds. RecoverUniqueSigners ev ?h (qc_Signatures qc) = Inr (us, ds) \<and>
      (?r = 0 \<or> threshold_reached (length us) (es_MasternodesLen info) (CertThreshold cfg)) \<and> ?C info us) \<longleftrightarrow>
      signed_by ev ?h (qc_Signatures qc) (es_Masternodes info) \<and>
      (?r = 0 \<or> threshold_reached (card (signers ev ?h (qc_Signatures qc))) (es_MasternodesLen info) (CertThreshold cfg))"
    for info cfg by (rule checked_signatures)
  have "(\<exists>y. verifyQC ev ch (Some qc) parents x = (Inr (), y)) \<longleftrightarrow>
     (\<exists>info x1. getEpochSwitchInfo ev ch parents (bi_Hash (qc_Block qc)) x = (Inr info, x1) \<and>
       (\<exists>cfg. V2_Config ?r (cfg_V2 (x_config x1)) = Some cfg \<and>
        (\<exists>us ds. RecoverUniqueSigners ev ?h (qc_Signatures qc) = Inr (us, ds) \<and>
         (?r = 0 \<or> threshold_reached (length us) (es_MasternodesLen info) (CertThreshold cfg)) \<and> ?C info us)) \<and>
       ?gap info x1 \<and> describes ev ch x1 ?hp (qc_Block qc))"
    by (auto simp: verifyQC_def Let_def runs VerifyBlockInfo_iff word_gt_0 simp del: last.simps)
  also have "\<dots> \<longleftrightarrow> (\<exists>info x1. getEpochSwitchInfo ev ch parents (bi_Hash (qc_Block qc)) x = (Inr info, x1) \<and>
      valid_QC ev ch x info ?hp qc)"
  proof (intro ex_cong1 conj_cong refl)
    fix info x1
    assume "getEpochSwitchInfo ev ch parents (bi_Hash (qc_Block qc)) x = (Inr info, x1)"
    from keepsD [OF core_getEpochSwitchInfo this] show "((\<exists>cfg. V2_Config ?r (cfg_V2 (x_config x1)) = Some cfg \<and>
        (\<exists>us ds. RecoverUniqueSigners ev ?h (qc_Signatures qc) = Inr (us, ds) \<and>
         (?r = 0 \<or> threshold_reached (length us) (es_MasternodesLen info) (CertThreshold cfg)) \<and> ?C info us)) \<and>
       ?gap info x1 \<and> describes ev ch x1 ?hp (qc_Block qc)) = valid_QC ev ch x info ?hp qc"
      unfolding sigs valid_QC_def Let_def by (auto simp: same_core_fields(1) same_core_config describes_core)
  qed
  finally show ?thesis .
qed

text \<open>
  Property C6.  \<open>verifyQC\<close> accepts a certificate if and only if it is valid for the masternodes of the
  epoch of its block: every signature is one of a masternode on the block and the gap number, the number
  of different masternodes among the signers reaches the threshold of the round, the gap number is the
  one of the epoch, and the block is the one of the chain (or the given parent) with its number and
  round.  The order in which the goroutines finish has no say in it.
\<close>

theorem verifyQC_iff:
  "(\<exists>y. verifyQC ev ch (Some qc) parents x = (Inr (), y)) \<longleftrightarrow>
   (\<exists>info x1. getEpochSwitchInfo ev ch parents (bi_Hash (qc_Block qc)) x = (Inr info, x1) \<and>
      valid_QC ev ch x info (if parents = [] then None else Some (last parents)) qc)"
  by (rule verifyQC_accepts)

section \<open>Timeout certificates\<close>

text \<open>
  Property C7.  \<open>verifyTC\<close> accepts a timeout certificate if and only if the snapshot of its gap number is
  known and has candidates, every signature is one of a masternode of the epoch of its round on the round
  and the gap number, and the number of different masternodes among the signers reaches the threshold.
\<close>

theorem verifyTC_iff:
  "(\<exists>y. verifyTC ev ch (Some tc) x = (Inr (), y)) \<longleftrightarrow>
   (\<exists>sigs snap x1 info x2 cfg. tc_Signatures tc = Some sigs \<and>
      getSnapshot ev ch (tc_GapNumber tc) True x = (Inr snap, x1) \<and> sn_NextEpochCandidates snap \<noteq> [] \<and>
      getTCEpochInfo ev ch (tc_Round tc) x1 = (Inr info, x2) \<and> V2_Config (tc_Round tc) (cfg_V2 (x_config x)) = Some cfg \<and>
      signed_by ev (TimeoutSigHash (keccak ev) (tc_Round tc) (tc_GapNumber tc)) sigs (es_Masternodes info) \<and>
      threshold_reached (card (signers ev (TimeoutSigHash (keccak ev) (tc_Round tc) (tc_GapNumber tc)) sigs))
        (es_MasternodesLen info) (CertThreshold cfg))"
proof -
  let ?h = "TimeoutSigHash (keccak ev) (tc_Round tc) (tc_GapNumber tc)"
  let ?C = "\<lambda>info us. check_signatures ev (Wrap ''error while verifying TC message signatures'')
    (Errorf ''fail to verify TC due to signature mis-match'') ?h (es_Masternodes info) (go_range ev us) = Inr ()"
  have sigs: "(\<exists>us ds. RecoverUniqueSigners ev ?h sigs = Inr (us, ds) \<and>
      threshold_reached (length us) (es_MasternodesLen info) (CertThreshold cfg) \<and> ?C info us) \<longleftrightarrow>
      signed_by ev ?h sigs (es_Masternodes info) \<and>
      threshold_reached (card (signers ev ?h sigs)) (es_MasternodesLen info) (CertThreshold cfg)"
    for info cfg sigs by (rule checked_signatures)
  have cfg: "x_config x2 = x_config x" if "getSnapshot ev ch g True x = (Inr snap, x1)" "getTCEpochInfo ev ch r x1 = (Inr info, x2)"
    for g snap x1 r info x2
    using same_core_fields(1) [OF keepsD [OF core_getSnapshot that(1)]] same_core_fields(1) [OF keepsD [OF core_getTCEpochInfo that(2)]]
    by simp
  have "(\<exists>y. verifyTC ev ch (Some tc) x = (Inr (), y)) \<longleftrightarrow>
     (\<exists>sigs snap x1 info x2 cfg. tc_Signatures tc = Some sigs \<and>
      getSnapshot ev ch (tc_GapNumber tc) True x = (Inr snap, x1) \<and> sn_NextEpochCandidates snap \<noteq> [] \<and>
      getTCEpochInfo ev ch (tc_Round tc) x1 = (Inr info, x2) \<and> V2_Config (tc_Round tc) (cfg_V2 (x_config x2)) = Some cfg \<and>
      (\<exists>us ds. RecoverUniqueSigners ev ?h sigs = Inr (us, ds) \<and>
        threshold_reached (length us) (es_MasternodesLen info) (CertThreshold cfg) \<and> ?C info us))"
    by (auto simp: verifyTC_def Let_def runs split: option.splits)
  then show ?thesis unfolding sigs using cfg by (auto simp del: split_paired_Ex)
qed

section \<open>Certificates from the vote pool\<close>

text \<open>A majority of the masternodes behind a list of signatures.\<close>

definition quorum_of :: "env \<Rightarrow> engine \<Rightarrow> EpochSwitchInfo \<Rightarrow> Round \<Rightarrow> hash \<Rightarrow> Signature list \<Rightarrow> bool" where
  "quorum_of ev x info r h sigs \<longleftrightarrow> signers ev h sigs \<subseteq> set (es_Masternodes info) \<and> length sigs = card (signers ev h sigs) \<and>
     (\<exists>cfg. V2_Config r (cfg_V2 (x_config x)) = Some cfg \<and>
       threshold_reached (card (signers ev h sigs)) (es_MasternodesLen info) (CertThreshold cfg))"

lemma collected_signatures:
  assumes "verifyAllSignatures ev h sigs ms = ((vs, ss, ds), es)"
  shows "signers ev h vs \<subseteq> set ms \<and> length vs = card (signers ev h vs)"
proof -
  note spec = verifyAllSignatures_spec [OF assms]
  from spec signers_list_all2 have "signers ev h vs = set ss" by blast
  moreover have "length vs = card (set ss)" using spec distinct_card [of ss] list_all2_lengthD [of _ vs ss] by metis
  ultimately show ?thesis using spec by simp
qed

lemma onVotePool_cases:
  assumes "onVotePoolThresholdReached ev ch votes v x = (r, y)"
  shows "same_core x y \<or> (\<exists>info x1 sigs. getEpochSwitchInfo ev ch [] (bi_Hash (v_Block v)) x = (Inr info, x1) \<and>
    quorum_of ev x info (bi_Round (v_Block v)) (VoteSigHash (keccak ev) (v_Block v) (v_GapNumber v)) sigs \<and>
    processQC ev ch (Some \<lparr>qc_Block = v_Block v, qc_Signatures = sigs, qc_GapNumber = v_GapNumber v\<rparr>) x1 = (r, y))"
proof (cases "getEpochSwitchInfo ev ch [] (bi_Hash (v_Block v)) x")
  case (Pair ri x1)
  note core = keepsD [OF core_getEpochSwitchInfo Pair]
  show ?thesis
  proof (cases ri)
    case (Inl e)
    with assms Pair core show ?thesis by (simp add: onVotePoolThresholdReached_def bindE_def mapErrE_def)
  next
    case (Inr info)
    let ?h = "VoteSigHash (keccak ev) (v_Block v) (v_GapNumber v)"
    obtain vs ss ds es where va: "verifyAllSignatures ev ?h (map v_Signature (filter (\<lambda>v. v_signer v \<noteq> 0) (go_range ev (map snd votes))))
        (es_Masternodes info) = ((vs, ss, ds), es)" by (metis prod.exhaust)
    have "same_core x y \<or> (\<exists>cfg. V2_Config (bi_Round (v_Block v)) (cfg_V2 (x_config x)) = Some cfg \<and>
        threshold_reached (length vs) (es_MasternodesLen info) (CertThreshold cfg) \<and>
        processQC ev ch (Some \<lparr>qc_Block = v_Block v, qc_Signatures = vs, qc_GapNumber = v_GapNumber v\<rparr>) x1 = (r, y))"
      using assms Pair Inr va core same_core_fields(1) [OF core]
      by (cases "V2_Config (bi_Round (v_Block v)) (cfg_V2 (x_config x))")
        (auto simp: onVotePoolThresholdReached_def bindE_def mapErrE_def configAt_def deref_def split: if_splits)
    with collected_signatures [OF va] Pair Inr show ?thesis by (auto simp: quorum_of_def)
  qed
qed

text \<open>A lookup at the start of a sequence: it fails, with nothing changed but caches, or the rest runs.\<close>

lemma lookup_first:
  assumes "bindE m f x = (r, y)" "keeps same_core m"
  obtains (fails) "same_core x y" | (goes_on) a x1 where "m x = (Inr a, x1)" "same_core x x1" "f a x1 = (r, y)"
  using assms(1) by (cases rule: bindE_runE) (use keepsD [OF assms(2)] that in blast)+

text \<open>A vote counts the pool first; only with enough votes for a block of the chain are they verified.\<close>

lemma enough_votes:
  assumes "bindE (VerifyBlockInfo ev ch b None) (\<lambda>_. bindE (verifyVotes ev ch pooled h) (\<lambda>votes.
    bindE (onVotePoolThresholdReached ev ch votes v) (\<lambda>_. putE (\<lambda>x. x\<lparr>x_votePoolCollectionTime := None\<rparr>)))) x = (r, y)"
  obtains (nothing) "progress y = progress x"
  | (threshold) votes x1 y1 r1 where "describes ev ch x None b" "same_core x x1"
      "onVotePoolThresholdReached ev ch votes v x1 = (r1, y1)" "progress y = progress y1"
  using assms core_VerifyBlockInfo
proof (cases rule: lookup_first)
  case (goes_on u x1)
  then have d: "x1 = x" "describes ev ch x None b" by (simp_all add: VerifyBlockInfo_iff)
  from goes_on(3) core_verifyVotes show ?thesis
  proof (cases rule: lookup_first)
    case fails
    with d have "progress y = progress x" by (simp add: progress_core)
    then show ?thesis by (rule nothing)
  next
    case (goes_on vs x2)
    from goes_on(3) obtain r1 y1 where "onVotePoolThresholdReached ev ch vs v x2 = (r1, y1)" "progress y = progress y1"
      by (cases rule: bindE_runE) (auto simp: progress_def xSwitchBlock_def)
    with goes_on d show ?thesis by (intro threshold) simp_all
  qed
qed (auto intro!: nothing dest!: progress_core)

lemma voteHandler_cases:
  assumes "voteHandler ev ch v x = (r, y)"
  obtains (nothing) "progress y = progress x"
  | (threshold) votes x1 y1 r1 where "describes ev ch x None (v_Block v)" "x_config x1 = x_config x" "progress x1 = progress x"
      "onVotePoolThresholdReached ev ch votes v x1 = (r1, y1)" "progress y = progress y1"
proof -
  let ?x0 = "if x_votePoolCollectionTime x = None then x\<lparr>x_votePoolCollectionTime := Some (now ev)\<rparr> else x"
  obtain n pooled p where add: "Pool_Add (voteObj (keccak ev)) v (x_votePool ?x0) = (n, pooled, p)" by (metis prod.exhaust)
  let ?x1 = "?x0\<lparr>x_votePool := p\<rparr>"
  have x1: "progress ?x1 = progress x" "x_config ?x1 = x_config x" by (simp_all add: progress_def xSwitchBlock_def)
  let ?rest = "\<lambda>info cfg. if threshold_reached n (es_MasternodesLen info) (CertThreshold cfg) then
       case GetHeaderByHash ch (bi_Hash (v_Block v)) of
         None \<Rightarrow> returnE ()
       | Some proposedBlockHeader \<Rightarrow>
           bindE (VerifyBlockInfo ev ch (v_Block v) None) (\<lambda>_.
           bindE (verifyVotes ev ch pooled proposedBlockHeader) (\<lambda>verifiedVotes.
           bindE (onVotePoolThresholdReached ev ch verifiedVotes v) (\<lambda>_.
           putE (\<lambda>x. x\<lparr>x_votePoolCollectionTime := None\<rparr>))))
     else returnE ()"
  let ?k = "bindE (mapErrE (ErrIncomingMessageBlockNotFound ''vote'' (bi_Hash (v_Block v)) (bi_Number (v_Block v)))
        (getEpochSwitchInfo ev ch [] (bi_Hash (v_Block v)))) (\<lambda>info. bindE (configAt (bi_Round (v_Block v))) (?rest info))"
  have "y = x \<or> ?k ?x1 = (r, y)" using assms add
    by (cases "x_votePoolCollectionTime x") (simp_all add: voteHandler_def votePool_Add_def Let_def bindE_def [of "getE _"] bindE_def [of "putE _"]
        bindE_def [of "\<lambda>x. case Pool_Add _ _ _ of _ \<Rightarrow> _"] split: if_splits)
  moreover have ?thesis if "?k ?x1 = (r, y)"
    using that core.keeps_mapErrE [OF core_getEpochSwitchInfo]
  proof (cases rule: lookup_first)
    case fails
    with x1 have "progress y = progress x" by (simp add: progress_core)
    then show ?thesis by (rule nothing)
  next
    case (goes_on info x2)
    note c2 = goes_on(2)
    from goes_on(3) core_configAt show ?thesis
    proof (cases rule: lookup_first)
      case fails
      with c2 x1 have "progress y = progress x" by (simp add: progress_core)
      then show ?thesis by (rule nothing)
    next
      case (goes_on cfg x3)
      have c3: "same_core ?x1 x3" by (rule core.trans [OF c2 goes_on(2)])
      have same: "progress x3 = progress x" "x_config x3 = x_config x" using c3 x1 by (simp_all add: progress_core same_core_fields)
      from goes_on(3) consider "progress y = progress x3" | votes x4 y1 r1 where "describes ev ch x3 None (v_Block v)" "same_core x3 x4"
          "onVotePoolThresholdReached ev ch votes v x4 = (r1, y1)" "progress y = progress y1"
        by (auto split: if_splits option.splits elim!: enough_votes)
      then show ?thesis
      proof cases
        case 1
        with same have "progress y = progress x" by simp
        then show ?thesis by (rule nothing)
      next
        case 2
        then show ?thesis using same
          by (intro threshold [of x4 votes r1 y1]) (simp_all add: progress_core same_core_fields describes_def has_round_def xSwitchBlock_def)
      qed
    qed
  qed
  moreover have ?thesis if "y = x" by (rule nothing) (simp add: that)
  ultimately show ?thesis by fast
qed


end
