(* ===== verification/Commits.thy ===== *)
theory Commits
  imports Certificates_Laws Rounds
begin

text \<open>
  What an accepted certificate does to the state: the highest certificate, the lock, the committed block
  and the round, each with the exact condition under which it changes.
\<close>

section \<open>The forensic record\<close>

definition only_forensics :: "engine \<Rightarrow> engine \<Rightarrow> bool" where
  "only_forensics x y \<longleftrightarrow> (\<exists>qs. y = x\<lparr>x_ForensicsQCs := qs\<rparr>)"

interpretation forensics: action_preorder only_forensics
proof
  show "only_forensics s s" for s unfolding only_forensics_def by (rule exI [of _ "x_ForensicsQCs s"]) simp
qed (auto simp: only_forensics_def)

lemma forensics_SetCommittedQCs: "keeps only_forensics (SetCommittedQCs ev p h qc)"
  unfolding SetCommittedQCs_def deref_def
  by (intro forensics.keeps_rules forensics.keeps_putE) (auto simp: only_forensics_def)

section \<open>The commit rule\<close>

text \<open>
  \<open>h2\<close> is a block of round \<open>r\<close> whose parent and grandparent in the chain are of the two rounds before;
  the grandparent is a block of v2.
\<close>

definition three_chain :: "env \<Rightarrow> chain \<Rightarrow> engine \<Rightarrow> Header \<Rightarrow> Round \<Rightarrow> BlockInfo \<Rightarrow> bool" where
  "three_chain ev ch x h2 r b \<longleftrightarrow> (\<exists>h1 h0. GetHeaderByHash ch (h_ParentHash h2) = Some h1 \<and>
     GetHeaderByHash ch (h_ParentHash h1) = Some h0 \<and> has_round x h1 (r - 1) \<and> has_round x h0 (r - 2) \<and>
     h_Number h2 - 2 > xSwitchBlock x \<and>
     b = \<lparr>bi_Hash = Header_Hash (keccak ev) h0, bi_Round = r - 2, bi_Number = h_Number h0\<rparr>)"

text \<open>The blocks that may be committed over \<open>c\<close>: of a later round, and no lower number.\<close>

definition commits_over :: "BlockInfo option \<Rightarrow> BlockInfo \<Rightarrow> bool" where
  "commits_over c b \<longleftrightarrow> (case c of None \<Rightarrow> True | Some c \<Rightarrow> bi_Round c < bi_Round b \<and> bi_Number c \<le> bi_Number b)"

lemma extra_round:
  obtains (error) e where "getExtraFields h x = (Inl e, x)" "\<And>r. \<not> has_round x h r"
  | (ok) q r ms where "getExtraFields h x = (Inr (q, r, ms), x)" "\<And>r'. has_round x h r' \<longleftrightarrow> r' = r"
  by (cases "h_Number h = xSwitchBlock x"; cases "DecodeBytesExtraFields (h_Extra h)")
    (auto simp: getExtraFields_def has_round_def)

text \<open>The commit of a three-chain, step by step; what \<open>commitBlocks\<close> decides is exactly the rule.\<close>

lemma commitBlocks_grandparent:
  assumes "bindE (getExtraFields h0) (\<lambda>(_, round, _). if r - 2 \<noteq> round then returnE False else
      bindE (getE x_highestCommitBlock) (\<lambda>committed.
      if (case committed of None \<Rightarrow> False | Some c \<Rightarrow> bi_Round c \<ge> round \<or> bi_Number c > h_Number h0) then returnE False else
      bindE (putE (\<lambda>x. x\<lparr>x_highestCommitBlock := Some
         \<lparr>bi_Hash = Header_Hash (keccak ev) h0, bi_Round = round, bi_Number = h_Number h0\<rparr>\<rparr>)) (\<lambda>_.
      bindE (tryE (SetCommittedQCs ev h1 h2 qc)) (\<lambda>_. returnE True)))) x = (res, y)"
  defines "b \<equiv> \<lparr>bi_Hash = Header_Hash (keccak ev) h0, bi_Round = r - 2, bi_Number = h_Number h0\<rparr>"
  shows "if has_round x h0 (r - 2) \<and> commits_over (x_highestCommitBlock x) b
    then res = Inr True \<and> (\<exists>qs. y = x\<lparr>x_highestCommitBlock := Some b, x_ForensicsQCs := qs\<rparr>) else res \<noteq> Inr True \<and> y = x"
proof (cases rule: extra_round [of h0 x])
  case (error e)
  with assms show ?thesis by (auto simp: bindE_def)
next
  case (ok q r' ms)
  obtain u z where set: "SetCommittedQCs ev h1 h2 qc (x\<lparr>x_highestCommitBlock := Some b\<rparr>) = (u, z)" by fastforce
  from keepsD [OF forensics_SetCommittedQCs set] obtain qs where "z = x\<lparr>x_highestCommitBlock := Some b, x_ForensicsQCs := qs\<rparr>"
    by (auto simp: only_forensics_def)
  note z = this
  have over: "(case x_highestCommitBlock x of None \<Rightarrow> False | Some c \<Rightarrow> bi_Round c \<ge> r - 2 \<or> bi_Number c > h_Number h0) \<longleftrightarrow>
      \<not> commits_over (x_highestCommitBlock x) b"
    by (cases "x_highestCommitBlock x") (auto simp: commits_over_def b_def)
  show ?thesis
  proof (cases "r' = r - 2")
    case False
    with assms(1) ok show ?thesis by (auto simp: bindE_def)
  next
    case True
    with assms(1) ok set z show ?thesis
      by (simp add: bindE_def [of "getExtraFields _"] over tryE_def b_def [symmetric] split: if_splits) auto
  qed
qed

lemma commitBlocks_cases:
  assumes "commitBlocks ev ch h2 r qc x = (res, y)"
  shows "if \<exists>b. three_chain ev ch x h2 r b \<and> commits_over (x_highestCommitBlock x) b
    then res = Inr True \<and> (\<exists>b qs. three_chain ev ch x h2 r b \<and> commits_over (x_highestCommitBlock x) b \<and>
      y = x\<lparr>x_highestCommitBlock := Some b, x_ForensicsQCs := qs\<rparr>)
    else res \<noteq> Inr True \<and> y = x"
proof (cases "h_Number h2 - 2 \<le> xSwitchBlock x")
  case True
  with assms show ?thesis by (auto simp: commitBlocks_def three_chain_def)
next
  case sb: False
  show ?thesis
  proof (cases "GetHeaderByHash ch (h_ParentHash h2)")
    case None
    with assms sb show ?thesis by (auto simp: commitBlocks_def three_chain_def)
  next
    case h1: (Some h1)
    show ?thesis
    proof (cases rule: extra_round [of h1 x])
      case (error e)
      with assms sb h1 show ?thesis by (auto simp: commitBlocks_def three_chain_def bindE_def)
    next
      case (ok q1 r1 ms1)
      show ?thesis
      proof (cases "GetHeaderByHash ch (h_ParentHash h1)")
        case None
        with assms sb h1 ok show ?thesis by (auto simp: commitBlocks_def three_chain_def bindE_def split: if_splits)
      next
        case h0: (Some h0)
        show ?thesis
        proof (cases "r - 1 = r1")
          case False
          with assms sb h1 h0 ok show ?thesis by (auto simp: commitBlocks_def three_chain_def bindE_def)
        next
          case True
          with assms sb h1 h0 ok show ?thesis
            using commitBlocks_grandparent [of h0 r ev h1 h2 qc x res y] by (simp add: commitBlocks_def three_chain_def)
        qed
      qed
    qed
  qed
qed

section \<open>Processing a certificate\<close>

lemma decoded_QC: "DecodeBytesExtraFields b = Inr d \<Longrightarrow> \<exists>q. ex_QC d = Some q"
proof -
  assume "DecodeBytesExtraFields b = Inr d"
  then have "DecodeBytes decodeExtraFields (drop 1 b) = Inr d" "length (drop 1 b) < 2 ^ 64"
    by (auto simp: DecodeBytesExtraFields_def split: if_splits sum.splits)
  from extra_fields.decode_top_canonical [OF this] show ?thesis by (auto simp: ExtraFields_ok_def)
qed

text \<open>The certificate that a block of v2 carries, the one of its parent.\<close>

definition carried_QC :: "engine \<Rightarrow> Header \<Rightarrow> QuorumCert option" where
  "carried_QC x h = (if h_Number h = xSwitchBlock x then None
     else case DecodeBytesExtraFields (h_Extra h) of Inl _ \<Rightarrow> None | Inr d \<Rightarrow> ex_QC d)"

definition newer_than_lock :: "QuorumCert option \<Rightarrow> QuorumCert \<Rightarrow> bool" where
  "newer_than_lock l q \<longleftrightarrow> (case l of None \<Rightarrow> True | Some l \<Rightarrow> bi_Round (qc_Block l) < bi_Round (qc_Block q))"

text \<open>The block a certificate commits, if there is one.\<close>

definition committable :: "env \<Rightarrow> chain \<Rightarrow> engine \<Rightarrow> Header \<Rightarrow> BlockInfo \<Rightarrow> bool" where
  "committable ev ch x h b \<longleftrightarrow> (\<exists>r. has_round x h r \<and> three_chain ev ch x h r b \<and> commits_over (x_highestCommitBlock x) b)"

text \<open>The part of \<open>processQC\<close> that reads the certified block, and the entry into the next round.\<close>

lemma processQC_block:
  assumes "bindE (getExtraFields h) (\<lambda>(pqc, round, _).
      bindE (getE x_lockQuorumCert) (\<lambda>lck. bindE (deref pqc) (\<lambda>q.
      bindE (if (case lck of None \<Rightarrow> True | Some l \<Rightarrow> bi_Round (qc_Block q) > bi_Round (qc_Block l))
          then putE (\<lambda>x. x\<lparr>x_lockQuorumCert := Some q\<rparr>) else returnE ()) (\<lambda>_.
      bindE (commitBlocks ev ch h round qc) (\<lambda>_. returnE ()))))) x = (res, y)" and "h_Number h > xSwitchBlock x"
  shows "\<exists>qs c. y = x\<lparr>x_lockQuorumCert := (case carried_QC x h of None \<Rightarrow> x_lockQuorumCert x
        | Some q \<Rightarrow> if newer_than_lock (x_lockQuorumCert x) q then Some q else x_lockQuorumCert x),
      x_highestCommitBlock := c, x_ForensicsQCs := qs\<rparr> \<and>
    (if \<exists>b. committable ev ch x h b then \<exists>b. committable ev ch x h b \<and> c = Some b else c = x_highestCommitBlock x)"
proof (cases "DecodeBytesExtraFields (h_Extra h)")
  case (Inl e)
  with assms have "y = x" "carried_QC x h = None" "\<And>b. \<not> committable ev ch x h b"
    by (auto simp: getExtraFields_def carried_QC_def committable_def has_round_def bindE_def)
  then show ?thesis by (intro exI [of _ "x_ForensicsQCs x"] exI [of _ "x_highestCommitBlock x"]) simp
next
  case (Inr d)
  from decoded_QC [OF Inr] obtain q where q: "ex_QC d = Some q" by blast
  let ?x1 = "if newer_than_lock (x_lockQuorumCert x) q then x\<lparr>x_lockQuorumCert := Some q\<rparr> else x"
  obtain r y1 where c: "commitBlocks ev ch h (ex_Round d) qc ?x1 = (r, y1)" by fastforce
  from assms Inr q c have "y = y1"
    by (cases r) (auto simp: getExtraFields_def bindE_def deref_def newer_than_lock_def split: if_splits option.splits)
  moreover have "has_round x h r' \<longleftrightarrow> r' = ex_Round d" for r' using assms(2) Inr by (auto simp: has_round_def)
  then have "committable ev ch x h b \<longleftrightarrow> three_chain ev ch ?x1 h (ex_Round d) b \<and> commits_over (x_highestCommitBlock ?x1) b" for b
    by (simp add: committable_def three_chain_def has_round_def xSwitchBlock_def)
  moreover have "carried_QC x h = Some q" using assms(2) Inr q by (simp add: carried_QC_def)
  ultimately have y: "y = y1" and com: "\<And>b. committable ev ch x h b \<longleftrightarrow> three_chain ev ch ?x1 h (ex_Round d) b \<and>
      commits_over (x_highestCommitBlock ?x1) b" and car: "carried_QC x h = Some q" by simp_all
  have lock: "?x1\<lparr>x_highestCommitBlock := c, x_ForensicsQCs := qs\<rparr> = x\<lparr>x_lockQuorumCert := (case carried_QC x h of
      None \<Rightarrow> x_lockQuorumCert x | Some q \<Rightarrow> if newer_than_lock (x_lockQuorumCert x) q then Some q else x_lockQuorumCert x),
      x_highestCommitBlock := c, x_ForensicsQCs := qs\<rparr>" for c qs
    by (simp add: car)
  show ?thesis
  proof (cases "\<exists>b. committable ev ch x h b")
    case True
    with commitBlocks_cases [OF c] com obtain b qs where "committable ev ch x h b"
      "y1 = ?x1\<lparr>x_highestCommitBlock := Some b, x_ForensicsQCs := qs\<rparr>" by (auto simp del: if_split)
    with y lock [of qs "Some b"] show ?thesis by auto
  next
    case False
    with commitBlocks_cases [OF c] com have "y1 = ?x1\<lparr>x_highestCommitBlock := x_highestCommitBlock x, x_ForensicsQCs := x_ForensicsQCs x\<rparr>"
      by simp
    with y False lock [of "x_ForensicsQCs x" "x_highestCommitBlock x"] show ?thesis
      by (intro exI [of _ "x_ForensicsQCs x"] exI [of _ "x_highestCommitBlock x"]) simp
  qed
qed

text \<open>The state of \<open>processQC\<close> before it enters a new round.\<close>

definition after_QC :: "env \<Rightarrow> chain \<Rightarrow> QuorumCert \<Rightarrow> engine \<Rightarrow> engine \<Rightarrow> bool" where
  "after_QC ev ch qc x y \<longleftrightarrow>
     x_highestQuorumCert y = (if hqc x < bi_Round (qc_Block qc) then qc else x_highestQuorumCert x) \<and>
     (case GetHeaderByHash ch (bi_Hash (qc_Block qc)) of
        None \<Rightarrow> x_lockQuorumCert y = x_lockQuorumCert x \<and> x_highestCommitBlock y = x_highestCommitBlock x
      | Some h \<Rightarrow> if h_Number h \<le> xSwitchBlock x
          then x_lockQuorumCert y = x_lockQuorumCert x \<and> x_highestCommitBlock y = x_highestCommitBlock x
          else x_lockQuorumCert y = (case carried_QC x h of None \<Rightarrow> x_lockQuorumCert x
                | Some q \<Rightarrow> if newer_than_lock (x_lockQuorumCert x) q then Some q else x_lockQuorumCert x) \<and>
            (if \<exists>b. committable ev ch x h b then \<exists>b. committable ev ch x h b \<and> x_highestCommitBlock y = Some b
             else x_highestCommitBlock y = x_highestCommitBlock x))"

lemma after_QC_fields:
  "x_highestQuorumCert y = x_highestQuorumCert z \<Longrightarrow> x_lockQuorumCert y = x_lockQuorumCert z \<Longrightarrow>
   x_highestCommitBlock y = x_highestCommitBlock z \<Longrightarrow> after_QC ev ch qc x y \<longleftrightarrow> after_QC ev ch qc x z"
  by (simp only: after_QC_def)

lemma next_round_run:
  assumes "bindE (getE x_currentRound) (\<lambda>cur. if q \<ge> cur then setNewRound ev (q + 1) else returnE ()) x = (r, y)"
  shows "r = Inr () \<and> x_currentRound y = (if x_currentRound x \<le> q then q + 1 else x_currentRound x) \<and>
    x_highestQuorumCert y = x_highestQuorumCert x \<and> x_lockQuorumCert y = x_lockQuorumCert x \<and>
    x_highestCommitBlock y = x_highestCommitBlock x \<and> x_highestTimeoutCert y = x_highestTimeoutCert x"
  using assms by (cases "x_currentRound x \<le> q") (auto simp: bindE_def setNewRound_def)

definition read_certified :: "env \<Rightarrow> chain \<Rightarrow> QuorumCert \<Rightarrow> Header \<Rightarrow> unit engineM" where
  "read_certified ev ch qc h = bindE (getExtraFields h) (\<lambda>(pqc, round, _).
      bindE (getE x_lockQuorumCert) (\<lambda>lck. bindE (deref pqc) (\<lambda>q.
      bindE (if (case lck of None \<Rightarrow> True | Some l \<Rightarrow> bi_Round (qc_Block q) > bi_Round (qc_Block l))
          then putE (\<lambda>x. x\<lparr>x_lockQuorumCert := Some q\<rparr>) else returnE ()) (\<lambda>_.
      bindE (commitBlocks ev ch h round qc) (\<lambda>_. returnE ())))))"

lemma read_certified_effect:
  assumes "(if h_Number h > xSwitchBlock x then read_certified ev ch qc h else returnE ()) x0 = (res, y)"
    and x0: "x0 = (if hqc x < bi_Round (qc_Block qc) then x\<lparr>x_highestQuorumCert := qc\<rparr> else x)"
    and h: "GetHeaderByHash ch (bi_Hash (qc_Block qc)) = Some h"
  shows "after_QC ev ch qc x y \<and> x_currentRound y = x_currentRound x \<and> x_highestTimeoutCert y = x_highestTimeoutCert x"
proof (cases "h_Number h > xSwitchBlock x")
  case False
  with assms show ?thesis by (auto simp: after_QC_def)
next
  case True
  have same: "xSwitchBlock x0 = xSwitchBlock x" "x_lockQuorumCert x0 = x_lockQuorumCert x"
    "x_highestCommitBlock x0 = x_highestCommitBlock x" by (simp_all add: x0 xSwitchBlock_def)
  have more: "x_currentRound x0 = x_currentRound x" "x_highestTimeoutCert x0 = x_highestTimeoutCert x"
    "x_highestQuorumCert x0 = (if hqc x < bi_Round (qc_Block qc) then qc else x_highestQuorumCert x)" by (simp_all add: x0)
  have eqs: "carried_QC x0 h = carried_QC x h" "committable ev ch x0 h b \<longleftrightarrow> committable ev ch x h b" for b
    by (simp_all only: carried_QC_def committable_def has_round_def three_chain_def same)
  from True assms(1) same(1) have m: "read_certified ev ch qc h x0 = (res, y)" "h_Number h > xSwitchBlock x0" by simp_all
  from processQC_block [OF m(1) [unfolded read_certified_def] m(2)] obtain qs c where
    "y = x0\<lparr>x_lockQuorumCert := (case carried_QC x h of None \<Rightarrow> x_lockQuorumCert x
        | Some q \<Rightarrow> if newer_than_lock (x_lockQuorumCert x) q then Some q else x_lockQuorumCert x),
      x_highestCommitBlock := c, x_ForensicsQCs := qs\<rparr>"
    "if \<exists>b. committable ev ch x h b then \<exists>b. committable ev ch x h b \<and> c = Some b else c = x_highestCommitBlock x"
    unfolding eqs same by blast
  with True h more show ?thesis by (simp add: after_QC_def)
qed

lemma processQC_parts:
  "processQC ev ch (Some qc) x = bindE (putE (\<lambda>x. if hqc x < bi_Round (qc_Block qc) then x\<lparr>x_highestQuorumCert := qc\<rparr> else x)) (\<lambda>_.
     case GetHeaderByHash ch (bi_Hash (qc_Block qc)) of
       None \<Rightarrow> throwE (Errorf ''block not found'')
     | Some h \<Rightarrow> bindE (getE xSwitchBlock) (\<lambda>sb. bindE (if h_Number h > sb then read_certified ev ch qc h else returnE ()) (\<lambda>_.
         bindE (getE x_currentRound) (\<lambda>cur. if bi_Round (qc_Block qc) \<ge> cur then setNewRound ev (bi_Round (qc_Block qc) + 1) else returnE ())))) x"
  unfolding processQC_def read_certified_def hqc_def Let_def by (simp add: deref_def [of "Some qc"])

lemma processQC_run:
  assumes "processQC ev ch (Some qc) x = (r, y)"
  shows "after_QC ev ch qc x y \<and> quiet x y \<and> x_highestTimeoutCert y = x_highestTimeoutCert x \<and>
    x_currentRound y = (if r = Inr () \<and> x_currentRound x \<le> bi_Round (qc_Block qc) then bi_Round (qc_Block qc) + 1
      else x_currentRound x)"
proof -
  let ?x0 = "if hqc x < bi_Round (qc_Block qc) then x\<lparr>x_highestQuorumCert := qc\<rparr> else x"
  have q: "quiet x y" by (rule keepsD [OF quiet_processQC assms])
  show ?thesis
  proof (cases "GetHeaderByHash ch (bi_Hash (qc_Block qc))")
    case None
    with assms q show ?thesis by (auto simp: processQC_parts after_QC_def)
  next
    case (Some h)
    have sb: "xSwitchBlock ?x0 = xSwitchBlock x" by (simp add: xSwitchBlock_def)
    from assms Some have "bindE (if h_Number h > xSwitchBlock x then read_certified ev ch qc h else returnE ()) (\<lambda>_.
        bindE (getE x_currentRound) (\<lambda>cur. if bi_Round (qc_Block qc) \<ge> cur then setNewRound ev (bi_Round (qc_Block qc) + 1) else returnE ())) ?x0 = (r, y)"
      unfolding processQC_parts by (simp add: bindE_def [of "putE _"] bindE_def [of "getE xSwitchBlock"] sb split del: if_split)
    then show ?thesis
    proof (cases rule: bindE_runE)
      case (throws e)
      from read_certified_effect [OF throws(1) refl Some] throws(2) q show ?thesis by simp
    next
      case (continues u y1)
      from read_certified_effect [OF continues(1) refl Some] next_round_run [OF continues(2)] q
      show ?thesis by (simp add: after_QC_fields [of y y1])
    qed
  qed
qed

text \<open>
  Property C8.  What a certificate does, on every branch.  It becomes the highest certificate if it is of a
  later round than the one before.  If its block is a known block of v2, the certificate that block
  carries becomes the lock if it is of a later round than the lock; and the grandparent of the block is
  committed exactly when the three blocks are of consecutive rounds, and the grandparent is of a later
  round and no lower than what was committed before.  Without an error the node ends up in the round
  after the certificate, or stays in its round if that is later; with an error it stays.  Nothing is
  sent, and no vote is recorded.
\<close>

theorem processQC_effect:
  assumes "processQC ev ch (Some qc) x = (r, y)"
  shows "after_QC ev ch qc x y \<and> quiet x y \<and> x_highestTimeoutCert y = x_highestTimeoutCert x \<and>
    x_currentRound y = (if r = Inr () \<and> x_currentRound x \<le> bi_Round (qc_Block qc) then bi_Round (qc_Block qc) + 1
      else x_currentRound x)"
  using assms by (rule processQC_run)

end
