(* ===== verification/Epochs_Laws.thy ===== *)
theory Epochs_Laws
  imports Commits
begin

text \<open>
  Epochs: the epoch of a block as a fact about the blocks there are, independent of caches, databases
  and recursion; what \<open>getEpochSwitchInfo\<close> answers, and that it answers, in terms of it.
\<close>

section \<open>Blocks of an epoch\<close>

text \<open>The round of a block and the certificate it carries, for the switch block \<open>sw\<close>.\<close>

definition block_round :: "int \<Rightarrow> Header \<Rightarrow> Round option" where
  "block_round sw h = (if h_Number h = sw then Some 0
     else case DecodeBytesExtraFields (h_Extra h) of Inl _ \<Rightarrow> None | Inr d \<Rightarrow> Some (ex_Round d))"

definition block_QC :: "int \<Rightarrow> Header \<Rightarrow> QuorumCert option" where
  "block_QC sw h = (if h_Number h = sw then None
     else case DecodeBytesExtraFields (h_Extra h) of Inl _ \<Rightarrow> None | Inr d \<Rightarrow> ex_QC d)"

definition block_masternodes :: "int \<Rightarrow> Header \<Rightarrow> address list" where
  "block_masternodes sw h = (if h_Number h = sw then decodeMasternodesFromHeaderExtra h else GetMasternodesFromEpochSwitchHeader h)"

lemma has_round_block: "has_round x h r \<longleftrightarrow> block_round (xSwitchBlock x) h = Some r"
  by (auto simp: has_round_def block_round_def split: sum.splits)

lemma extra_block:
  assumes "getExtraFields h x = (Inr (q, r, ms), y)"
  shows "block_QC (xSwitchBlock x) h = q \<and> block_round (xSwitchBlock x) h = Some r \<and> block_masternodes (xSwitchBlock x) h = ms"
  using assms by (auto simp: runs block_QC_def block_round_def block_masternodes_def split: if_splits)

text \<open>A block starts an epoch if it is the switch block, or the first of v2, or the first of a new range of rounds.\<close>

definition starts_epoch :: "int \<Rightarrow> u64 \<Rightarrow> Header \<Rightarrow> bool" where
  "starts_epoch sw epoch h \<longleftrightarrow> h_Number h = sw \<or>
     (\<exists>q r. block_QC sw h = Some q \<and> block_round sw h = Some r \<and>
       (bi_Number (qc_Block q) = sw \<or> bi_Round (qc_Block q) < r - r mod epoch))"

lemma round2epoch_Add_run [runs]: "round2epoch_Add k b x = (r, y) \<longleftrightarrow>
    r = Inr () \<and> y = x\<lparr>x_round2epochBlockInfo := snd (Add k b (x_round2epochBlockInfo x))\<rparr>"
  by (auto simp: round2epoch_Add_def)

lemma IsEpochSwitch_value:
  assumes "IsEpochSwitch ev h x = (Inr (b, n), y)"
  shows "b \<longleftrightarrow> starts_epoch (xSwitchBlock x) (xEpoch x) h"
  using assms
  by (cases "h_Number h = xSwitchBlock x")
    (auto simp: IsEpochSwitch_def runs Let_def starts_epoch_def block_QC_def block_round_def eq_commute [of "Some q" "ex_QC d" for q d])

text \<open>
  What the switch block of an epoch says of it: masternodes, penalties, the block and its parent.  The
  standby nodes are not among it, they come from a snapshot that may be missing.
\<close>

definition switch_info :: "int \<Rightarrow> hash \<Rightarrow> Header \<Rightarrow> EpochSwitchInfo \<Rightarrow> bool" where
  "switch_info sw k h i \<longleftrightarrow> es_MasternodesLen i = length (es_Masternodes i) \<and>
     (if h_Number h = 0 then ExtraVanity + ExtraSeal \<le> length (h_Extra h) \<and>
        es_Masternodes i = ExtractAddressFromBytes (take (length (h_Extra h) - 65 - 32) (drop 32 (h_Extra h))) \<and>
        es_Penalties i = [] \<and> es_Block i = \<lparr>bi_Hash = k, bi_Round = 0, bi_Number = 0\<rparr> \<and> es_Parent i = None
      else es_Masternodes i = block_masternodes sw h \<and> es_Masternodes i \<noteq> [] \<and> es_Penalties i = ExtractAddressFromBytes (h_Penalties h) \<and>
        (\<exists>r. block_round sw h = Some r \<and> es_Block i = \<lparr>bi_Hash = k, bi_Round = r, bi_Number = h_Number h\<rparr>) \<and>
        es_Parent i = map_option qc_Block (block_QC sw h))"

text \<open>The epoch of the block \<open>k\<close> among the blocks \<open>T\<close>: go from parent to parent until a block starts an epoch.\<close>

inductive epoch_of :: "(hash \<Rightarrow> Header option) \<Rightarrow> int \<Rightarrow> u64 \<Rightarrow> nat \<Rightarrow> hash \<Rightarrow> EpochSwitchInfo \<Rightarrow> bool" for T sw epoch where
  switch: "T k = Some h \<Longrightarrow> starts_epoch sw epoch h \<Longrightarrow> switch_info sw k h i \<Longrightarrow> epoch_of T sw epoch 0 k i"
| later: "T k = Some h \<Longrightarrow> \<not> starts_epoch sw epoch h \<Longrightarrow> block_round sw h = Some r \<Longrightarrow> epoch_of T sw epoch n (h_ParentHash h) i \<Longrightarrow> epoch_of T sw epoch (Suc n) k i"

text \<open>Everything but the standby nodes is determined.\<close>

definition same_info :: "EpochSwitchInfo \<Rightarrow> EpochSwitchInfo \<Rightarrow> bool" where
  "same_info i j \<longleftrightarrow> es_Penalties i = es_Penalties j \<and> es_Masternodes i = es_Masternodes j \<and>
     es_MasternodesLen i = es_MasternodesLen j \<and> es_Block i = es_Block j \<and> es_Parent i = es_Parent j"

lemma epoch_of_unique: "epoch_of T sw epoch n k i \<Longrightarrow> epoch_of T sw epoch m k j \<Longrightarrow> n = m \<and> same_info i j"
proof (induction arbitrary: m j rule: epoch_of.induct)
  case (switch k h i)
  from switch(4) switch(1,2,3) show ?case by (cases rule: epoch_of.cases) (auto simp: switch_info_def same_info_def split: if_splits)
next
  case (later k h r n i)
  from later(6) show ?case
  proof (cases rule: epoch_of.cases)
    case (switch h')
    with later(1,2) show ?thesis by simp
  next
    case (later h' r' m')
    with \<open>T k = Some h\<close> show ?thesis using later.IH [of m' j] by simp
  qed
qed

section \<open>The cache\<close>

text \<open>Every cached answer is the epoch of its block.\<close>

definition cache_ok :: "(hash \<Rightarrow> Header option) \<Rightarrow> int \<Rightarrow> u64 \<Rightarrow> engine \<Rightarrow> bool" where
  "cache_ok T sw epoch x \<longleftrightarrow> xSwitchBlock x = sw \<and> xEpoch x = epoch \<and>
     lru.coherent (\<lambda>k i. \<exists>n. epoch_of T sw epoch n k i) (x_epochSwitches x)"

definition same_epochs :: "engine \<Rightarrow> engine \<Rightarrow> bool" where
  "same_epochs x y \<longleftrightarrow> x_epochSwitches y = x_epochSwitches x \<and> x_config y = x_config x"

interpretation epochs: action_preorder same_epochs
  by unfold_locales (auto simp: same_epochs_def)

lemma cache_ok_same: "same_epochs x y \<Longrightarrow> cache_ok T sw epoch y \<longleftrightarrow> cache_ok T sw epoch x"
  by (simp add: cache_ok_def same_epochs_def xSwitchBlock_def xEpoch_def)

lemma epochs_putE: "(\<And>x. x_epochSwitches (f x) = x_epochSwitches x \<and> x_config (f x) = x_config x) \<Longrightarrow> keeps same_epochs (putE f)"
  by (rule epochs.keeps_putE) (simp add: same_epochs_def)

lemma epochs_caches:
  "keeps same_epochs (snapshots_Get k)" "keeps same_epochs (snapshots_Add k sv)"
  "keeps same_epochs (round2epoch_Add rd b)" "keeps same_epochs (round2epoch_Get rd)"
  "keeps same_epochs (StoreSnapshot ev s)"
  by (auto simp: snapshots_Get_def snapshots_Add_def round2epoch_Add_def round2epoch_Get_def StoreSnapshot_def keeps_def same_epochs_def
      split: prod.splits option.splits)

lemma epochs_reads: "keeps same_epochs (deref p)" "keeps same_epochs (getExtraFields h)"
  unfolding deref_def getExtraFields_def by (intro epochs.keeps_rules)+

lemma epochs_getSnapshot: "keeps same_epochs (getSnapshot ev ch n b)"
  unfolding getSnapshot_def rebuildBootstrapSnapshot_def by (intro epochs.keeps_rules epochs_caches epochs_reads)

lemma epochs_IsEpochSwitch: "keeps same_epochs (IsEpochSwitch ev h)"
  unfolding IsEpochSwitch_def by (intro epochs.keeps_rules epochs_caches epochs_reads)

lemma epochs_standby: "keeps same_epochs (standby_of ev ch h ms ps)"
  unfolding standby_of_def by (intro epochs.keeps_rules epochs_getSnapshot)

lemma cache_Add:
  assumes "epochSwitches_Add k i x = (r, y)" "cache_ok T sw epoch x" "epoch_of T sw epoch n k i"
  shows "cache_ok T sw epoch y"
proof -
  have "\<exists>n. epoch_of T sw epoch n k i" using assms(3) by blast
  with lru.coherent_add [of "\<lambda>k i. \<exists>n. epoch_of T sw epoch n k i" "x_epochSwitches x" k i] assms(1,2)
  show ?thesis by (clarsimp simp: epochSwitches_Add_def cache_ok_def xSwitchBlock_def xEpoch_def)
qed

lemma cache_Get:
  assumes "epochSwitches_Get k x = (r, y)" "cache_ok T sw epoch x"
  shows "cache_ok T sw epoch y \<and> (\<forall>i. r = Inr (Some i) \<longrightarrow> (\<exists>n. epoch_of T sw epoch n k i))"
proof -
  let ?P = "\<lambda>k i. \<exists>n. epoch_of T sw epoch n k i"
  obtain v c where g: "Get k (x_epochSwitches x) = (v, c)" by (cases "Get k (x_epochSwitches x)")
  with assms have "r = Inr v" "y = x\<lparr>x_epochSwitches := c\<rparr>" by (simp_all add: epochSwitches_Get_def)
  moreover from assms(2) have "lru.coherent ?P (x_epochSwitches x)" by (simp add: cache_ok_def)
  note coh = lru.coherent_get [OF this, of k] lru.coherent_getD [OF this, of k]
  ultimately show ?thesis using assms(2) g coh by (auto simp: cache_ok_def xSwitchBlock_def xEpoch_def)
qed

section \<open>The epoch of a block, computed\<close>

text \<open>
  The headers that are given instead of looked up have the one asked for last, and each is the parent of
  the next.
\<close>

fun linked :: "(bytes \<Rightarrow> hash) \<Rightarrow> hash \<Rightarrow> Header list \<Rightarrow> bool" where
  "linked kc k [] = True"
| "linked kc k (h # hs) = (Header_Hash kc h = k \<and> linked kc (h_ParentHash h) hs)"

definition known_headers :: "(hash \<Rightarrow> Header option) \<Rightarrow> env \<Rightarrow> chain \<Rightarrow> Header list \<Rightarrow> bool" where
  "known_headers T ev ch hs \<longleftrightarrow> (\<forall>k h. GetHeaderByHash ch k = Some h \<longrightarrow> T k = Some h) \<and>
     (\<forall>h \<in> set hs. T (Header_Hash (keccak ev) h) = Some h)"

lemma known_butlast: "known_headers T ev ch hs \<Longrightarrow> known_headers T ev ch (butlast hs)"
  by (auto simp: known_headers_def dest: in_set_butlastD)

lemma header_for_known:
  assumes "header_for ev ch hs k x = (Inr h, y)" "known_headers T ev ch hs"
  shows "T k = Some h \<and> y = x"
  using assms by (auto simp: header_for_def known_headers_def split: if_splits option.splits)

lemma at_switch:
  assumes run: "epochInfo_at_switch ev ch h k x = (Inr i, y)" and ok: "cache_ok T sw epoch x"
    and h: "T k = Some h" "starts_epoch sw epoch h"
  shows "epoch_of T sw epoch 0 k i \<and> cache_ok T sw epoch y"
proof -
  have sw: "xSwitchBlock x = sw" using ok by (simp add: cache_ok_def)
  have "\<exists>x1 x2. cache_ok T sw epoch x1 \<and> switch_info sw k h i \<and> epochSwitches_Add k i x1 = (Inr (), x2) \<and> y = x2"
  proof (cases "h_Number h = 0")
    case True
    with run ok show ?thesis by (auto simp: epochInfo_at_switch_def runs Let_def switch_info_def)
  next
    case False
    let ?P = "ExtractAddressFromBytes (h_Penalties h)"
    let ?I = "\<lambda>q r ms st. \<lparr>es_Penalties = ?P, es_Standbynodes = st, es_Masternodes = ms, es_MasternodesLen = length ms,
      es_Block = \<lparr>bi_Hash = k, bi_Round = r, bi_Number = h_Number h\<rparr>, es_Parent = (case q of None \<Rightarrow> None | Some qc \<Rightarrow> Some (qc_Block qc))\<rparr>"
    let ?k = "\<lambda>(q, r, ms). if ms = [] then throwE (Errorf ''masternodes list is empty at epoch switch block'') else
      bindE (standby_of ev ch h ms ?P) (\<lambda>st. bindE (epochSwitches_Add k (?I q r ms st)) (\<lambda>_. returnE (?I q r ms st)))"
    from False run have "bindE (getExtraFields h) ?k x = (Inr i, y)" unfolding epochInfo_at_switch_def Let_def by (simp only: if_False)
    then obtain t x0 where t: "getExtraFields h x = (Inr t, x0)" "?k t x0 = (Inr i, y)" by (elim bindE_runE) auto
    from getExtraFields_state [of h x] t(1) have "x0 = x" by simp
    with t obtain q r ms st x1 where e: "getExtraFields h x = (Inr (q, r, ms), x)" "ms \<noteq> []"
        "standby_of ev ch h ms (ExtractAddressFromBytes (h_Penalties h)) x = (Inr st, x1)"
        "i = ?I q r ms st"
        "epochSwitches_Add k i x1 = (Inr (), y)"
      by (cases t) (auto simp: Let_def split: if_splits elim!: bindE_runE)
    have "cache_ok T sw epoch x1" using cache_ok_same [OF keepsD [OF epochs_standby e(3)]] ok by simp
    moreover have "switch_info sw k h i" using extra_block [OF e(1)] e(2,4) False sw
      by (auto simp: switch_info_def split: option.splits)
    ultimately show ?thesis using e(5) by blast
  qed
  then show ?thesis using cache_Add h epoch_of.switch by metis
qed

lemma epochInfo_rec_sound:
  assumes "epochInfo_rec n ev ch hs k x = (Inr i, y)" "cache_ok T sw epoch x" "known_headers T ev ch hs"
  shows "(\<exists>m. epoch_of T sw epoch m k i) \<and> cache_ok T sw epoch y"
  using assms
proof (induction n arbitrary: hs k x i y)
  case (Suc n)
  from Suc.prems(1) obtain c x1 where c: "epochSwitches_Get k x = (Inr c, x1)"
    "(case c of Some info \<Rightarrow> returnE info | None \<Rightarrow> bindE (header_for ev ch hs k) (\<lambda>h. bindE (IsEpochSwitch ev h) (\<lambda>(isEpochSwitch, _).
       if isEpochSwitch then epochInfo_at_switch ev ch h k
       else bindE (epochInfo_rec n ev ch (butlast hs) (h_ParentHash h)) (\<lambda>info.
         bindE (epochSwitches_Add k info) (\<lambda>_. returnE info))))) x1 = (Inr i, y)"
    by (auto elim!: bindE_runE)
  note get = cache_Get [OF c(1) Suc.prems(2)]
  show ?case
  proof (cases c)
    case (Some j)
    with c get show ?thesis by auto
  next
    case None
    with c(2) obtain h x2 b m x3 where h: "header_for ev ch hs k x1 = (Inr h, x2)" "IsEpochSwitch ev h x2 = (Inr (b, m), x3)"
      "(if b then epochInfo_at_switch ev ch h k else bindE (epochInfo_rec n ev ch (butlast hs) (h_ParentHash h)) (\<lambda>info.
         bindE (epochSwitches_Add k info) (\<lambda>_. returnE info))) x3 = (Inr i, y)"
      by (auto elim!: bindE_runE)
    from header_for_known [OF h(1) Suc.prems(3)] have T: "T k = Some h" "x2 = x1" by auto
    with get have ok: "cache_ok T sw epoch x2" by blast
    have ok3: "cache_ok T sw epoch x3" using cache_ok_same [OF keepsD [OF epochs_IsEpochSwitch h(2)]] ok by simp
    from IsEpochSwitch_value [OF h(2)] ok have b: "b \<longleftrightarrow> starts_epoch sw epoch h" by (simp add: cache_ok_def)
    show ?thesis
    proof (cases b)
      case True
      with h(3) b have "epochInfo_at_switch ev ch h k x3 = (Inr i, y)" "starts_epoch sw epoch h" by simp_all
      from at_switch [OF this(1) ok3 T(1) this(2)] show ?thesis by blast
    next
      case False
      with h(3) obtain x4 where x4: "epochInfo_rec n ev ch (butlast hs) (h_ParentHash h) x3 = (Inr i, x4)"
        "epochSwitches_Add k i x4 = (Inr (), y)" by (auto elim!: bindE_runE)
      from Suc.IH [OF x4(1) ok3 known_butlast [OF Suc.prems(3)]] obtain l where l: "epoch_of T sw epoch l (h_ParentHash h) i" "cache_ok T sw epoch x4" by blast
      have "\<exists>r. block_round sw h = Some r" using h(2) ok False b
        by (auto simp: IsEpochSwitch_def runs block_round_def cache_ok_def starts_epoch_def split: if_splits)
      then have "epoch_of T sw epoch (Suc l) k i" using T(1) False b l(1) epoch_of.later by blast
      with cache_Add [OF x4(2) l(2)] show ?thesis by blast
    qed
  qed
qed simp

text \<open>
  Property C12.  \<open>getEpochSwitchInfo\<close> answers what the blocks say, cached or not: as long as every cached
  entry is the epoch of its block, so is every answer, and the cache stays that way.  The answer does
  not depend on the state of the cache: two answers for the same block, of any two nodes with any two
  caches and views, agree on everything but the standby nodes.
\<close>

theorem epoch_info_from_blocks:
  assumes "getEpochSwitchInfo ev ch hs k x = (Inr i, y)" "cache_ok T sw epoch x" "known_headers T ev ch hs"
  shows "(\<exists>n. epoch_of T sw epoch n k i) \<and> cache_ok T sw epoch y \<and>
    (\<forall>ev' ch' hs' x' j y'. getEpochSwitchInfo ev' ch' hs' k x' = (Inr j, y') \<longrightarrow> cache_ok T sw epoch x' \<longrightarrow>
       known_headers T ev' ch' hs' \<longrightarrow> same_info i j)"
proof -
  have "\<exists>n. epoch_of T sw epoch n k j" if "getEpochSwitchInfo ev' ch' hs' k x' = (Inr j, y')" "cache_ok T sw epoch x'" "known_headers T ev' ch' hs'"
    for ev' ch' hs' x' j y'
    using epochInfo_rec_sound [OF that(1) [unfolded getEpochSwitchInfo_def] that(2,3)] by blast
  with epochInfo_rec_sound [OF assms(1) [unfolded getEpochSwitchInfo_def] assms(2,3)] show ?thesis
    using epoch_of_unique by blast
qed

text \<open>With the blocks back to the switch in the chain and that much stack, there is an answer.\<close>

lemma extra_ok:
  assumes "block_round (xSwitchBlock x) h = Some r"
  shows "getExtraFields h x = (Inr (block_QC (xSwitchBlock x) h, r, block_masternodes (xSwitchBlock x) h), x)"
  using assms by (auto simp: getExtraFields_def block_round_def block_QC_def block_masternodes_def split: if_splits sum.splits)

lemma carries_QC: "block_round sw h = Some r \<Longrightarrow> h_Number h \<noteq> sw \<Longrightarrow> \<exists>q. block_QC sw h = Some q"
  by (auto simp: block_round_def block_QC_def split: sum.splits dest: decoded_QC)

lemma IsEpochSwitch_ok:
  assumes "block_round (xSwitchBlock x) h = Some r"
  shows "\<exists>n y. IsEpochSwitch ev h x = (Inr (starts_epoch (xSwitchBlock x) (xEpoch x) h, n), y)"
proof -
  have "\<exists>b n y. IsEpochSwitch ev h x = (Inr (b, n), y)"
  proof (cases "h_Number h = xSwitchBlock x")
    case True
    then have "IsEpochSwitch ev h x = (Inr (True, Uint64 (h_Number h) div xEpoch x), x)" by (simp add: IsEpochSwitch_def)
    then show ?thesis by blast
  next
    case False
    from carries_QC [OF assms this] obtain q where "block_QC (xSwitchBlock x) h = Some q" by blast
    with False extra_ok [OF assms] show ?thesis by (auto simp: IsEpochSwitch_def deref_def Let_def round2epoch_Add_def)
  qed
  then obtain b n y where "IsEpochSwitch ev h x = (Inr (b, n), y)" by blast
  with IsEpochSwitch_value [OF this] show ?thesis by blast
qed

lemma at_switch_ok:
  assumes "switch_info (xSwitchBlock x) k h i"
  shows "\<exists>j y. epochInfo_at_switch ev ch h k x = (Inr j, y)"
proof (cases "h_Number h = 0")
  case True
  with assms show ?thesis by (auto simp: epochInfo_at_switch_def switch_info_def Let_def epochSwitches_Add_def)
next
  case False
  with assms obtain r where r: "block_round (xSwitchBlock x) h = Some r" "block_masternodes (xSwitchBlock x) h \<noteq> []"
    by (auto simp: switch_info_def)
  have st: "\<exists>st y. standby_of ev ch h ms ps x = (Inr st, y)" for ms ps
    by (auto simp: standby_of_def bindE_def tryE_def split: prod.splits)
  from st [of "block_masternodes (xSwitchBlock x) h" "ExtractAddressFromBytes (h_Penalties h)"] obtain s y where
    "standby_of ev ch h (block_masternodes (xSwitchBlock x) h) (ExtractAddressFromBytes (h_Penalties h)) x = (Inr s, y)" by blast
  with False r extra_ok [OF r(1)] show ?thesis by (simp add: epochInfo_at_switch_def Let_def epochSwitches_Add_def)
qed

text \<open>The header asked for is found, among the given ones or in the chain.\<close>

lemma header_for_ok:
  assumes "linked (keccak ev) k (rev hs)" "known_headers T ev ch hs" "T k = Some h" "GetHeaderByHash ch k = Some h"
  shows "header_for ev ch hs k x = (Inr h, x) \<and> linked (keccak ev) (h_ParentHash h) (rev (butlast hs))"
proof (cases hs rule: rev_cases)
  case Nil
  with assms show ?thesis by (simp add: header_for_def)
next
  case (snoc gs g)
  with assms have "g = h" by (auto simp: known_headers_def)
  with assms snoc show ?thesis by (simp add: header_for_def)
qed

lemma epochInfo_rec_ok:
  assumes "epoch_of T sw epoch n k i" "n < fuel" "\<And>j h. T j = Some h \<Longrightarrow> GetHeaderByHash ch j = Some h" "cache_ok T sw epoch x"
    and "linked (keccak ev) k (rev hs)" "known_headers T ev ch hs"
  shows "\<exists>j y. epochInfo_rec fuel ev ch hs k x = (Inr j, y)"
  using assms(1,2,4-6)
proof (induction arbitrary: fuel x hs rule: epoch_of.induct)
  case (switch k h i)
  then obtain m where fuel: "fuel = Suc m" by (cases fuel) auto
  obtain c x1 where g: "epochSwitches_Get k x = (Inr c, x1)" by (cases "Get k (x_epochSwitches x)") (simp add: epochSwitches_Get_def)
  note ok = cache_Get [OF g switch(5), THEN conjunct1]
  have "\<exists>r. block_round sw h = Some r" using switch(2) by (auto simp: starts_epoch_def block_round_def)
  then obtain r where "block_round (xSwitchBlock x1) h = Some r" using ok by (auto simp: cache_ok_def)
  from IsEpochSwitch_ok [OF this, of ev] switch(2) ok obtain l x2 where e: "IsEpochSwitch ev h x1 = (Inr (True, l), x2)"
    by (auto simp: cache_ok_def)
  have "cache_ok T sw epoch x2" using cache_ok_same [OF keepsD [OF epochs_IsEpochSwitch e]] ok by simp
  with at_switch_ok [of x2 k h i ev ch] switch(3) obtain j y where "epochInfo_at_switch ev ch h k x2 = (Inr j, y)" by (auto simp: cache_ok_def)
  with g e header_for_ok [OF switch(6,7,1) assms(3) [OF switch(1)]] show ?case by (cases c) (simp_all add: fuel)
next
  case (later k h r n i)
  then obtain m where fuel: "fuel = Suc m" "n < m" by (cases fuel) auto
  obtain c x1 where g: "epochSwitches_Get k x = (Inr c, x1)" by (cases "Get k (x_epochSwitches x)") (simp add: epochSwitches_Get_def)
  note ok = cache_Get [OF g later(7), THEN conjunct1]
  note hd = header_for_ok [OF later(8,9,1) assms(3) [OF later(1)]]
  have "block_round (xSwitchBlock x1) h = Some r" using ok later(3) by (simp add: cache_ok_def)
  from IsEpochSwitch_ok [OF this, of ev] later(2) ok obtain l x2 where e: "IsEpochSwitch ev h x1 = (Inr (False, l), x2)"
    by (auto simp: cache_ok_def)
  have "cache_ok T sw epoch x2" using cache_ok_same [OF keepsD [OF epochs_IsEpochSwitch e]] ok by simp
  from later.IH [OF fuel(2) this _ known_butlast [OF later(9)]] hd obtain j y where
    "epochInfo_rec m ev ch (butlast hs) (h_ParentHash h) x2 = (Inr j, y)" by blast
  with g e hd show ?case by (cases c) (auto simp: fuel epochSwitches_Add_def)
qed

lemma getEpochSwitchInfo_ok:
  assumes "epoch_of T sw epoch n k i" "n < depth ev" "cache_ok T sw epoch x" "\<And>j. GetHeaderByHash ch j = T j"
    and "linked (keccak ev) k (rev hs)" "\<And>h. h \<in> set hs \<Longrightarrow> T (Header_Hash (keccak ev) h) = Some h"
  shows "\<exists>j y. getEpochSwitchInfo ev ch hs k x = (Inr j, y) \<and> same_info i j \<and> cache_ok T sw epoch y"
proof -
  have kh: "known_headers T ev ch hs" using assms(4,6) by (simp add: known_headers_def)
  from epochInfo_rec_ok [OF assms(1,2) _ assms(3,5) kh] assms(4) obtain j y where
    r: "epochInfo_rec (depth ev) ev ch hs k x = (Inr j, y)" by auto
  from epochInfo_rec_sound [OF r assms(3) kh] epoch_of_unique [OF assms(1)] r show ?thesis
    by (auto simp: getEpochSwitchInfo_def)
qed

text \<open>
  Property C13.  \<open>getEpochSwitchInfo\<close> returns: if the epoch of a block is defined \<open>n\<close> blocks back, the blocks
  are in the chain, and the stack has room for more than \<open>n\<close> calls, the lookup succeeds with the epoch of
  the block, whatever is cached and however many of the headers are given in advance.
\<close>

theorem epoch_info_returns:
  assumes "epoch_of T sw epoch n k i" "n < depth ev" "cache_ok T sw epoch x" "\<And>j. GetHeaderByHash ch j = T j"
    and "linked (keccak ev) k (rev hs)" "\<And>h. h \<in> set hs \<Longrightarrow> T (Header_Hash (keccak ev) h) = Some h"
  shows "\<exists>j y. getEpochSwitchInfo ev ch hs k x = (Inr j, y) \<and> same_info i j \<and> cache_ok T sw epoch y"
  using assms by (rule getEpochSwitchInfo_ok)

end
