(* ===== verification/Header_Laws.thy ===== *)
theory Header_Laws
  imports Commits Epochs_Laws
begin

text \<open>
  What \<open>verifyHeader\<close> guarantees of a header it accepts, that a proposal built by \<open>Prepare\<close> carries what
  the verification asks for, and that the seal is recovered from it.
\<close>

section \<open>Accepted headers\<close>

definition follows_parent :: "env \<Rightarrow> chain \<Rightarrow> Header list \<Rightarrow> Header \<Rightarrow> Header \<Rightarrow> bool" where
  "follows_parent ev ch parents h parent \<longleftrightarrow>
     (if parents = [] then GetHeader ch (h_ParentHash h) (Uint64 (h_Number h) - 1) = Some parent else parent = last parents) \<and>
     Uint64 (h_Number parent) = Uint64 (h_Number h) - 1 \<and> Header_Hash (keccak ev) parent = h_ParentHash h \<and>
     (h_Number parent \<noteq> 0 \<longrightarrow> VerifyGaslimit (h_GasLimit parent) (h_GasLimit h) = Inr ()) \<and> h_GasUsed h \<le> h_GasLimit h"

text \<open>The proposer is the masternode whose turn the round is, the coinbase names it, and it signed the header.\<close>

definition sealed_by_leader :: "env \<Rightarrow> engine \<Rightarrow> Header \<Rightarrow> Round \<Rightarrow> address list \<Rightarrow> bool" where
  "sealed_by_leader ev x h round ms \<longleftrightarrow> h_Coinbase h \<in> set ms \<and> ms ! leaderIndex x round ms = h_Coinbase h \<and>
     (\<exists>sh. sigHash (keccak ev) h = Inr sh \<and> recover_signer ev sh (h_Validator h) = Inr (h_Coinbase h))"

lemma verify_proposer_iff: "verify_proposer ev h round ms x = (Inr (), y) \<longleftrightarrow> y = x \<and> sealed_by_leader ev x h round ms"
  using verifyMsgSignature_iff [of ev _ "h_Validator h" ms "h_Coinbase h"]
  by (auto simp: verify_proposer_def runs sealed_by_leader_def; blast)

lemma leaderIndex_core: "same_core x y \<Longrightarrow> leaderIndex y = leaderIndex x"
  by (simp add: leaderIndex_def fun_eq_iff same_core_config)

lemma sealed_core: "same_core x y \<Longrightarrow> sealed_by_leader ev y h r ms \<longleftrightarrow> sealed_by_leader ev x h r ms"
  by (simp add: sealed_by_leader_def leaderIndex_core)

text \<open>The masternodes of the header: those of its epoch, or those it announces, which a full check recomputes.\<close>

definition has_masternodes :: "env \<Rightarrow> chain \<Rightarrow> engine \<Rightarrow> Header \<Rightarrow> Round \<Rightarrow> bool \<Rightarrow> address list \<Rightarrow> bool" where
  "has_masternodes ev ch x h round full ms \<longleftrightarrow> (if starts_epoch (xSwitchBlock x) (xEpoch x) h then
       h_Nonce h = 0 \<and> h_Validators h \<noteq> [] \<and> length (h_Validators h) mod 20 = 0 \<and>
       (if full then \<exists>x1 x2 ps. same_core x x1 \<and> calcMasternodes ev ch (h_Number h) (h_ParentHash h) round x1 = (Inr (ms, ps), x2) \<and>
          mset ms = mset (ExtractAddressFromBytes (h_Validators h)) \<and> mset ps = mset (ExtractAddressFromBytes (h_Penalties h))
        else ms = ExtractAddressFromBytes (h_Validators h))
     else h_Validators h = [] \<and> h_Penalties h = [] \<and>
       (\<exists>x1 x2. same_core x x1 \<and> GetMasternodes ev ch (Some h) x1 = (Inr ms, x2)))"

lemma core_verify_masternodes [core_frame]: "keeps same_core (verify_masternodes ev ch h r full)"
  unfolding verify_masternodes_def by (intro core.keeps_rules core_frame)

lemma has_masternodes_core:
  assumes "same_core x y" "has_masternodes ev ch y h r full ms"
  shows "has_masternodes ev ch x h r full ms"
proof -
  have "starts_epoch (xSwitchBlock y) (xEpoch y) h \<longleftrightarrow> starts_epoch (xSwitchBlock x) (xEpoch x) h" by (simp add: starts_epoch_def same_core_config [OF assms(1)])
  with assms show ?thesis by (auto simp: has_masternodes_def split: if_splits intro: core.trans)
qed

lemma verify_masternodes_sound:
  assumes "verify_masternodes ev ch h round full x = (Inr ms, y)"
  shows "has_masternodes ev ch x h round full ms"
proof -
  from assms obtain b n x1 where e: "IsEpochSwitch ev h x = (Inr (b, n), x1)"
    by (auto simp: verify_masternodes_def runs)
  note b = IsEpochSwitch_value [OF e] and c = keepsD [OF core_IsEpochSwitch e]
  from assms e b c show ?thesis
    by (cases "starts_epoch (xSwitchBlock x) (xEpoch x) h"; cases full)
      (auto simp: verify_masternodes_def runs has_masternodes_def NonceDropVote_def AddressLength_def CompareSignersLists_mset)
qed

lemma verify_form_iff:
  "verify_form ev h full x = (Inr (), y) \<longleftrightarrow> y = x \<and> length (h_Validator h) = 65 \<and> (full \<longrightarrow> h_Time h \<le> now ev)"
  by (auto simp: verify_form_def runs)

lemma verify_parent_gas:
  assumes "verify_parent ev ch h parents x = (Inr parent, y)" "verify_gas parent h y = (Inr (), z)"
  shows "y = x \<and> z = x \<and> follows_parent ev ch parents h parent"
  using assms
  by (cases "VerifyGaslimit (h_GasLimit parent) (h_GasLimit h)")
    (auto simp: verify_parent_def verify_gas_def follows_parent_def Let_def runs split: option.splits if_splits)

lemma verify_extra_iff:
  "verify_extra h x = (Inr (qc, r), y) \<longleftrightarrow> y = x \<and> h_Number h \<noteq> xSwitchBlock x \<and>
     (\<exists>d. DecodeBytesExtraFields (h_Extra h) = Inr d \<and> ex_QC d = Some qc \<and> r = ex_Round d)"
  by (auto simp: verify_extra_def runs)

lemma verify_time_iff:
  "verify_time parent h r x = (Inr (), y) \<longleftrightarrow> y = x \<and> (\<exists>cfg. V2_Config r (cfg_V2 (x_config x)) = Some cfg \<and>
     (Uint64 (xSwitchBlock x) \<le> Uint64 (h_Number parent) \<longrightarrow> h_Time parent + word_of_int (MinePeriod cfg) \<le> h_Time h))"
  by (auto simp: verify_time_def runs Let_def not_less)

lemma verify_fields_iff:
  "verify_fields ev ch parent h x = (Inr (), y) \<longleftrightarrow> y = x \<and> (h_Nonce h = -1 \<or> h_Nonce h = 0) \<and> h_MixDigest h = 0 \<and>
     h_UncleHash h = keccak ev [0xC0] \<and> h_Difficulty h = 1 \<and> VerifyEip1559Header (chain_Config ch) (Some parent) h = Inr ()"
  by (auto simp: verify_fields_def runs NonceAuthVote_def NonceDropVote_def UncleHash_def)

lemma verifyHeader_steps:
  assumes "verifyHeader ev ch h parents full x = (Inr (), y)" "x_isInitilised x"
    and "Peek (Header_Hash (keccak ev) h) (x_verifiedHeaders x) = None"
  obtains x1 x2 x3 parent qc r ms where "same_core x x1"
    "verify_form ev h full x1 = (Inr (), x1)" "verify_parent ev ch h parents x1 = (Inr parent, x1)" "verify_gas parent h x1 = (Inr (), x1)"
    "verify_extra h x1 = (Inr (qc, r), x1)" "verify_time parent h r x1 = (Inr (), x1)" "bi_Round (qc_Block qc) < r"
    "verifyQC ev ch (Some qc) parents x1 = (Inr (), x2)" "same_core x x2" "verify_fields ev ch parent h x2 = (Inr (), x2)"
    "verify_masternodes ev ch h r full x2 = (Inr ms, x3)" "same_core x x3" "verify_proposer ev h r ms x3 = (Inr (), x3)"
proof -
  obtain c where g: "Get (Header_Hash (keccak ev) h) (x_verifiedHeaders x) = (None, c)"
    using Get_Peek [of "Header_Hash (keccak ev) h" "x_verifiedHeaders x"] assms(3) by (metis fst_conv prod.collapse)
  let ?x1 = "x\<lparr>x_verifiedHeaders := c\<rparr>"
  have get: "verifiedHeaders_Get (Header_Hash (keccak ev) h) x = (Inr None, ?x1)" by (simp add: verifiedHeaders_Get_def g)
  from assms(1,2) get obtain a parent b a' qcr b' r' x2 c' ms x3 x4 where
    run: "verify_form ev h full ?x1 = (Inr (), a)" "verify_parent ev ch h parents a = (Inr parent, b)" "verify_gas parent h b = (Inr (), a')"
    "verify_extra h a' = (Inr qcr, b')" "verify_time parent h (snd qcr) b' = (Inr (), r')" "\<not> snd qcr \<le> bi_Round (qc_Block (fst qcr))"
    "verifyQC ev ch (Some (fst qcr)) parents r' = (Inr (), x2)" "verify_fields ev ch parent h x2 = (Inr (), c')"
    "verify_masternodes ev ch h (snd qcr) full c' = (Inr ms, x3)" "verify_proposer ev h (snd qcr) ms x3 = (Inr (), x4)"
    unfolding verifyHeader_def by (auto split: if_splits)
  have eqs: "a = ?x1" "b = ?x1" "a' = ?x1" using run(1) verify_parent_gas [OF run(2,3)] by (auto simp: verify_form_iff)
  obtain qc r where qcr: "qcr = (qc, r)" by (cases qcr)
  from run eqs qcr have eqs': "b' = ?x1" "r' = ?x1" "c' = x2" "x4 = x3"
    by (auto simp: verify_extra_iff verify_time_iff verify_fields_iff verify_proposer_iff)
  have c1: "same_core x ?x1" by (rule same_core_updates)
  moreover from run(7) eqs' have c2: "same_core ?x1 x2" using keepsD [OF core_verifyQC] by blast
  moreover from run(9) eqs' have "same_core x2 x3" using keepsD [OF core_verify_masternodes] by blast
  ultimately have "same_core x x2" "same_core x x3" by (blast intro: core.trans)+
  with c1 run eqs eqs' qcr that [of ?x1 parent qc r x2 ms x3] show thesis by (simp add: not_le)
qed


section \<open>Proposals\<close>

text \<open>The masternodes among whom the turn of a round goes, after \<open>parent\<close>.\<close>

definition turn_masternodes :: "env \<Rightarrow> chain \<Rightarrow> engine \<Rightarrow> Round \<Rightarrow> Header \<Rightarrow> address list \<Rightarrow> bool" where
  "turn_masternodes ev ch x round parent ms \<longleftrightarrow> (\<exists>x1 x2 b n. isEpochSwitchAtRound round parent x = (Inr (b, n), x1) \<and>
     (if b then \<exists>ps. calcMasternodes ev ch (h_Number parent + 1) (Header_Hash (keccak ev) parent) round x1 = (Inr (ms, ps), x2)
      else GetMasternodes ev ch (Some parent) x1 = (Inr ms, x2)))"

lemma yourturn_True:
  assumes "yourturn ev ch round (Some parent) a x = (Inr True, y)"
  shows "x_highestSelfMinedRound x < round \<and> (\<exists>ms. turn_masternodes ev ch x round parent ms \<and> ms ! leaderIndex x round ms = a \<and> a \<in> set ms)"
proof -
  from assms obtain b n x1 ms x2 where
    e: "isEpochSwitchAtRound round parent x = (Inr (b, n), x1)" and
    m: "(if b then bindE (calcMasternodes ev ch (h_Number parent + 1) (Header_Hash (keccak ev) parent) round) (\<lambda>(ms, _). returnE ms)
      else GetMasternodes ev ch (Some parent)) x1 = (Inr ms, x2)" and
    r: "\<not> round \<le> x_highestSelfMinedRound x" "ms \<noteq> []" "Position ms a \<noteq> -1" "ms ! leaderIndex x2 round ms = a"
    unfolding yourturn_def by (auto simp: deref_def split: if_splits)
  have t: "turn_masternodes ev ch x round parent ms"
    using e m unfolding turn_masternodes_def
    by (intro exI [of _ x1] exI [of _ x2] exI [of _ b] exI [of _ n]) (cases b; auto)
  have "same_core x x1" by (rule keepsD [OF core_isEpochSwitchAtRound e])
  moreover have "keeps same_core (if b then bindE (calcMasternodes ev ch (h_Number parent + 1) (Header_Hash (keccak ev) parent) round)
      (\<lambda>(ms, _). returnE ms) else GetMasternodes ev ch (Some parent))" by (intro core.keeps_rules core_frame)
  then have "same_core x1 x2" using m by (rule keepsD)
  ultimately have "leaderIndex x2 = leaderIndex x" using leaderIndex_core core.trans by blast
  moreover have "a \<in> set ms" using r(3) Position_not_found [of 0 ms a] by (simp add: Position_def)
  ultimately show ?thesis using t r by auto
qed

lemma sigHash_Validator [simp]: "sigHash kc (h\<lparr>h_Validator := v\<rparr>) = sigHash kc h"
  by (simp add: sigHash_def header_prefix_def base_fee_writer_def)

text \<open>The fields of a proposal as \<open>Prepare\<close> fills them in.\<close>

definition proposal_of :: "env \<Rightarrow> chain \<Rightarrow> engine \<Rightarrow> Header \<Rightarrow> Header \<Rightarrow> address list \<Rightarrow> bool" where
  "proposal_of ev ch x h parent ms \<longleftrightarrow>
     h_ParentHash h = bi_Hash (qc_Block (x_highestQuorumCert x)) \<and>
     ExtraFields_EncodeToBytes \<lparr>ex_Round = x_currentRound x, ex_QC = Some (x_highestQuorumCert x)\<rparr> = Inr (h_Extra h) \<and>
     GetHeader ch (h_ParentHash h) (Uint64 (h_Number h) - 1) = Some parent \<and>
     (h_Number parent \<noteq> 0 \<longrightarrow> VerifyGaslimit (h_GasLimit parent) (h_GasLimit h) = Inr ()) \<and> h_GasUsed h \<le> h_GasLimit h \<and>
     turn_masternodes ev ch x (x_currentRound x) parent ms \<and> ms ! leaderIndex x (x_currentRound x) ms = x_signer x \<and>
     x_signer x \<in> set ms \<and> h_Coinbase h = x_signer x \<and> x_highestSelfMinedRound x < x_currentRound x \<and>
     h_Nonce h = 0 \<and> h_MixDigest h = 0 \<and> h_Difficulty h = 1 \<and> now ev \<le> h_Time h \<and>
     h_Time h \<in> {now ev, h_Time parent + Period (x_config x)}"

lemma Prepare_proposal:
  assumes "Prepare ev ch h0 x = (Inr h, y)"
  shows "\<exists>parent ms. proposal_of ev ch x h parent ms"
proof -
  let ?q = "x_highestQuorumCert x" and ?r = "x_currentRound x"
  obtain extra where enc: "h_ParentHash h0 = bi_Hash (qc_Block ?q)"
    "ExtraFields_EncodeToBytes \<lparr>ex_Round = ?r, ex_QC = Some ?q\<rparr> = Inr extra"
    using assms by (cases "ExtraFields_EncodeToBytes \<lparr>ex_Round = ?r, ex_QC = Some ?q\<rparr>") (auto simp: Prepare_def split: if_splits)
  let ?h2 = "h0\<lparr>h_Extra := extra, h_Nonce := 0, h_Difficulty := 1\<rparr>"
  obtain parent where p: "GetHeader ch (h_ParentHash h0) (Uint64 (h_Number h0) - 1) = Some parent"
    using assms enc by (cases "GetHeader ch (h_ParentHash h0) (Uint64 (h_Number h0) - 1)") (auto simp: Prepare_def Let_def)
  have gas: "(if h_Number parent \<noteq> 0 then VerifyGaslimit (h_GasLimit parent) (h_GasLimit h0) else Inr ()) = Inr ()"
    using assms enc p by (cases "h_Number parent = 0"; cases "VerifyGaslimit (h_GasLimit parent) (h_GasLimit h0)")
      (auto simp: Prepare_def Let_def)
  let ?fill = "\<lambda>b. if b then bindE (calcMasternodes ev ch (h_Number ?h2) (h_ParentHash ?h2) ?r) (\<lambda>(masterNodes, penalties).
        returnE (?h2\<lparr>h_Validators := h_Validators ?h2 @ ExtractAddressToBytes masterNodes,
          h_Penalties := h_Penalties ?h2 @ ExtractAddressToBytes penalties\<rparr>)) else returnE ?h2"
  let ?last = "\<lambda>h3. bindE (getE (\<lambda>x. h_Time parent + Period (x_config x))) (\<lambda>time.
      let h4 = h3\<lparr>h_MixDigest := 0, h_Time := (if time < now ev then now ev else time)\<rparr> in
      if h_Coinbase h4 \<noteq> x_signer x then throwE ErrCoinbaseMismatch else returnE h4)"
  have "\<not> h_GasUsed h0 > h_GasLimit h0 \<and> bindE (yourturn ev ch ?r (Some parent) (x_signer x)) (\<lambda>isMyTurn.
      if \<not> isMyTurn then throwE ErrNotReadyToMine else
      bindE (IsEpochSwitch ev ?h2) (\<lambda>(b, _). bindE (?fill b) ?last)) x = (Inr h, y)"
    using assms enc p gas by (cases "h_Number parent = 0") (simp_all add: Prepare_def Let_def calcDifficulty_def split: if_splits cong: if_cong)
  then obtain x1 b n x2 h3 x3 where
    r: "h_GasUsed h0 \<le> h_GasLimit h0" "yourturn ev ch ?r (Some parent) (x_signer x) x = (Inr True, x1)"
      "IsEpochSwitch ev ?h2 x1 = (Inr (b, n), x2)" "?fill b x2 = (Inr h3, x3)" "?last h3 x3 = (Inr h, y)"
    by (auto simp: not_less split: if_splits prod.splits)
  from r(5) have h: "h = h3\<lparr>h_MixDigest := 0, h_Time := (if h_Time parent + Period (x_config x3) < now ev then now ev
        else h_Time parent + Period (x_config x3))\<rparr>" "h_Coinbase h = x_signer x" by (auto simp: Let_def split: if_splits)
  have h3: "h3 = ?h2\<lparr>h_Validators := h_Validators h3, h_Penalties := h_Penalties h3\<rparr>" using r(4) by (cases b) auto
  have "keeps same_core (?fill b)" by (intro core.keeps_rules core_frame)
  then have "same_core x2 x3" using r(4) by (rule keepsD)
  with keepsD [OF core_yourturn r(2)] keepsD [OF core_IsEpochSwitch r(3)] have "same_core x x3" by (blast intro: core.trans)
  from yourturn_True [OF r(2)] obtain ms where ms: "x_highestSelfMinedRound x < ?r" "turn_masternodes ev ch x ?r parent ms"
    "ms ! leaderIndex x ?r ms = x_signer x" "x_signer x \<in> set ms" by blast
  have f: "h_ParentHash h3 = h_ParentHash h0" "h_Extra h3 = extra" "h_Number h3 = h_Number h0" "h_GasLimit h3 = h_GasLimit h0"
    "h_GasUsed h3 = h_GasUsed h0" "h_Nonce h3 = 0" "h_Difficulty h3 = 1" by (subst h3; simp)+
  have "proposal_of ev ch x h parent ms"
    using enc p gas r(1) ms h(2) f same_core_fields(1) [OF \<open>same_core x x3\<close>] unfolding proposal_of_def h(1)
    by (auto simp: not_less split: if_splits)
  then show ?thesis by blast
qed

lemma Seal_result:
  assumes "Seal ev ch stopped h x = (Inr (Some h'), y)"
  shows "\<exists>f sh sig d. x_signFn x = Some f \<and> sigHash (keccak ev) h = Inr sh \<and> f sh = Inr sig \<and> h' = h\<lparr>h_Validator := sig\<rparr> \<and>
    DecodeBytesExtraFields (h_Extra h) = Inr d \<and> x_highestSelfMinedRound y = ex_Round d"
  using assms unfolding Seal_def
  by (cases "sigHash (keccak ev) h"; cases "x_signFn x"; cases "DecodeBytesExtraFields (h_Extra h)")
    (auto simp: Let_def deref_def pureE_def split: if_splits)

text \<open>
  Property C14.  A proposal that \<open>Prepare\<close> builds and \<open>Seal\<close> signs extends the block of the highest certificate
  and carries that certificate and the current round, which the decoder reads back; it is of a round
  later than any this node has mined in, and the round is recorded; it names the masternode whose turn
  it is, this node, as coinbase; its time is not before the parent's time plus the period and not before
  the clock; and if signatures of the node's key are recovered to its address, the check of the proposer
  that other nodes make succeeds.
\<close>

theorem sealed_proposal:
  assumes "Prepare ev ch h0 x = (Inr h, x1)" "Seal ev ch stopped h x1 = (Inr (Some h'), y)"
    and "\<And>f sh sig. x_signFn x = Some f \<Longrightarrow> f sh = Inr sig \<Longrightarrow> recover_signer ev sh sig = Inr (x_signer x)"
  shows "\<exists>parent ms. proposal_of ev ch x h' parent ms \<and> sealed_by_leader ev x h' (x_currentRound x) ms \<and>
    DecodeBytesExtraFields (h_Extra h') = Inr \<lparr>ex_Round = x_currentRound x, ex_QC = Some (x_highestQuorumCert x)\<rparr> \<and>
    x_highestSelfMinedRound y = x_currentRound x"
proof -
  from Prepare_proposal [OF assms(1)] obtain parent ms where p: "proposal_of ev ch x h parent ms" by blast
  from Seal_result [OF assms(2)] obtain f sh sig d where
    s: "x_signFn x1 = Some f" "sigHash (keccak ev) h = Inr sh" "f sh = Inr sig" "h' = h\<lparr>h_Validator := sig\<rparr>"
      "DecodeBytesExtraFields (h_Extra h) = Inr d" "x_highestSelfMinedRound y = ex_Round d" by blast
  have sf: "x_signFn x1 = x_signFn x" by (rule same_core_fields(3) [OF keepsD [OF core_Prepare assms(1)]])
  from p s(5) extra_fields_codec [of "h_Extra h" d] have "DecodeBytesExtraFields (h_Extra h) =
      Inr \<lparr>ex_Round = x_currentRound x, ex_QC = Some (x_highestQuorumCert x)\<rparr>"
    by (intro extra_fields_codec [THEN iffD2]) (simp add: proposal_of_def)
  moreover from this s(5,6) have "x_highestSelfMinedRound y = x_currentRound x" by simp
  moreover have "proposal_of ev ch x h' parent ms" using p s(4) by (auto simp: proposal_of_def)
  moreover have "sealed_by_leader ev x h' (x_currentRound x) ms"
    using p s sf assms(3) by (simp add: proposal_of_def sealed_by_leader_def)
  ultimately show ?thesis using s(4) by (intro exI [of _ parent] exI [of _ ms]) simp
qed

end
