(* ===== verification/Moves.thy ===== *)
theory Moves
  imports Commits
begin

text \<open>
  What drives a node: every entry point of the engine changes the certificates, the lock, the committed
  block and the round only by processing certificates, and a quorum certificate is processed only after
  its block has been checked, or because a proposal carries it.  The relation \<open>moves\<close> has these
  changes one by one; what holds along it holds of the whole engine.
\<close>

section \<open>Moves\<close>

text \<open>
  \<open>K\<close> restricts the views of the chain and the clocks the calls are made with, and \<open>B\<close> the proposals
  that are handled.
\<close>

inductive moves :: "(env \<Rightarrow> chain \<Rightarrow> bool) \<Rightarrow> (env \<Rightarrow> Header \<Rightarrow> bool) \<Rightarrow> engine \<Rightarrow> engine \<Rightarrow> bool" for K B where
  idle: "progress y = progress x \<Longrightarrow> moves K B x y"
| checked: "K ev ch \<Longrightarrow> describes ev ch x None (qc_Block qc) \<Longrightarrow> processQC ev ch (Some qc) x = (r, y) \<Longrightarrow> moves K B x y"
| proposed: "K ev ch \<Longrightarrow> B ev h \<Longrightarrow> getExtraFields h x = (Inr (Some qc, rd, ms), x) \<Longrightarrow>
    processQC ev ch (Some qc) x = (r, y) \<Longrightarrow> moves K B x y"
| timed_out: "processTC ev (Some tc) x = (r, y) \<Longrightarrow> moves K B x y"

interpretation mv: action_preorder "(moves K B)\<^sup>*\<^sup>*" for K B
  by unfold_locales auto

lemma moves_idle: "progress y = progress x \<Longrightarrow> (moves K B)\<^sup>*\<^sup>* x y"
  by (blast intro: moves.idle)

lemma mv_core: "keeps same_core m \<Longrightarrow> keeps (moves K B)\<^sup>*\<^sup>* m"
  by (erule keeps_mono) (rule moves_idle, rule progress_core)

lemmas mv_frame = core_frame [THEN mv_core]

lemma mv_putE: "(\<And>x. progress (f x) = progress x) \<Longrightarrow> keeps (moves K B)\<^sup>*\<^sup>* (putE f)"
  by (rule mv.keeps_putE, rule moves_idle)

lemma mv_bind:
  assumes "bindE m f x = (r, y)" "(moves K B)\<^sup>*\<^sup>* x (snd (m x))" "\<And>a. keeps (moves K B)\<^sup>*\<^sup>* (f a)"
  shows "(moves K B)\<^sup>*\<^sup>* x y"
  using assms(1)
proof (cases rule: bindE_runE)
  case (throws e)
  with assms(2) show ?thesis by simp
next
  case (continues a x1)
  from assms(2) continues(1) have "(moves K B)\<^sup>*\<^sup>* x x1" by simp
  also have "(moves K B)\<^sup>*\<^sup>* x1 y" by (rule keepsD [OF assms(3) continues(2)])
  finally show ?thesis .
qed

section \<open>Entry points\<close>

lemma mv_processTC: "keeps (moves K B)\<^sup>*\<^sup>* (processTC ev tcp)"
proof (cases tcp)
  case None
  then show ?thesis by (simp add: processTC_def deref_def keeps_def)
next
  case (Some tc)
  then show ?thesis by (auto simp: keeps_def intro: moves.timed_out prod.collapse [symmetric])
qed

lemma mv_voteHandler:
  assumes "K ev ch"
  shows "keeps (moves K B)\<^sup>*\<^sup>* (voteHandler ev ch v)"
proof (rule keepsI)
  fix x r y
  assume "voteHandler ev ch v x = (r, y)"
  then show "(moves K B)\<^sup>*\<^sup>* x y"
  proof (cases rule: voteHandler_cases)
    case nothing
    then show ?thesis by (rule moves_idle)
  next
    case (threshold votes x1 y1 r1)
    have "(moves K B)\<^sup>*\<^sup>* x y1" using onVotePool_cases [OF threshold(4)]
    proof
      assume "same_core x1 y1"
      with threshold(3) show ?thesis by (intro moves_idle) (simp add: progress_core)
    next
      assume "\<exists>info x2 sigs. getEpochSwitchInfo ev ch [] (bi_Hash (v_Block v)) x1 = (Inr info, x2) \<and>
        quorum_of ev x1 info (bi_Round (v_Block v)) (VoteSigHash (keccak ev) (v_Block v) (v_GapNumber v)) sigs \<and>
        processQC ev ch (Some \<lparr>qc_Block = v_Block v, qc_Signatures = sigs, qc_GapNumber = v_GapNumber v\<rparr>) x2 = (r1, y1)"
      then obtain info x2 sigs where x2: "getEpochSwitchInfo ev ch [] (bi_Hash (v_Block v)) x1 = (Inr info, x2)"
        and qc: "processQC ev ch (Some \<lparr>qc_Block = v_Block v, qc_Signatures = sigs, qc_GapNumber = v_GapNumber v\<rparr>) x2 = (r1, y1)"
        by blast
      from keepsD [OF core_getEpochSwitchInfo x2] threshold(3) have p: "progress x2 = progress x" by (simp add: progress_core)
      then have "describes ev ch x2 None (v_Block v)" using threshold(1)
        by (simp add: progress_def describes_def has_round_def)
      with assms qc have "moves K B x2 y1" by (intro moves.checked [of K ev ch x2 _ r1]) simp_all
      with p show ?thesis by (blast intro: moves.idle rtranclp.intros)
    qed
    with threshold(5) show ?thesis by (blast intro: moves.idle rtranclp.rtrancl_into_rtrancl)
  qed
qed

lemma mv_broadcast: "keeps (moves K B)\<^sup>*\<^sup>* (broadcastToBftChannel m)"
  unfolding broadcastToBftChannel_def by (rule mv_putE) (simp add: progress_def xSwitchBlock_def)

lemma mv_pools: "keeps (moves K B)\<^sup>*\<^sup>* (timeoutPool_Add ev t)"
  by (auto simp: timeoutPool_Add_def keeps_def progress_def xSwitchBlock_def split: prod.splits intro!: moves_idle)

lemma mv_sendVote: "K ev ch \<Longrightarrow> keeps (moves K B)\<^sup>*\<^sup>* (sendVote ev ch b)"
  unfolding sendVote_def
  by (intro mv.keeps_rules mv_frame mv_voteHandler mv_broadcast mv_putE) (simp_all add: progress_def xSwitchBlock_def)

lemma mv_ProposedBlockHandler:
  assumes "K ev ch" "K ev ch'" "B ev h"
  shows "keeps (moves K B)\<^sup>*\<^sup>* (ProposedBlockHandler ev ch ch' h)"
proof (rule keepsI)
  fix x r y
  assume run: "ProposedBlockHandler ev ch ch' h x = (r, y)"
  show "(moves K B)\<^sup>*\<^sup>* x y"
  proof (cases rule: extra_round [of h x])
    case (error e)
    with run show ?thesis by (simp add: ProposedBlockHandler_def)
  next
    case (ok qcp rd ms)
    let ?b = "\<lparr>bi_Hash = Header_Hash (keccak ev) h, bi_Round = rd, bi_Number = h_Number h\<rparr>"
    let ?k = "bindE (allowedToSend ev ch (Some h)) (\<lambda>allow. if \<not> allow then returnE () else
      bindE (deref qcp) (\<lambda>qc. bindE (verifyVotingRule ch ?b qc) (\<lambda>verified.
      if verified then if \<not> handles ev ch' h then returnE () else sendVote ev ch' ?b else returnE ())))"
    have k: "keeps (moves K B)\<^sup>*\<^sup>* ?k" by (intro mv.keeps_rules mv_frame mv_sendVote assms)
    from run ok have "y = x \<or> bindE (processQC ev ch qcp) (\<lambda>_. ?k) x = (r, y)"
      by (auto simp: ProposedBlockHandler_def Let_def split: if_splits)
    moreover have "(moves K B)\<^sup>*\<^sup>* x y" if "bindE (processQC ev ch qcp) (\<lambda>_. ?k) x = (r, y)"
    proof (cases qcp)
      case None
      with that show ?thesis by (simp add: processQC_def deref_def)
    next
      case (Some qc)
      have "(moves K B)\<^sup>*\<^sup>* x (snd (processQC ev ch (Some qc) x))"
        using assms ok(1) Some by (blast intro: moves.proposed prod.collapse [symmetric])
      with that Some k show ?thesis by (intro mv_bind [OF that]) simp_all
    qed
    ultimately show ?thesis by auto
  qed
qed

lemma mv_timeoutHandler: "keeps (moves K B)\<^sup>*\<^sup>* (timeoutHandler ev ch t)"
  unfolding timeoutHandler_def onTimeoutPoolThresholdReached_def
  by (intro mv.keeps_rules mv_frame mv_pools mv_processTC mv_broadcast)

lemma mv_OnCountdownTimeout: "keeps (moves K B)\<^sup>*\<^sup>* (OnCountdownTimeout ev ch)"
  unfolding OnCountdownTimeout_def sendTimeout_def
  by (intro mv.keeps_rules mv_frame mv_timeoutHandler mv_broadcast mv_putE) (simp_all add: progress_def xSwitchBlock_def)

lemma mv_enqueue: "keeps (moves K B)\<^sup>*\<^sup>* (enqueueForBroadcast b m)"
  unfolding enqueueForBroadcast_def by (intro mv.keeps_rules mv_putE) (simp add: progress_def xSwitchBlock_def)

text \<open>A synchronisation message is handled only after its certificate has been verified.\<close>

lemma VerifySyncInfoMessage_True:
  assumes "VerifySyncInfoMessage ev ch si x = (Inr True, y)"
  shows "\<exists>qc. si_QC si = Some qc \<and> describes ev ch x None (qc_Block qc)"
proof -
  from assms obtain qc x1 where "si_QC si = Some qc" "verifyQC ev ch (Some qc) [] x = (Inr (), x1)"
    by (auto simp: VerifySyncInfoMessage_def runs split: if_splits)
  then show ?thesis using verifyQC_accepts [of ev ch qc "[]" x] by (auto simp: valid_QC_def Let_def)
qed

lemma mv_SyncInfoHandler:
  assumes "K ev ch" "si_QC si = Some qc" "describes ev ch x None (qc_Block qc)" "SyncInfoHandler ev ch si x = (r, y)"
  shows "(moves K B)\<^sup>*\<^sup>* x y"
proof -
  have "(moves K B)\<^sup>*\<^sup>* x (snd (processQC ev ch (Some qc) x))"
    using assms(1,3) by (blast intro: moves.checked prod.collapse [symmetric])
  with assms(2) show ?thesis by (intro mv_bind [OF assms(4) [unfolded SyncInfoHandler_def]] mv_processTC) simp
qed

lemma mv_Bfter_SyncInfo:
  assumes "K ev ch"
  shows "keeps (moves K B)\<^sup>*\<^sup>* (Bfter_SyncInfo ev ch b sp)"
proof (rule keepsI)
  fix x r y
  assume run: "Bfter_SyncInfo ev ch b sp x = (r, y)"
  let ?k = "\<lambda>si verified. if verified then bindE (enqueueForBroadcast b (MSyncInfo si)) (\<lambda>sent.
      if \<not> sent then returnE () else SyncInfoHandler ev ch si) else returnE ()"
  from run have "y = x \<or> (\<exists>si. bindE (VerifySyncInfoMessage ev ch si) (?k si) x = (r, y))"
    by (auto simp: Bfter_SyncInfo_def Let_def split: option.splits if_splits)
  moreover have "(moves K B)\<^sup>*\<^sup>* x y" if "bindE (VerifySyncInfoMessage ev ch si) (?k si) x = (r, y)" for si
    using that core_verify_messages(3)
  proof (cases rule: lookup_first)
    case fails
    then show ?thesis by (intro moves_idle) (rule progress_core)
  next
    case (goes_on v x1)
    show ?thesis
    proof (cases v)
      case False
      with goes_on show ?thesis by (intro moves_idle) (simp add: progress_core)
    next
      case True
      from goes_on(1) True have "VerifySyncInfoMessage ev ch si x = (Inr True, x1)" by simp
      from VerifySyncInfoMessage_True [OF this] obtain qc where
        qc: "si_QC si = Some qc" "describes ev ch x None (qc_Block qc)" by blast
      let ?x2 = "x1\<lparr>x_BroadcastCh := x_BroadcastCh x1 @ [MSyncInfo si]\<rparr>"
      have "progress ?x2 = progress x1" by (simp add: progress_def xSwitchBlock_def)
      moreover from goes_on(3) True have "y = x1 \<or> SyncInfoHandler ev ch si ?x2 = (r, y)"
        by (auto simp: enqueueForBroadcast_def split: if_splits)
      ultimately obtain x2 where x2: "progress x2 = progress x1" "y = x2 \<or> SyncInfoHandler ev ch si x2 = (r, y)" by blast
      with goes_on(2) have p: "progress x2 = progress x" by (simp add: progress_core)
      with qc(2) have d: "describes ev ch x2 None (qc_Block qc)" by (simp add: progress_def describes_def has_round_def)
      from x2(2) have "(moves K B)\<^sup>*\<^sup>* x2 y" using mv_SyncInfoHandler [where K = K, OF assms qc(1) d] by blast
      with p show ?thesis by (blast intro: moves.idle converse_rtranclp_into_rtranclp)
    qed
  qed
  ultimately show "(moves K B)\<^sup>*\<^sup>* x y" by auto
qed

lemma mv_Bfter:
  "K ev ch \<Longrightarrow> keeps (moves K B)\<^sup>*\<^sup>* (Bfter_Vote ev ch b v)" "keeps (moves K B)\<^sup>*\<^sup>* (Bfter_Timeout ev ch b t)"
  unfolding Bfter_Vote_def Bfter_Timeout_def
  by (intro mv.keeps_rules mv_frame mv_enqueue mv_voteHandler mv_timeoutHandler; assumption)+

lemma mv_jobs:
  "keeps (moves K B)\<^sup>*\<^sup>* hygieneVotePool" "keeps (moves K B)\<^sup>*\<^sup>* hygieneTimeoutPool" "keeps (moves K B)\<^sup>*\<^sup>* (Seal ev ch s h)"
  unfolding hygieneVotePool_def hygieneTimeoutPool_def Seal_def
  by (intro mv.keeps_rules mv_frame mv_putE; simp add: progress_def xSwitchBlock_def)+

lemma mv_UpdateParams: "keeps (moves K B)\<^sup>*\<^sup>* (UpdateParams h)"
proof (rule keepsI)
  fix x r y
  assume "UpdateParams h x = (r, y)"
  then have "progress y = progress x"
    by (auto simp: UpdateParams_def bindE_def tryE_def deref_def Let_def progress_def xSwitchBlock_def UpdateConfig_def
        getExtraFields_def split: if_splits sum.splits option.splits prod.splits)
  then show "(moves K B)\<^sup>*\<^sup>* x y" by (rule moves_idle)
qed

end
