(* ===== verification/Protocol.thy ===== *)
theory Protocol
  imports Moves
begin

text \<open>
  A node of the protocol as a state machine.  A step is one call of an entry point of the engine: a
  message from a peer, a proposal, the countdown, the miner, the verification of a header, or a
  periodic job; the environment and the chain of each call are arbitrary.  A run starts with a
  successful \<open>Initial\<close>.  Steps are labelled with the votes this node casts.
\<close>

section \<open>Steps and runs\<close>

fun vote_of :: "bft_msg \<Rightarrow> Vote list" where
  "vote_of (MVote v) = [v]"
| "vote_of _ = []"

text \<open>The votes a step put on the broadcast channel.\<close>

definition new_votes :: "engine \<Rightarrow> engine \<Rightarrow> Vote list" where
  "new_votes x y = concat (map vote_of (drop (length (x_BroadcastCh x)) (x_BroadcastCh y)))"

inductive node_step :: "(env \<Rightarrow> chain \<Rightarrow> bool) \<Rightarrow> (env \<Rightarrow> Header \<Rightarrow> bool) \<Rightarrow> engine \<Rightarrow> Vote list \<Rightarrow> engine \<Rightarrow> bool"
  for K B where
  propose: "K ev ch \<Longrightarrow> K ev ch' \<Longrightarrow> B ev h \<Longrightarrow> ProposedBlockHandler ev ch ch' h x = (r, y) \<Longrightarrow> node_step K B x (new_votes x y) y"
| vote: "K ev ch \<Longrightarrow> Bfter_Vote ev ch b v x = (r, y) \<Longrightarrow> node_step K B x [] y"
| timeout: "K ev ch \<Longrightarrow> Bfter_Timeout ev ch b t x = (r, y) \<Longrightarrow> node_step K B x [] y"
| sync_info: "K ev ch \<Longrightarrow> Bfter_SyncInfo ev ch b si x = (r, y) \<Longrightarrow> node_step K B x [] y"
| countdown: "K ev ch \<Longrightarrow> OnCountdownTimeout ev ch x = (r, y) \<Longrightarrow> node_step K B x [] y"
| verify_header: "K ev ch \<Longrightarrow> verifyHeader ev ch h parents full x = (r, y) \<Longrightarrow> node_step K B x [] y"
| your_turn: "K ev ch \<Longrightarrow> YourTurn ev ch p a x = (rt, y) \<Longrightarrow> node_step K B x [] y"
| prepare: "K ev ch \<Longrightarrow> Prepare ev ch h x = (rp, y) \<Longrightarrow> node_step K B x [] y"
| seal: "K ev ch \<Longrightarrow> Seal ev ch stopped h x = (rs, y) \<Longrightarrow> node_step K B x [] y"
| update_params: "UpdateParams h x = (r, y) \<Longrightarrow> node_step K B x [] y"
| hygiene_votes: "hygieneVotePool x = (r, y) \<Longrightarrow> node_step K B x [] y"
| hygiene_timeouts: "hygieneTimeoutPool x = (r, y) \<Longrightarrow> node_step K B x [] y"
| authorize: "node_step K B x [] (Authorize a f x)"
| update_masternodes: "UpdateMasternodes ev h ms x = (r, y) \<Longrightarrow> node_step K B x [] y"
| cache_snapshot: "CacheSnapshot snap x = (r, y) \<Longrightarrow> node_step K B x [] y"

inductive started :: "(env \<Rightarrow> chain \<Rightarrow> bool) \<Rightarrow> (env \<Rightarrow> Header \<Rightarrow> bool) \<Rightarrow> engine \<Rightarrow> bool" for K B where
  start: "K ev ch \<Longrightarrow> B ev h \<Longrightarrow> Initial ev ch build h (New config db) = (Inr (), x) \<Longrightarrow> started K B x"

inductive node_run :: "(env \<Rightarrow> chain \<Rightarrow> bool) \<Rightarrow> (env \<Rightarrow> Header \<Rightarrow> bool) \<Rightarrow> engine \<Rightarrow> Vote list \<Rightarrow> engine \<Rightarrow> bool"
  for K B where
  stop: "node_run K B x [] x"
| more: "node_run K B x vs y \<Longrightarrow> node_step K B y ws z \<Longrightarrow> node_run K B x (vs @ ws) z"

text \<open>With no restriction on the views and the proposals.\<close>

abbreviation any_view :: "env \<Rightarrow> chain \<Rightarrow> bool" where "any_view \<equiv> \<lambda>_ _. True"
abbreviation any_block :: "env \<Rightarrow> Header \<Rightarrow> bool" where "any_block \<equiv> \<lambda>_ _. True"

section \<open>Initialisation\<close>

lemma initial_sets: "initial ev ch h x = (Inr (), y) \<Longrightarrow> x_isInitilised y"
  unfolding initial_def by (auto split: if_splits)

lemma started_initialised: "started K B x \<Longrightarrow> x_isInitilised x"
proof (induction rule: started.induct)
  case (start ev ch h build config db x)
  then obtain x1 where x1: "initial ev ch h (New config db) = (Inr (), x1)"
      and x: "RepairGapSnapshots ev ch build x1 = (Inr (), x)"
    by (auto simp: Initial_def)
  from initial_sets [OF x1] same_core_fields(15) [OF keepsD [OF core_RepairGapSnapshots x]]
  show ?case by simp
qed

text \<open>On an initialised engine the verification of a header is a lookup.\<close>

lemma core_verify_parts:
  "keeps same_core (verify_form ev h f)" "keeps same_core (verify_parent ev ch h ps)" "keeps same_core (verify_gas p h)"
  "keeps same_core (verify_extra h)" "keeps same_core (verify_time p h r)" "keeps same_core (verify_fields ev ch p h)"
  "keeps same_core (verify_masternodes ev ch h r f)" "keeps same_core (verify_proposer ev h r ms)"
  unfolding verify_form_def verify_parent_def verify_gas_def verify_extra_def verify_time_def verify_fields_def
    verify_masternodes_def verify_proposer_def
  by (intro core.keeps_rules core_frame)+

lemma same_core_verifyHeader:
  assumes "x_isInitilised x"
  shows "same_core x (snd (verifyHeader ev ch h ps full x))"
proof -
  let ?m = "bindE (verifiedHeaders_Get (Header_Hash (keccak ev) h)) (\<lambda>known.
    if known \<noteq> None then returnE () else
    bindE (verify_form ev h full) (\<lambda>_.
    bindE (verify_parent ev ch h ps) (\<lambda>parent.
    bindE (verify_gas parent h) (\<lambda>_.
    bindE (verify_extra h) (\<lambda>(quorumCert, round).
    bindE (verify_time parent h round) (\<lambda>_.
    if round \<le> bi_Round (qc_Block quorumCert) then throwE ErrRoundInvalid else
    bindE (verifyQC ev ch (Some quorumCert) ps) (\<lambda>_.
    bindE (verify_fields ev ch parent h) (\<lambda>_.
    bindE (verify_masternodes ev ch h round full) (\<lambda>masterNodes.
    bindE (verify_proposer ev h round masterNodes) (\<lambda>_.
    if full then verifiedHeaders_Add (Header_Hash (keccak ev) h) else returnE ()))))))))))"
  have "keeps same_core ?m" by (intro core.keeps_rules core_frame core_verify_parts)
  moreover have "verifyHeader ev ch h ps full x = ?m x"
    unfolding verifyHeader_def using assms by simp
  ultimately show ?thesis by (simp add: keeps_def)
qed

lemma same_core_YourTurn:
  assumes "x_isInitilised x"
  shows "same_core x (snd (YourTurn ev ch p a x))"
proof -
  let ?m = "bindE (getE x_currentRound) (\<lambda>round. bindE (configAt round) (\<lambda>cfg.
    if sint (now ev - h_Time p) < MinePeriod cfg then returnE False else yourturn ev ch round (Some p) a))"
  have "keeps same_core ?m" by (intro core.keeps_rules core_frame)
  moreover have "YourTurn ev ch p a x = ?m x" unfolding YourTurn_def using assms by simp
  ultimately show ?thesis by (simp add: keeps_def)
qed

lemma core_UpdateMasternodes: "keeps same_core (UpdateMasternodes ev h ms)" "keeps same_core (CacheSnapshot s)"
  unfolding UpdateMasternodes_def CacheSnapshot_def by (intro core.keeps_rules core_frame)+

lemma step_moves: "node_step K B x vs y \<Longrightarrow> x_isInitilised x \<Longrightarrow> (moves K B)\<^sup>*\<^sup>* x y"
proof (induction rule: node_step.induct)
  case (propose ev ch ch' h x r y)
  from keepsD [OF mv_ProposedBlockHandler [where K = K and B = B, OF propose(1-3)] propose(4)] show ?case .
next
  case (vote ev ch b v x r y)
  from keepsD [OF mv_Bfter(1) [where K = K, OF vote(1)] vote(2)] show ?case .
next
  case (sync_info ev ch b si x r y)
  from keepsD [OF mv_Bfter_SyncInfo [where K = K, OF sync_info(1)] sync_info(2)] show ?case .
next
  case (verify_header ev ch h parents full x r y)
  with same_core_verifyHeader [of x ev ch h parents full] show ?case by (intro moves_idle progress_core) simp
next
  case (your_turn ev ch p a x rt y)
  with same_core_YourTurn [of x ev ch p a] show ?case by (intro moves_idle progress_core) simp
next
  case (authorize x a f)
  show ?case by (rule moves_idle) (simp add: Authorize_def progress_def xSwitchBlock_def)
qed (blast dest: keepsD [OF mv_Bfter(2)] keepsD [OF mv_OnCountdownTimeout] keepsD [OF mv_core [OF core_Prepare]]
    mv_jobs [THEN keepsD] keepsD [OF mv_UpdateParams] core_UpdateMasternodes [THEN mv_core, THEN keepsD])+

lemma moves_advances: "(moves K B)\<^sup>*\<^sup>* x y \<Longrightarrow> advances x y"
proof (induction rule: rtranclp_induct)
  case (step y z)
  from step(2) have "advances y z"
    by (cases rule: moves.cases) (auto intro: advances_progress keepsD [OF adv_processQC] keepsD [OF adv_processTC])
  with step(3) show ?case by (rule adv.trans)
qed (rule adv.refl)

lemma run_moves: "node_run K B x vs y \<Longrightarrow> x_isInitilised x \<Longrightarrow> (moves K B)\<^sup>*\<^sup>* x y"
proof (induction rule: node_run.induct)
  case (more x vs y ws z)
  from more.IH [OF more.prems] have xy: "(moves K B)\<^sup>*\<^sup>* x y" .
  from moves_advances [OF this] more.prems have "x_isInitilised y" by (simp add: advances_def)
  from step_moves [OF more.hyps(2) this] xy show ?case by simp
qed simp

lemmas run_advances = run_moves [THEN moves_advances]

section \<open>An example node\<close>

text \<open>A node that starts on the switch block 0 of a chain with one block.\<close>

definition ex_header :: Header where
  "ex_header = \<lparr>h_ParentHash = 0, h_UncleHash = 0, h_Coinbase = 0, h_Root = 0, h_TxHash = 0, h_ReceiptHash = 0, h_Bloom = 0,
     h_Difficulty = 1, h_Number = 0, h_GasLimit = 5000, h_GasUsed = 0, h_Time = 0, h_Extra = [], h_MixDigest = 0,
     h_Nonce = 0, h_Validators = [], h_Validator = [], h_Penalties = [], h_BaseFee = None\<rparr>"

definition ex_env :: env where
  "ex_env = \<lparr>keccak = (\<lambda>_. 1), Ecrecover = (\<lambda>_ _. Inl ErrInvalidSignature), now = 0, db_error = None, depth = 10,
     sched = (\<lambda>n. [0..<n]), newRound_ready = True\<rparr>"

definition ex_chain :: chain where
  "ex_chain = \<lparr>GetHeaderByHash = (\<lambda>_. None), GetHeaderByNumber = (\<lambda>_. Some ex_header), GetHeader = (\<lambda>_ _. None),
     CurrentHeader = None, HasBlock = (\<lambda>_ _. False), chain_Config = ex_forks\<rparr>"

definition ex_XDPoS :: XDPoSConfig where
  "ex_XDPoS = \<lparr>Period = 2, Epoch = 900, Reward = 0, RewardCheckpoint = 900, Gap = 450, FoundationWalletAddr = 0,
     MaxMasternodesV2 = 108, SkipV1Validation = False, cfg_V2 = example_V2\<rparr>"

definition ex_engine :: engine where
  "ex_engine = snd (Initial ex_env ex_chain (\<lambda>_ _ _. Inl ErrNoCandidates) ex_header
     (New ex_XDPoS [(1, NewSnapshot 0 1 [1])]))"

lemma Header_Hash_const [simp]: "Header_Hash (\<lambda>_. c) h = c"
  by (simp add: Header_Hash_def rlpHash_def)

lemmas ex_run_defs = Initial_def initial_def initial_QC_def initial_snapshot_def RepairGapSnapshots_def New_def
  Header_ptr_Hash_def loadSnapshot_def ex_env_def ex_chain_def ex_header_def xSwitchBlock_def xGap_def
  lastGapNum_def ex_XDPoS_def example_V2_def BuildConfigIndex_def bindE_def Let_def Uint64_def

lemma ex_started: "started any_view any_block ex_engine"
proof -
  have "Initial ex_env ex_chain (\<lambda>_ _ _. Inl ErrNoCandidates) ex_header
      (New ex_XDPoS [(1, NewSnapshot 0 1 [1])]) = (Inr (), ex_engine)"
    unfolding ex_engine_def
    by (simp add: ex_run_defs)
  then show ?thesis by (rule start [OF TrueI TrueI])
qed

lemma ex_later_switch: "\<not> (900 :: u64) \<le> 1"
  by code_simp

lemma ex_engine_fields:
  "x_currentRound ex_engine = 1" "x_highestVotedRound ex_engine = 0" "x_lockQuorumCert ex_engine = None"
  "x_BroadcastCh ex_engine = []" "x_votePool ex_engine = []" "xSwitchBlock ex_engine = 0" "xEpoch ex_engine = 900"
  "xGap ex_engine = 450" "V2_Config 1 (cfg_V2 (x_config ex_engine)) = Some (example_config 0 108)"
  "bi_Round (qc_Block (x_highestQuorumCert ex_engine)) = 0"
  unfolding ex_engine_def by (simp_all add: ex_run_defs NewPool_def xEpoch_def V2_Config_def ex_later_switch)

section \<open>Rounds, certificates and commits never go back\<close>

text \<open>
  Property C15.  In any run of a started node, over any messages, proposals, timeouts and chain views:
  the rounds of the highest quorum and timeout certificates do not decrease; the lock is only replaced
  by one of a later round; the committed block is only replaced by one of a later round and no lower
  number; and the current round does not decrease, unless a certificate of the last round
  \<open>2 ^ 64 - 1\<close> has been recorded, after which the round counter starts again.
\<close>

theorem rounds_never_go_back:
  assumes "started K B x0" "node_run K B x0 vs x" "node_run K B x ws y"
  shows "bi_Round (qc_Block (x_highestQuorumCert x)) \<le> bi_Round (qc_Block (x_highestQuorumCert y)) \<and>
    tc_Round (x_highestTimeoutCert x) \<le> tc_Round (x_highestTimeoutCert y) \<and>
    (\<forall>l. x_lockQuorumCert x = Some l \<longrightarrow> (\<exists>l'. x_lockQuorumCert y = Some l' \<and>
       (l' = l \<or> bi_Round (qc_Block l) < bi_Round (qc_Block l')))) \<and>
    (\<forall>c. x_highestCommitBlock x = Some c \<longrightarrow> (\<exists>c'. x_highestCommitBlock y = Some c' \<and>
       (c' = c \<or> bi_Round c < bi_Round c' \<and> bi_Number c \<le> bi_Number c'))) \<and>
    (x_currentRound x \<le> x_currentRound y \<or>
     bi_Round (qc_Block (x_highestQuorumCert y)) = -1 \<or> tc_Round (x_highestTimeoutCert y) = -1)"
proof -
  from started_initialised [OF assms(1)] run_advances [OF assms(2)] have "x_isInitilised x"
    by (simp add: advances_def)
  from run_advances [OF assms(3) this] show ?thesis
    by (auto simp: advances_def hqc_def htc_def lock_le_def commit_le_def split: option.splits)
qed

theorem rounds_never_go_back_witness:
  "x_currentRound ex_engine \<le> x_currentRound (snd (hygieneVotePool ex_engine)) \<or>
   bi_Round (qc_Block (x_highestQuorumCert (snd (hygieneVotePool ex_engine)))) = -1 \<or>
   tc_Round (x_highestTimeoutCert (snd (hygieneVotePool ex_engine))) = -1"
proof -
  have "node_step any_view any_block ex_engine [] (snd (hygieneVotePool ex_engine))"
    by (rule hygiene_votes [of _ "Inr ()"]) (simp add: hygieneVotePool_def)
  from more [OF stop this] have "node_run any_view any_block ex_engine [] (snd (hygieneVotePool ex_engine))" by simp
  from rounds_never_go_back [OF ex_started stop this] show ?thesis by simp
qed

section \<open>An example vote\<close>

text \<open>The first v2 block, with the certificate of round 0 on the switch block, and a voter that knows its epoch.\<close>

definition ex_extra :: bytes where
  "ex_extra = [2, 0xE8, 1, 0xE6, 0xE3, 0xA0] @ replicate 31 0 @ [1, 0x80, 0x80, 0xC0, 0x80]"

definition ex_qc :: QuorumCert where
  "ex_qc = \<lparr>qc_Block = \<lparr>bi_Hash = 1, bi_Round = 0, bi_Number = 0\<rparr>, qc_Signatures = [], qc_GapNumber = 0\<rparr>"

lemma ex_extra_decodes: "DecodeBytesExtraFields ex_extra = Inr \<lparr>ex_Round = 1, ex_QC = Some ex_qc\<rparr>"
  by code_simp

definition ex_block :: Header where
  "ex_block = ex_header\<lparr>h_ParentHash := 1, h_Number := 1, h_Extra := ex_extra\<rparr>"

definition ex_view :: chain where
  "ex_view = ex_chain\<lparr>GetHeaderByHash := (\<lambda>_. Some ex_block), GetHeaderByNumber := (\<lambda>_. Some ex_block), HasBlock := (\<lambda>_ _. True)\<rparr>"

definition ex_info :: EpochSwitchInfo where
  "ex_info = \<lparr>es_Penalties = [], es_Standbynodes = [], es_Masternodes = [7, 8], es_MasternodesLen = 2,
     es_Block = \<lparr>bi_Hash = 1, bi_Round = 1, bi_Number = 1\<rparr>, es_Parent = None\<rparr>"

definition ex_voter :: engine where
  "ex_voter = ex_engine\<lparr>x_epochSwitches := snd (Add 1 ex_info (NewBasicLRU 10)), x_signer := 7,
     x_signFn := Some (\<lambda>_. Inr [1])\<rparr>"

lemma cached_info:
  assumes "Peek hsh (x_epochSwitches x) = Some info" "depth ev = Suc n"
  shows "getEpochSwitchInfo ev ch hs hsh x = (Inr info, x\<lparr>x_epochSwitches := snd (Get hsh (x_epochSwitches x))\<rparr>)"
  using assms Get_Peek [of hsh "x_epochSwitches x"]
  by (cases "Get hsh (x_epochSwitches x)") (simp add: getEpochSwitchInfo_def epochSwitches_Get_def)

lemma ex_not_enough: "\<not> threshold_reached (Suc 0) 2 certThreshold_667"
  using threshold_two_thirds [of "Suc 0" 2] by auto

lemmas ex_view_defs = ex_view_def ex_chain_def ex_env_def ex_block_def ex_header_def

lemma ex_getExtraFields: "xSwitchBlock x = 0 \<Longrightarrow> getExtraFields ex_block x = (Inr (Some ex_qc, 1, []), x)"
  by (simp add: getExtraFields_def ex_extra_decodes ex_view_defs GetMasternodesFromEpochSwitchHeader_def)

lemma ex_handles: "handles ex_env ex_view ex_block"
  by (simp add: handles_def ShouldHandleProposedBlock_def ex_view_defs)

lemma ex_voter_fields:
  "x_currentRound ex_voter = 1" "x_highestVotedRound ex_voter = 0" "x_lockQuorumCert ex_voter = None"
  "x_BroadcastCh ex_voter = []" "x_votePool ex_voter = []" "xSwitchBlock ex_voter = 0" "xEpoch ex_voter = 900"
  "xGap ex_voter = 450" "V2_Config 1 (cfg_V2 (x_config ex_voter)) = Some (example_config 0 108)"
  "bi_Round (qc_Block (x_highestQuorumCert ex_voter)) = 0" "x_signer ex_voter = 7"
  "x_signFn ex_voter = Some (\<lambda>_. Inr [1])" "Peek 1 (x_epochSwitches ex_voter) = Some ex_info"
  using ex_engine_fields
  by (simp_all add: ex_voter_def xSwitchBlock_def xEpoch_def xGap_def Peek_Add_same)

lemma ex_view_fields:
  "GetHeaderByHash ex_view k = Some ex_block" "h_Number ex_block = 1" "h_ParentHash ex_block = 1"
  "Header_Hash (keccak ex_env) h = 1" "depth ex_env = Suc 9" "keccak ex_env = (\<lambda>_. 1)"
  "bi_Round (qc_Block ex_qc) = 0" "bi_Number (qc_Block ex_qc) = 0" "bi_Hash (qc_Block ex_qc) = 1"
  by (simp_all add: ex_view_defs ex_qc_def)

lemma ex_processQC: "processQC ex_env ex_view (Some ex_qc) ex_voter = (Inr (), ex_voter\<lparr>x_lockQuorumCert := Some ex_qc\<rparr>)"
proof -
  have sb: "xSwitchBlock (ex_voter\<lparr>x_lockQuorumCert := l\<rparr>) = 0" for l
    using ex_voter_fields by (simp add: xSwitchBlock_def)
  have "commitBlocks ex_env ex_view ex_block 1 ex_qc (ex_voter\<lparr>x_lockQuorumCert := Some ex_qc\<rparr>) =
      (Inr False, ex_voter\<lparr>x_lockQuorumCert := Some ex_qc\<rparr>)"
    by (simp add: commitBlocks_def sb ex_view_fields)
  then show ?thesis
    by (simp add: processQC_def deref_def sb ex_view_fields ex_getExtraFields ex_voter_fields bindE_def)
qed

definition ex_vote :: Vote where
  "ex_vote = \<lparr>v_signer = 0, v_Block = \<lparr>bi_Hash = 1, bi_Round = 1, bi_Number = 1\<rparr>, v_Signature = [1], v_GapNumber = 0\<rparr>"

lemma ex_sendVote:
  assumes "same_core (ex_voter\<lparr>x_lockQuorumCert := Some ex_qc\<rparr>) x" "Peek 1 (x_epochSwitches x) = Some ex_info"
  shows "\<exists>y. sendVote ex_env ex_view \<lparr>bi_Hash = 1, bi_Round = 1, bi_Number = 1\<rparr> x = (Inr (), y) \<and>
    x_BroadcastCh y = [MVote ex_vote]"
proof -
  note f = same_core_fields [OF assms(1)] ex_voter_fields ex_view_fields
  have info: "getEpochSwitchInfo ex_env ch hs 1 z = (Inr ex_info, z\<lparr>x_epochSwitches := snd (Get 1 (x_epochSwitches z))\<rparr>)"
    if "Peek 1 (x_epochSwitches z) = Some ex_info" for ch hs z
    by (rule cached_info [OF that ex_view_fields(5)])
  have cfg: "configAt 1 z = (Inr (example_config 0 108), z)" if "x_config z = x_config ex_voter" for z
    using that ex_voter_fields by (simp add: configAt_def deref_def)
  have vh: "\<exists>y. voteHandler ex_env ex_view ex_vote z = (Inr (), y) \<and> x_BroadcastCh y = []"
    if "x_config z = x_config ex_voter" "x_currentRound z = 1" "x_votePool z = []" "x_BroadcastCh z = []"
      "Peek 1 (x_epochSwitches z) = Some ex_info" for z
    using that
    by (simp add: voteHandler_def bindE_def mapErrE_def votePool_Add_def Pool_Add_def objs_at_def ex_vote_def info cfg
        ex_info_def example_config_def ex_not_enough)
  let ?z = "x\<lparr>x_epochSwitches := snd (Get 1 (x_epochSwitches x)), x_highestVotedRound := x_currentRound x\<rparr>"
  have "\<exists>y. voteHandler ex_env ex_view ex_vote ?z = (Inr (), y) \<and> x_BroadcastCh y = []"
    by (rule vh) (use f assms(2) in \<open>simp_all add: Peek_Get\<close>)
  moreover have "gapNumber_of 900 450 (Uint64 1) = 0" by code_simp
  moreover have "xEpoch (x\<lparr>x_epochSwitches := c\<rparr>) = 900" "xGap (x\<lparr>x_epochSwitches := c\<rparr>) = 450" for c
    using f by (simp_all add: xEpoch_def xGap_def)
  ultimately show ?thesis
    using assms(2) f
    by (auto simp: sendVote_def bindE_def info signSignature_def broadcastToBftChannel_def ex_vote_def ex_info_def Let_def)
qed

lemma ex_propose:
  "\<exists>y. ProposedBlockHandler ex_env ex_view ex_view ex_block ex_voter = (Inr (), y) \<and> x_BroadcastCh y = [MVote ex_vote]"
proof -
  let ?x = "ex_voter\<lparr>x_lockQuorumCert := Some ex_qc\<rparr>"
  let ?z = "?x\<lparr>x_epochSwitches := snd (Get 1 (x_epochSwitches ex_voter))\<rparr>"
  have allow: "allowedToSend ex_env ex_view (Some ex_block) ?x = (Inr True, ?z)"
    using ex_voter_fields ex_view_fields cached_info [OF _ ex_view_fields(5), of 1 ?x ex_info ex_view "[ex_block]"]
    by (simp add: allowedToSend_def GetMasternodes_def epochInfo_or_empty_def epochInfo_of_def Header_ptr_Hash_def
        bindE_def tryE_def ex_info_def)
  have "verifyVotingRule ex_view \<lparr>bi_Hash = 1, bi_Round = 1, bi_Number = 1\<rparr> ex_qc ?z = (Inr True, ?z)"
    using ex_voter_fields ex_view_fields
    by (simp add: verifyVotingRule_def isExtendingFromAncestor_def bindE_def Uint64_def)
  moreover from ex_sendVote [OF same_core_updates(4)] obtain y where
    "sendVote ex_env ex_view \<lparr>bi_Hash = 1, bi_Round = 1, bi_Number = 1\<rparr> ?z = (Inr (), y)" "x_BroadcastCh y = [MVote ex_vote]"
    using ex_voter_fields by (metis (no_types, lifting) Peek_Get engine.ext_inject engine.surjective engine.update_convs(7) engine.select_convs(7))
  ultimately show ?thesis
    using ex_voter_fields ex_view_fields allow
    by (simp add: ProposedBlockHandler_def ex_getExtraFields ex_handles ex_processQC bindE_def deref_def Let_def)
qed

section \<open>Votes\<close>

text \<open>The decision to vote, read off a successful \<open>verifyVotingRule\<close>.\<close>

lemma verifyVotingRule_True:
  assumes "verifyVotingRule ch b qc x = (Inr True, y)"
  shows "y = x \<and> x_highestVotedRound x < x_currentRound x \<and> bi_Round b = x_currentRound x \<and>
    (x_lockQuorumCert x = None \<or> (\<exists>l. x_lockQuorumCert x = Some l \<and>
      (bi_Round (qc_Block l) < bi_Round (qc_Block qc) \<or>
       nth_ancestor_hash ch (nat (sint (Uint64 (bi_Number b - bi_Number (qc_Block l))))) (bi_Hash b) =
         Some (bi_Hash (qc_Block l)))))"
  using assms unfolding verifyVotingRule_def isExtendingFromAncestor_def
  by (auto split: if_splits option.splits simp: Let_def)

lemma signSignature_run:
  assumes "signSignature h x = (r, y)"
  shows "y = x \<and> (\<forall>sig. r = Inr sig \<longrightarrow> (\<exists>f. x_signFn x = Some f \<and> f h = Inr sig))"
  using assms by (auto simp: signSignature_def split: option.splits sum.splits)

text \<open>A vote: the voted round is the current one, and the vote is the only message sent.\<close>

lemma sendVote_effect:
  assumes "sendVote ev ch b x = (r, y)"
  shows "x_BroadcastCh y = x_BroadcastCh x \<and> x_highestVotedRound y \<in> {x_highestVotedRound x, x_currentRound x} \<or>
    (\<exists>v f. x_BroadcastCh y = x_BroadcastCh x @ [MVote v] \<and> x_highestVotedRound y = x_currentRound x \<and> v_Block v = b \<and>
      x_signFn x = Some f \<and> f (VoteSigHash (keccak ev) b (v_GapNumber v)) = Inr (v_Signature v))"
  using assms unfolding sendVote_def Let_def
  by (elim bindE_runE)
    (auto simp: getE_run putE_run broadcastToBftChannel_def quiet_def same_core_fields
      dest!: signSignature_run keepsD [OF core_getEpochSwitchInfo] keepsD [OF quiet_voteHandler])

text \<open>A proposal either stays without consequences for votes, or passes the voting rule and is voted for.\<close>

lemma getExtraFields_run: "getExtraFields h x = (r, y) \<Longrightarrow> y = x"
  by (auto simp: getExtraFields_def bindE_def split: if_splits sum.splits)

lemma verifyVotingRule_run: "verifyVotingRule ch b qc x = (r, y) \<Longrightarrow> y = x"
  by (auto simp: verifyVotingRule_def isExtendingFromAncestor_def bindE_def Let_def split: if_splits option.splits)

lemma verifyVotingRule_iff: "verifyVotingRule ch b qc x = (r, y) \<longleftrightarrow> y = x \<and> fst (verifyVotingRule ch b qc x) = r"
  by (metis fst_conv prod.collapse verifyVotingRule_run)

lemma propose_cases:
  assumes "ProposedBlockHandler ev ch ch' h x = (r, y)"
  obtains (silent) "quiet x y"
  | (vote) qc round ms x1 x2 b where "b = \<lparr>bi_Hash = Header_Hash (keccak ev) h, bi_Round = round, bi_Number = h_Number h\<rparr>"
      "getExtraFields h x = (Inr (Some qc, round, ms), x)" "handles ev ch h" "processQC ev ch (Some qc) x = (Inr (), x1)"
      "allowedToSend ev ch (Some h) x1 = (Inr True, x2)"
      "verifyVotingRule ch b qc x2 = (Inr True, x2)" "handles ev ch' h" "sendVote ev ch' b x2 = (r, y)"
proof (cases "getExtraFields h x")
  case (Pair r0 x0)
  with getExtraFields_run have ge: "getExtraFields h x = (r0, x)" by blast
  show thesis
  proof (cases r0)
    case (Inl e)
    with assms ge show ?thesis by (intro silent) (simp add: ProposedBlockHandler_def quiet.refl)
  next
    case (Inr t)
    obtain qcp round ms where t: "t = (qcp, round, ms)" by (cases t)
    let ?b = "\<lparr>bi_Hash = Header_Hash (keccak ev) h, bi_Round = round, bi_Number = h_Number h\<rparr>"
    show ?thesis
    proof (cases "handles ev ch h")
      case False
      with assms ge Inr t show ?thesis by (intro silent) (simp add: ProposedBlockHandler_def quiet.refl)
    next
      case hd: True
      let ?k = "bindE (allowedToSend ev ch (Some h)) (\<lambda>allow. if \<not> allow then returnE () else
        bindE (deref qcp) (\<lambda>qc. bindE (verifyVotingRule ch ?b qc) (\<lambda>verified.
        if verified then if \<not> handles ev ch' h then returnE () else sendVote ev ch' ?b else returnE ())))"
      from assms ge Inr t hd have "bindE (processQC ev ch qcp) (\<lambda>_. ?k) x = (r, y)"
        by (simp add: ProposedBlockHandler_def Let_def split del: if_split)
      then show ?thesis
      proof (cases rule: bindE_runE)
        case (throws e)
        from keepsD [OF quiet_processQC throws(1)] show ?thesis by (rule silent)
      next
        case (continues u x1)
        have q1: "quiet x x1" by (rule keepsD [OF quiet_processQC continues(1)])
        from continues obtain qc where qc: "qcp = Some qc" by (cases qcp) (simp_all add: processQC_def deref_def)
        from continues(2) consider "quiet x1 y"
          | x2 where "allowedToSend ev ch (Some h) x1 = (Inr True, x2)" "verifyVotingRule ch ?b qc x2 = (Inr True, x2)"
            "handles ev ch' h" "sendVote ev ch' ?b x2 = (r, y)"
          by (elim bindE_runE) (auto simp: qc deref_def quiet_def verifyVotingRule_iff split: if_splits elim!: bindE_runE
              dest!: keepsD [OF quiet_core [OF core_allowedToSend]])
        then show ?thesis
        proof cases
          case 1
          with q1 show ?thesis by (intro silent) (rule quiet.trans)
        next
          case 2
          show ?thesis by (rule vote [OF refl _ hd _ 2]) (use ge Inr t qc continues in simp_all)
        qed
      qed
    qed
  qed
qed

lemma new_votes_append [simp]: "x_BroadcastCh y = x_BroadcastCh x @ ms \<Longrightarrow> new_votes x y = concat (map vote_of ms)"
  by (simp add: new_votes_def)

lemma new_votes_none [simp]: "x_BroadcastCh y = x_BroadcastCh x \<Longrightarrow> new_votes x y = []"
  by (simp add: new_votes_def)

text \<open>What is known of a vote, with the state \<open>x1\<close> in which the voting rule is judged.\<close>

lemma propose_rule:
  assumes "ProposedBlockHandler ev ch ch' h x = (r, y)" and "v \<in> set (new_votes x y)"
  obtains qc ms x1 x2 f where "getExtraFields h x = (Inr (Some qc, bi_Round (v_Block v), ms), x)"
    "processQC ev ch (Some qc) x = (Inr (), x1)" "allowedToSend ev ch (Some h) x1 = (Inr True, x2)"
    "v_Block v = \<lparr>bi_Hash = Header_Hash (keccak ev) h, bi_Round = x_currentRound x1, bi_Number = h_Number h\<rparr>"
    "x_highestVotedRound x < bi_Round (v_Block v)" "handles ev ch h" "handles ev ch' h"
    "x_lockQuorumCert x1 = None \<or> (\<exists>l. x_lockQuorumCert x1 = Some l \<and>
      (bi_Round (qc_Block l) < bi_Round (qc_Block qc) \<or>
       nth_ancestor_hash ch (nat (sint (Uint64 (h_Number h - bi_Number (qc_Block l))))) (Header_Hash (keccak ev) h) =
         Some (bi_Hash (qc_Block l))))"
    "x_signFn x = Some f" "f (VoteSigHash (keccak ev) (v_Block v) (v_GapNumber v)) = Inr (v_Signature v)"
    "advances x1 y"
  using assms(1)
proof (cases rule: propose_cases)
  case silent
  with assms(2) show ?thesis by (simp add: quiet_def)
next
  case (vote qc round ms x1 x2 b)
  have same: "same_core x1 x2" by (rule keepsD [OF core_allowedToSend vote(5)])
  have q: "quiet x x1" by (rule keepsD [OF quiet_processQC vote(4)])
  have "advances x2 y" by (rule moves_advances [OF keepsD [OF mv_sendVote [where K = any_view and B = any_block, OF TrueI] vote(8)]])
  with same have adv: "advances x1 y" by (blast intro: adv.trans advances_core)
  from sendVote_effect [OF vote(8)] assms(2) same q obtain f where
    f: "v_Block v = b" "x_signFn x = Some f" "f (VoteSigHash (keccak ev) b (v_GapNumber v)) = Inr (v_Signature v)"
    by (auto simp: quiet_def same_core_fields)
  note rule = verifyVotingRule_True [OF vote(6)]
  show ?thesis
    by (rule that [of qc ms x1 x2 f]) (use rule same q f vote adv in \<open>auto simp: quiet_def same_core_fields\<close>)
qed


lemma propose_votes:
  assumes "ProposedBlockHandler ev ch ch' h x = (r, y)"
  shows "x_highestVotedRound x \<le> x_highestVotedRound y \<and>
    (new_votes x y = [] \<or> (\<exists>v. new_votes x y = [v] \<and> x_highestVotedRound x < bi_Round (v_Block v) \<and>
      x_highestVotedRound y = bi_Round (v_Block v)))"
  using assms
proof (cases rule: propose_cases)
  case silent
  then show ?thesis by (simp add: quiet_def)
next
  case (vote qc round ms x1 x2 b)
  have same: "same_core x1 x2" by (rule keepsD [OF core_allowedToSend vote(5)])
  have q: "quiet x x1" by (rule keepsD [OF quiet_processQC vote(4)])
  from verifyVotingRule_True [OF vote(6)] same q
  have "x_highestVotedRound x < x_currentRound x2" "bi_Round b = x_currentRound x2"
    by (auto simp: quiet_def same_core_fields)
  with sendVote_effect [OF vote(8)] same q show ?thesis
    by (auto simp: quiet_def same_core_fields)
qed

lemma step_voted:
  assumes "node_step K B x vs y" "x_isInitilised x"
  shows "x_highestVotedRound x \<le> x_highestVotedRound y \<and>
    (vs = [] \<or> (\<exists>v. vs = [v] \<and> x_highestVotedRound x < bi_Round (v_Block v) \<and> x_highestVotedRound y = bi_Round (v_Block v)))"
  using assms
proof (induction rule: node_step.induct)
  case (propose ev ch ch' h x r y)
  show ?case by (rule propose_votes [OF propose.hyps(4)])
next
  case (verify_header ev ch h parents full x r y)
  with same_core_verifyHeader [of x ev ch h parents full] show ?case by (simp add: same_core_fields)
next
  case (your_turn ev ch p a x rt y)
  with same_core_YourTurn [of x ev ch p a] show ?case by (simp add: same_core_fields)
next
  case (authorize x a f)
  show ?case by (simp add: Authorize_def)
qed (auto simp: same_voted_def same_core_fields dest!: unvoted_Bfter [THEN keepsD] keepsD [OF unvoted_OnCountdownTimeout]
    keepsD [OF core_Prepare] keepsD [OF unvoted_Seal] keepsD [OF unvoted_UpdateParams] unvoted_hygiene [THEN keepsD]
    core_UpdateMasternodes [THEN keepsD])

lemma run_voted:
  assumes "node_run K B x vs y" "x_isInitilised x"
  shows "x_highestVotedRound x \<le> x_highestVotedRound y \<and> sorted_wrt (<) (map (bi_Round \<circ> v_Block) vs) \<and>
    (\<forall>v \<in> set vs. x_highestVotedRound x < bi_Round (v_Block v) \<and> bi_Round (v_Block v) \<le> x_highestVotedRound y)"
  using assms
proof (induction rule: node_run.induct)
  case (more x vs y ws z)
  note IH = more.IH [OF more.prems]
  from run_advances [OF more.hyps(1) more.prems] more.prems have "x_isInitilised y" by (simp add: advances_def)
  from step_voted [OF more.hyps(2) this] IH show ?case
    by (auto simp: sorted_wrt_append)
qed simp




end
