(* ===== verification/Safety.thy ===== *)
theory Safety
  imports Protocol Epochs_Laws
begin

text \<open>
  Agreement.  Within a set of masternodes of which at most a third is faulty, no two certificates of
  one round are for different blocks, and no two blocks that nodes commit are in conflict.  The proof
  is the one of the HotStuff protocol, on the states of the engine: a masternode that has voted for a
  block is locked on its grandparent or later, and votes for nothing in conflict with its lock unless
  it is shown a later certificate.
\<close>

section \<open>Blocks\<close>

lemma carried_block: "carried_QC x h = block_QC (xSwitchBlock x) h"
  by (simp add: carried_QC_def block_QC_def)

text \<open>\<open>T\<close> is all blocks there are, by their hashes; a block descends from its parent and its ancestors.\<close>

inductive descends :: "(hash \<Rightarrow> Header option) \<Rightarrow> hash \<Rightarrow> hash \<Rightarrow> bool" for T where
  self: "descends T b b"
| child: "T c = Some h \<Longrightarrow> descends T b (h_ParentHash h) \<Longrightarrow> descends T b c"

lemma descends_trans: "descends T b c \<Longrightarrow> descends T a b \<Longrightarrow> descends T a c"
  by (induction rule: descends.induct) (auto intro: descends.child)

lemma nth_ancestor_descends:
  assumes "\<And>hs h. GetHeaderByHash ch hs = Some h \<Longrightarrow> T hs = Some h"
  shows "nth_ancestor_hash ch n c = Some a \<Longrightarrow> descends T a c"
proof (induction n arbitrary: c)
  case (Suc n)
  then show ?case using assms by (auto split: option.splits intro: descends.child)
qed (simp add: descends.self)

section \<open>The rules of the network\<close>

text \<open>
  What the verification of headers gives of the blocks of v2 (numbers above \<open>sw\<close>): the block carries a
  certificate of its parent, of an earlier round, and the certificate satisfies \<open>C\<close> unless it is the
  unsigned one of the switch block.
\<close>

definition verified_block :: "int \<Rightarrow> (hash \<Rightarrow> Header option) \<Rightarrow> (QuorumCert \<Rightarrow> bool) \<Rightarrow> Header \<Rightarrow> bool" where
  "verified_block sw T C h \<longleftrightarrow> (\<exists>q p r. block_QC sw h = Some q \<and> block_round sw h = Some r \<and>
     T (h_ParentHash h) = Some p \<and> bi_Hash (qc_Block q) = h_ParentHash h \<and> h_Number p = h_Number h - 1 \<and>
     block_round sw p = Some (bi_Round (qc_Block q)) \<and> bi_Round (qc_Block q) < r \<and> (bi_Round (qc_Block q) = 0 \<or> C q))"

definition verified_blocks :: "env \<Rightarrow> int \<Rightarrow> (hash \<Rightarrow> Header option) \<Rightarrow> (QuorumCert \<Rightarrow> bool) \<Rightarrow> bool" where
  "verified_blocks E sw T C \<longleftrightarrow> (\<forall>hs h. T hs = Some h \<longrightarrow> h_Number h > sw \<longrightarrow>
     Header_Hash (keccak E) h = hs \<and> verified_block sw T C h)"

text \<open>A node's view of the chain has some of the blocks, and of every block of v2 the parent.\<close>

definition view :: "env \<Rightarrow> int \<Rightarrow> (hash \<Rightarrow> Header option) \<Rightarrow> env \<Rightarrow> chain \<Rightarrow> bool" where
  "view E sw T ev ch \<longleftrightarrow> keccak ev = keccak E \<and> (\<forall>hs h. GetHeaderByHash ch hs = Some h \<longrightarrow> T hs = Some h \<and>
     (h_Number h > sw \<longrightarrow> GetHeaderByHash ch (h_ParentHash h) \<noteq> None))"

text \<open>The proposals a node handles are blocks from the switch block on.\<close>

definition proposals :: "env \<Rightarrow> int \<Rightarrow> (hash \<Rightarrow> Header option) \<Rightarrow> env \<Rightarrow> Header \<Rightarrow> bool" where
  "proposals E sw T ev h \<longleftrightarrow> keccak ev = keccak E \<and> T (Header_Hash (keccak E) h) = Some h \<and> sw \<le> h_Number h"

lemma verifiedE:
  assumes "verified_blocks E sw T C" "T hs = Some h" "h_Number h > sw"
  obtains q p r where "Header_Hash (keccak E) h = hs" "block_QC sw h = Some q" "block_round sw h = Some r"
    "T (h_ParentHash h) = Some p" "bi_Hash (qc_Block q) = h_ParentHash h" "h_Number p = h_Number h - 1"
    "block_round sw p = Some (bi_Round (qc_Block q))" "bi_Round (qc_Block q) < r" "bi_Round (qc_Block q) = 0 \<or> C q"
proof -
  from assms have "Header_Hash (keccak E) h = hs" "verified_block sw T C h" by (auto simp: verified_blocks_def)
  then show thesis unfolding verified_block_def using that by blast
qed

lemma round_positive:
  assumes "verified_blocks E sw T C" "T hs = Some h" "h_Number h > sw" "block_round sw h = Some r"
  shows "r \<noteq> 0"
  using assms by (elim verifiedE) auto

lemma block_round_switch [simp]: "h_Number h = sw \<Longrightarrow> block_round sw h = Some 0"
  by (simp add: block_round_def)

section \<open>No error once the block is known\<close>

lemma caught: "bindE (tryE m) (\<lambda>_. returnE a) s = (Inr a, snd (m s))"
  by (simp add: bindE_def tryE_def split: prod.splits)

lemma commitBlocks_succeeds:
  assumes "h_Number h2 - 2 > xSwitchBlock x \<Longrightarrow> \<exists>h1 h0 r1 r0. GetHeaderByHash ch (h_ParentHash h2) = Some h1 \<and>
    has_round x h1 r1 \<and> GetHeaderByHash ch (h_ParentHash h1) = Some h0 \<and> has_round x h0 r0"
  shows "\<exists>b y. commitBlocks ev ch h2 r qc x = (Inr b, y)"
proof (cases "h_Number h2 - 2 \<le> xSwitchBlock x")
  case True
  then have "commitBlocks ev ch h2 r qc x = (Inr False, x)" by (simp add: commitBlocks_def)
  then show ?thesis by blast
next
  case False
  with assms obtain h1 h0 r1 r0 where h: "GetHeaderByHash ch (h_ParentHash h2) = Some h1" "has_round x h1 r1"
    "GetHeaderByHash ch (h_ParentHash h1) = Some h0" "has_round x h0 r0" by auto
  obtain q1 ms1 where e1: "getExtraFields h1 x = (Inr (q1, r1, ms1), x)"
    by (cases rule: extra_round [of h1 x]) (use h(2) in auto)
  obtain q0 ms0 where e0: "getExtraFields h0 x = (Inr (q0, r0, ms0), x)"
    by (cases rule: extra_round [of h0 x]) (use h(4) in auto)
  show ?thesis using False h e1 e0
    by (auto simp: commitBlocks_def caught)
qed

lemma processQC_succeeds:
  assumes "GetHeaderByHash ch (bi_Hash (qc_Block qc)) = Some h" "xSwitchBlock x = sw"
    and "view E sw T ev ch" "verified_blocks E sw T C"
  shows "\<exists>y. processQC ev ch (Some qc) x = (Inr (), y)"
proof -
  let ?x0 = "if hqc x < bi_Round (qc_Block qc) then x\<lparr>x_highestQuorumCert := qc\<rparr> else x"
  have sb: "xSwitchBlock ?x0 = sw" using assms(2) by (simp add: xSwitchBlock_def)
  have "\<exists>y. (if h_Number h > sw then read_certified ev ch qc h else returnE ()) ?x0 = (Inr (), y)"
  proof (cases "h_Number h > sw")
    case True
    have known: "T hs = Some g" "h_Number g > sw \<Longrightarrow> \<exists>p. GetHeaderByHash ch (h_ParentHash g) = Some p"
      if "GetHeaderByHash ch hs = Some g" for hs g using assms(3) that by (auto simp: view_def)
    obtain q p r where
      h: "block_QC sw h = Some q" "block_round sw h = Some r" "T (h_ParentHash h) = Some p" "h_Number p = h_Number h - 1"
        "block_round sw p = Some (bi_Round (qc_Block q))" by (rule verifiedE [OF assms(4) known(1) [OF assms(1)] True])
    from known(2) [OF assms(1) True] known(1) h(3) have p: "GetHeaderByHash ch (h_ParentHash h) = Some p" by fastforce
    obtain ms where ex: "getExtraFields h y = (Inr (Some q, r, ms), y)" if "xSwitchBlock y = sw" for y
      using h(1,2) by (auto simp: getExtraFields_def block_QC_def block_round_def split: if_splits sum.splits)
    have "\<exists>h1 h0 r1 r0. GetHeaderByHash ch (h_ParentHash h) = Some h1 \<and> has_round y h1 r1 \<and>
        GetHeaderByHash ch (h_ParentHash h1) = Some h0 \<and> has_round y h0 r0"
      if y: "h_Number h - 2 > xSwitchBlock y" "xSwitchBlock y = sw" for y
    proof -
      from y h(4) have "h_Number p > sw" by simp
      from known(2) [OF p this] obtain g where g: "GetHeaderByHash ch (h_ParentHash p) = Some g" by blast
      obtain r0 where r0: "block_round sw g = Some r0"
        by (rule verifiedE [OF assms(4) h(3) \<open>h_Number p > sw\<close>]) (use known(1) [OF g] in auto)
      show ?thesis using p g h(5) y(2) r0
        by (intro exI [of _ p] exI [of _ g] exI [of _ "bi_Round (qc_Block q)"] exI [of _ r0]) (simp add: has_round_block)
    qed
    from commitBlocks_succeeds [OF this] have
      com: "\<exists>b z. commitBlocks ev ch h r qc y = (Inr b, z)" if "xSwitchBlock y = sw" for y using that by blast
    have "xSwitchBlock (?x0\<lparr>x_lockQuorumCert := Some q\<rparr>) = sw" using sb by (simp add: xSwitchBlock_def)
    then show ?thesis using True ex [OF sb] com [OF sb] com [of "?x0\<lparr>x_lockQuorumCert := Some q\<rparr>"]
      unfolding read_certified_def by (auto simp: deref_def)
  qed simp
  then obtain y where y: "(if h_Number h > sw then read_certified ev ch qc h else returnE ()) ?x0 = (Inr (), y)" by blast
  obtain r z where z: "bindE (getE x_currentRound) (\<lambda>cur. if bi_Round (qc_Block qc) \<ge> cur then setNewRound ev (bi_Round (qc_Block qc) + 1)
    else returnE ()) y = (r, z)" by (metis prod.exhaust)
  with next_round_run [OF z] y assms(1) sb show ?thesis
    unfolding processQC_parts by (simp add: bindE_def [of "putE _"] bindE_def [of "getE xSwitchBlock"] split del: if_split)
qed

section \<open>Locks\<close>

text \<open>
  The lock is a certificate carried by a block, and of a round before the current one, unless the
  round counter has started again.
\<close>

definition wrapped :: "engine \<Rightarrow> bool" where
  "wrapped x \<longleftrightarrow> hqc x = -1 \<or> htc x = -1"

definition lock_inv :: "int \<Rightarrow> (hash \<Rightarrow> Header option) \<Rightarrow> engine \<Rightarrow> bool" where
  "lock_inv sw T x \<longleftrightarrow> xSwitchBlock x = sw \<and> (\<forall>l. x_lockQuorumCert x = Some l \<longrightarrow>
     (\<exists>hs h. T hs = Some h \<and> h_Number h > sw \<and> block_QC sw h = Some l) \<and>
     (bi_Round (qc_Block l) < x_currentRound x \<or> wrapped x))"

lemma wrapped_advances: "advances x y \<Longrightarrow> wrapped x \<Longrightarrow> wrapped y"
  by (auto simp: advances_def wrapped_def max_round)

lemma lock_inv_same:
  assumes "lock_inv sw T x" "advances x y" "x_lockQuorumCert y = x_lockQuorumCert x" "xSwitchBlock y = xSwitchBlock x"
  shows "lock_inv sw T y"
proof -
  have "x_currentRound x \<le> x_currentRound y \<or> wrapped y" using assms(2) by (auto simp: advances_def wrapped_def)
  with wrapped_advances [OF assms(2)] assms show ?thesis by (auto simp: lock_inv_def intro: less_le_trans)
qed

lemma lock_inv_progress: "progress y = progress x \<Longrightarrow> lock_inv sw T y \<longleftrightarrow> lock_inv sw T x"
  by (simp add: lock_inv_def progress_def wrapped_def hqc_def htc_def)

text \<open>A certificate whose round is the one of its block keeps the invariant.\<close>

lemma lock_inv_processQC:
  assumes inv: "lock_inv sw T x" and run: "processQC ev ch (Some qc) x = (r, y)"
    and net: "view E sw T ev ch" "verified_blocks E sw T C"
    and round: "\<And>h. GetHeaderByHash ch (bi_Hash (qc_Block qc)) = Some h \<Longrightarrow> h_Number h > sw \<Longrightarrow>
      block_round sw h = Some (bi_Round (qc_Block qc))"
  shows "lock_inv sw T y"
proof -
  have adv: "advances x y" by (rule keepsD [OF adv_processQC run])
  from processQC_run [OF run] have eff: "after_QC ev ch qc x y" "quiet x y"
    "x_currentRound y = (if r = Inr () \<and> x_currentRound x \<le> bi_Round (qc_Block qc) then bi_Round (qc_Block qc) + 1 else x_currentRound x)"
    by simp_all
  from inv have sw: "xSwitchBlock x = sw" by (simp add: lock_inv_def)
  have sw': "xSwitchBlock y = xSwitchBlock x" using eff(2) by (simp add: quiet_def xSwitchBlock_def)
  show ?thesis
  proof (cases "x_lockQuorumCert y = x_lockQuorumCert x")
    case True
    then show ?thesis using lock_inv_same [OF inv adv _ sw'] by blast
  next
    case False
    with eff(1) sw obtain h q where h: "GetHeaderByHash ch (bi_Hash (qc_Block qc)) = Some h" "h_Number h > sw"
      "block_QC sw h = Some q" "x_lockQuorumCert y = Some q"
      by (auto simp: after_QC_def carried_block split: option.splits if_splits)
    from net(1) h(1) have T: "T (bi_Hash (qc_Block qc)) = Some h" by (simp add: view_def)
    have "bi_Round (qc_Block q) < bi_Round (qc_Block qc)"
      by (rule verifiedE [OF net(2) T h(2)]) (use h(3) round [OF h(1,2)] in auto)
    moreover from processQC_succeeds [OF h(1) sw net] run have "r = Inr ()" by auto
    moreover have "bi_Round (qc_Block qc) < bi_Round (qc_Block qc) + 1 \<or> wrapped y"
    proof (cases "bi_Round (qc_Block qc) = -1")
      case True
      have "bi_Round (qc_Block qc) \<le> hqc y" using eff(1) by (auto simp: after_QC_def hqc_def not_less)
      with True show ?thesis by (simp add: wrapped_def max_round)
    next
      case False
      then have "bi_Round (qc_Block qc) + 1 \<noteq> 0" by (metis add.commute add_eq_0_iff)
      then show ?thesis using next_round [OF order_refl False] by (auto simp: less_le)
    qed
    ultimately have "bi_Round (qc_Block q) < x_currentRound y \<or> wrapped y" using eff(3) by auto
    with h T sw sw' show ?thesis by (auto simp: lock_inv_def)
  qed
qed

lemma lock_inv_moves:
  assumes "(moves (view E sw T) (proposals E sw T))\<^sup>*\<^sup>* x y" "lock_inv sw T x" "verified_blocks E sw T C"
  shows "lock_inv sw T y"
  using assms(1,2)
proof (induction rule: rtranclp_induct)
  case (step y z)
  note inv = step.IH [OF step.prems]
  then have sw: "xSwitchBlock y = sw" by (simp add: lock_inv_def)
  from step(2) show ?case
  proof (cases rule: moves.cases)
    case idle
    with inv show ?thesis using lock_inv_progress by blast
  next
    case (checked ev ch qc r)
    show ?thesis by (rule lock_inv_processQC [OF inv checked(3) checked(1) assms(3)])
        (use checked(2) sw in \<open>auto simp: describes_def has_round_block\<close>)
  next
    case (proposed ev ch h qc rd ms r)
    from extra_block [OF proposed(3)] sw have q: "block_QC sw h = Some qc" by simp
    then have "h_Number h \<noteq> sw" by (auto simp: block_QC_def)
    with proposed(2) have T: "T (Header_Hash (keccak E) h) = Some h" "h_Number h > sw" by (auto simp: proposals_def)
    have "block_round sw g = Some (bi_Round (qc_Block qc))" if "GetHeaderByHash ch (bi_Hash (qc_Block qc)) = Some g" for g
      by (rule verifiedE [OF assms(3) T]) (use q that proposed(1) in \<open>auto simp: view_def\<close>)
    then show ?thesis by (intro lock_inv_processQC [OF inv proposed(4,1) assms(3)])
  next
    case (timed_out ev tc r)
    have "x_lockQuorumCert z = x_lockQuorumCert y" "xSwitchBlock z = xSwitchBlock y"
      using timed_out by (auto simp: processTC_def deref_def bindE_def setNewRound_def xSwitchBlock_def split: if_splits)
    then show ?thesis using lock_inv_same [OF inv keepsD [OF adv_processTC timed_out]] by blast
  qed
qed

text \<open>The state of a node that has just been started.\<close>

lemma quiet_initial: "keeps quiet (initial ev ch h)"
  unfolding initial_def initial_QC_def initial_snapshot_def
  by (intro quiet_frame quiet_putE quiet_processQC quiet.keeps_rules) (simp_all add: quiet_def)

lemma initial_run:
  assumes "initial ev ch h x = (Inr (), y)" "bi_Hash (qc_Block (x_highestQuorumCert x)) = 0"
  obtains x1 where "initial_QC ev ch h x = (Inr (), x1)" "x_lockQuorumCert y = x_lockQuorumCert x1"
    "x_currentRound y = x_currentRound x1" "hqc y = hqc x1" "htc y = htc x1"
proof -
  let ?f = "\<lambda>x. x\<lparr>x_minePeriodCh := x_minePeriodCh x @ [MinePeriod (CurrentConfig (cfg_V2 (x_config x)))]\<rparr>"
  let ?g = "\<lambda>x. x\<lparr>x_isInitilised := True,
    x_timeoutWorker := (if h_Number h = xSwitchBlock x then timer_Reset 0 0 (x_timeoutWorker x) else x_timeoutWorker x)\<rparr>"
  have "bindE (initial_QC ev ch h) (\<lambda>_. bindE (initial_snapshot ev ch) (\<lambda>_. bindE (putE ?f) (\<lambda>_. putE ?g))) x = (Inr (), y)"
    using assms by (simp add: initial_def)
  then obtain x1 x2 where r: "initial_QC ev ch h x = (Inr (), x1)" "initial_snapshot ev ch x1 = (Inr (), x2)" and "y = ?g (?f x2)"
    by (elim bindE_runE) (blast | simp)+
  then have y: "x_lockQuorumCert y = x_lockQuorumCert x2" "x_currentRound y = x_currentRound x2" "hqc y = hqc x2" "htc y = htc x2"
    by (simp_all add: hqc_def htc_def)
  have "keeps same_core (initial_snapshot ev ch)"
    unfolding initial_snapshot_def by (intro core.keeps_rules core_frame)
  from same_core_fields [OF keepsD [OF this r(2)]] y r(1) show thesis by (intro that) (simp_all add: hqc_def htc_def)
qed

lemma started_lock:
  assumes "started (view E sw T) (proposals E sw T) x" "xSwitchBlock x = sw" "verified_blocks E sw T C"
  shows "lock_inv sw T x"
  using assms(1)
proof cases
  case (start ev ch h build config db)
  let ?x0 = "New config db"
  from start(3) obtain y where y: "initial ev ch h ?x0 = (Inr (), y)" "RepairGapSnapshots ev ch build y = (Inr (), x)"
    by (auto simp: Initial_def)
  note core = keepsD [OF core_RepairGapSnapshots y(2)]
  have sw: "xSwitchBlock ?x0 = sw" using keepsD [OF quiet_initial y(1)] same_core_config(3) [OF core] assms(2)
    by (simp add: quiet_def xSwitchBlock_def)
  have "bi_Hash (qc_Block (x_highestQuorumCert ?x0)) = 0" "x_lockQuorumCert ?x0 = None" by (simp_all add: New_def)
  note new = this
  have inv0: "lock_inv sw T ?x0" using sw new by (simp add: lock_inv_def)
  from initial_run [OF y(1) new(1)] obtain x1 where x1: "initial_QC ev ch h ?x0 = (Inr (), x1)"
    "x_lockQuorumCert y = x_lockQuorumCert x1" "x_currentRound y = x_currentRound x1" "hqc y = hqc x1" "htc y = htc x1" by blast
  have "lock_inv sw T x1"
  proof (cases "h_Number h = sw")
    case True
    with x1(1) sw new(2) show ?thesis by (auto simp: initial_QC_def Let_def lock_inv_def xSwitchBlock_def)
  next
    case False
    with x1(1) sw obtain qp rd ms where qp: "getExtraFields h ?x0 = (Inr (qp, rd, ms), ?x0)" "processQC ev ch qp ?x0 = (Inr (), x1)"
      by (cases rule: extra_round [of h ?x0]) (auto simp: initial_QC_def)
    then obtain qc where q: "getExtraFields h ?x0 = (Inr (Some qc, rd, ms), ?x0)" "processQC ev ch (Some qc) ?x0 = (Inr (), x1)"
      by (cases qp) (auto simp: processQC_def [of _ _ None] deref_def)
    from moves.proposed [of "view E sw T" ev ch "proposals E sw T", OF start(1,2) q] show ?thesis
      using lock_inv_moves [OF _ inv0 assms(3)] by blast
  qed
  with x1 core assms(2) sw show ?thesis
    by (simp add: lock_inv_def same_core_fields wrapped_def hqc_def htc_def)
qed

section \<open>Votes\<close>

definition locked_at :: "Round \<Rightarrow> engine \<Rightarrow> bool" where
  "locked_at r x \<longleftrightarrow> (\<exists>l. x_lockQuorumCert x = Some l \<and> r \<le> bi_Round (qc_Block l))"

lemma locked_at_advances: "locked_at r x \<Longrightarrow> advances x y \<Longrightarrow> locked_at r y"
  by (auto simp: locked_at_def advances_def lock_le_def split: option.splits)

text \<open>
  A vote is for a block of v2; it is judged in a state \<open>x1\<close> of the round of the block in which the node
  is locked on the certificate its parent carries, or a later one.
\<close>

definition vote_rule :: "(hash \<Rightarrow> Header option) \<Rightarrow> int \<Rightarrow> BlockInfo \<Rightarrow> QuorumCert \<Rightarrow> engine \<Rightarrow> bool" where
  "vote_rule T sw b qc x1 \<longleftrightarrow> lock_inv sw T x1 \<and> x_currentRound x1 = bi_Round b \<and>
     (\<forall>p q. T (bi_Hash (qc_Block qc)) = Some p \<longrightarrow> h_Number p > sw \<longrightarrow> block_QC sw p = Some q \<longrightarrow> locked_at (bi_Round (qc_Block q)) x1) \<and>
     (\<forall>l. x_lockQuorumCert x1 = Some l \<longrightarrow> bi_Round (qc_Block l) < bi_Round (qc_Block qc) \<or> descends T (bi_Hash (qc_Block l)) (bi_Hash b))"

lemma carried_locked:
  assumes "after_QC ev ch qc x x1" "GetHeaderByHash ch (bi_Hash (qc_Block qc)) = Some p" "h_Number p > xSwitchBlock x"
    and "block_QC (xSwitchBlock x) p = Some q"
  shows "locked_at (bi_Round (qc_Block q)) x1"
  using assms by (auto simp: after_QC_def carried_block newer_than_lock_def locked_at_def not_less split: option.splits if_splits)

lemma vote_step:
  assumes "node_step (view E sw T) (proposals E sw T) x vs y" "v \<in> set vs" "lock_inv sw T x" "verified_blocks E sw T C"
  obtains h qc x1 where "T (bi_Hash (v_Block v)) = Some h" "h_Number h > sw" "block_QC sw h = Some qc"
    "block_round sw h = Some (bi_Round (v_Block v))" "vote_rule T sw (v_Block v) qc x1" "advances x x1" "advances x1 y"
  using assms(1)
proof (cases rule: node_step.cases)
  case (propose ev ch ch' h r)
  from propose(1) assms(2) have v: "v \<in> set (new_votes x y)" by simp
  from assms(3) have sw: "xSwitchBlock x = sw" by (simp add: lock_inv_def)
  from propose_rule [OF propose(5) v] obtain qc ms x1 x2 f where r:
    "getExtraFields h x = (Inr (Some qc, bi_Round (v_Block v), ms), x)" "processQC ev ch (Some qc) x = (Inr (), x1)"
    "v_Block v = \<lparr>bi_Hash = Header_Hash (keccak ev) h, bi_Round = x_currentRound x1, bi_Number = h_Number h\<rparr>"
    "x_lockQuorumCert x1 = None \<or> (\<exists>l. x_lockQuorumCert x1 = Some l \<and>
      (bi_Round (qc_Block l) < bi_Round (qc_Block qc) \<or>
       nth_ancestor_hash ch (nat (sint (Uint64 (h_Number h - bi_Number (qc_Block l))))) (Header_Hash (keccak ev) h) =
         Some (bi_Hash (qc_Block l))))" "advances x1 y" by metis
  from extra_block [OF r(1)] sw have b: "block_QC sw h = Some qc" "block_round sw h = Some (bi_Round (v_Block v))" by simp_all
  then have "h_Number h \<noteq> sw" by (auto simp: block_QC_def)
  with propose(4) r(3) have h: "T (bi_Hash (v_Block v)) = Some h" "h_Number h > sw" by (auto simp: proposals_def)
  have known: "GetHeaderByHash ch hs = Some g \<Longrightarrow> T hs = Some g" for hs g using propose(2) by (simp add: view_def)
  from moves.proposed [of "view E sw T" ev ch "proposals E sw T", OF propose(2,4) r(1,2)]
  have inv: "lock_inv sw T x1" using lock_inv_moves [OF _ assms(3,4)] by blast
  have "locked_at (bi_Round (qc_Block q)) x1"
    if "T (bi_Hash (qc_Block qc)) = Some p" "h_Number p > sw" "block_QC sw p = Some q" for p q
  proof -
    from r(2) obtain p' where p': "GetHeaderByHash ch (bi_Hash (qc_Block qc)) = Some p'"
      by (cases "GetHeaderByHash ch (bi_Hash (qc_Block qc))") (auto simp: processQC_parts)
    with known that(1) have "p' = p" by force
    with p' that carried_locked [of ev ch qc x x1 p q] processQC_run [OF r(2)] sw show ?thesis by simp
  qed
  moreover have "bi_Round (qc_Block l) < bi_Round (qc_Block qc) \<or> descends T (bi_Hash (qc_Block l)) (bi_Hash (v_Block v))"
    if "x_lockQuorumCert x1 = Some l" for l
    using that r(3,4) nth_ancestor_descends [of ch T] known by auto
  ultimately have "vote_rule T sw (v_Block v) qc x1" using inv r(3) by (auto simp: vote_rule_def)
  with h b r(5) keepsD [OF adv_processQC r(2)] show thesis using that by blast
qed (use assms(2) in auto)

lemma run_split:
  "node_run K B x vs y \<Longrightarrow> v \<in> set vs \<Longrightarrow>
   \<exists>us ws zs x1 y1. node_run K B x us x1 \<and> node_step K B x1 ws y1 \<and> v \<in> set ws \<and> node_run K B y1 zs y \<and> vs = us @ ws @ zs"
proof (induction rule: node_run.induct)
  case (more x vs y ws z)
  show ?case
  proof (cases "v \<in> set ws")
    case True
    with more(1,2) show ?thesis
      by (intro exI [of _ vs] exI [of _ ws] exI [of _ "[]"] exI [of _ y] exI [of _ z]) (simp add: node_run.stop)
  next
    case False
    with more.prems more.IH obtain us ws' zs x1 y1 where *: "node_run K B x us x1" "node_step K B x1 ws' y1" "v \<in> set ws'"
      "node_run K B y1 zs y" "vs = us @ ws' @ zs" by auto
    with node_run.more [OF *(4) more(2)] show ?thesis
      by (intro exI [of _ us] exI [of _ ws'] exI [of _ "zs @ ws"] exI [of _ x1] exI [of _ y1]) simp
  qed
qed simp

text \<open>A node that has voted for a block stays locked on what the parent of the block certifies, or later.\<close>

lemma run_locked:
  assumes run: "node_run (view E sw T) (proposals E sw T) x vs y" and x: "x_isInitilised x" "lock_inv sw T x"
    and net: "verified_blocks E sw T C" and v: "v \<in> set vs" "T (bi_Hash (v_Block v)) = Some h"
    and p: "T (h_ParentHash h) = Some p" "h_Number p > sw" "block_QC sw p = Some q"
  shows "locked_at (bi_Round (qc_Block q)) y"
proof -
  from run_split [OF run v(1)] obtain us ws zs x1 y1 where s: "node_run (view E sw T) (proposals E sw T) x us x1"
    "node_step (view E sw T) (proposals E sw T) x1 ws y1" "v \<in> set ws" "node_run (view E sw T) (proposals E sw T) y1 zs y" by blast
  have i1: "x_isInitilised x1" using run_advances [OF s(1) x(1)] x(1) by (simp add: advances_def)
  have inv: "lock_inv sw T x1" by (rule lock_inv_moves [OF run_moves [OF s(1) x(1)] x(2) net])
  obtain h' qc x2 where h': "T (bi_Hash (v_Block v)) = Some h'" "h_Number h' > sw" "block_QC sw h' = Some qc"
    "vote_rule T sw (v_Block v) qc x2" "advances x2 y1" by (rule vote_step [OF s(2,3) inv net])
  with v(2) have "h' = h" by simp
  have q: "bi_Hash (qc_Block qc) = h_ParentHash h"
    by (rule verifiedE [OF net h'(1,2)]) (use \<open>h' = h\<close> h'(3) in simp)
  have "locked_at (bi_Round (qc_Block q)) x2" using h'(4) p q unfolding vote_rule_def by auto
  from locked_at_advances [OF this h'(5)] have "locked_at (bi_Round (qc_Block q)) y1" .
  moreover have "x_isInitilised y1" using moves_advances [OF step_moves [OF s(2) i1]] i1 by (simp add: advances_def)
  ultimately show ?thesis using locked_at_advances run_advances [OF s(4)] by blast
qed

section \<open>Agreement\<close>

text \<open>The signers of a certificate, and the certificates a quorum of the masternodes \<open>M\<close> has signed.\<close>

definition voters :: "env \<Rightarrow> QuorumCert \<Rightarrow> address set" where
  "voters E q = signers E (VoteSigHash (keccak E) (qc_Block q) (qc_GapNumber q)) (qc_Signatures q)"

definition certified :: "env \<Rightarrow> address set \<Rightarrow> QuorumCert \<Rightarrow> bool" where
  "certified E M q \<longleftrightarrow> threshold_reached (card (voters E q \<inter> M)) (card M) certThreshold_667"

text \<open>The certificates that blocks carry, that of the switch block apart.\<close>

definition certificates :: "int \<Rightarrow> (hash \<Rightarrow> Header option) \<Rightarrow> QuorumCert set" where
  "certificates sw T = {q. \<exists>hs h. T hs = Some h \<and> h_Number h > sw \<and> block_QC sw h = Some q \<and> bi_Round (qc_Block q) \<noteq> 0}"

text \<open>
  An honest masternode runs the engine, on views of the blocks there are, and its signatures on the
  certificates \<open>Q\<close> are those of the votes of its run.  Its round counter has not run through \<open>2 ^ 64\<close> rounds.
\<close>

definition honest :: "env \<Rightarrow> int \<Rightarrow> (hash \<Rightarrow> Header option) \<Rightarrow> QuorumCert set \<Rightarrow> address \<Rightarrow> bool" where
  "honest E sw T Q a \<longleftrightarrow> (\<exists>x vs y. started (view E sw T) (proposals E sw T) x \<and> xSwitchBlock x = sw \<and>
     node_run (view E sw T) (proposals E sw T) x vs y \<and> \<not> wrapped y \<and>
     (\<forall>q \<in> Q. a \<in> voters E q \<longrightarrow> (\<exists>v \<in> set vs. v_Block v = qc_Block q)))"

text \<open>
  A network: at most a third of the masternodes \<open>M\<close> is faulty, blocks have been verified, and \<open>Q\<close> is the
  certificates there are, those of the blocks among them.
\<close>

definition network :: "env \<Rightarrow> int \<Rightarrow> (hash \<Rightarrow> Header option) \<Rightarrow> address set \<Rightarrow> address set \<Rightarrow> QuorumCert set \<Rightarrow> bool" where
  "network E sw T M F Q \<longleftrightarrow> finite M \<and> M \<noteq> {} \<and> F \<subseteq> M \<and> 3 * card F \<le> card M \<and>
     verified_blocks E sw T (certified E M) \<and> certificates sw T \<subseteq> Q \<and> (\<forall>a \<in> M - F. honest E sw T Q a)"

lemma quorums_meet:
  assumes "network E sw T M F Q" "certified E M q" "certified E M q'"
  obtains a where "a \<in> M - F" "a \<in> voters E q" "a \<in> voters E q'"
  using assms quorums_intersect [of M "voters E q \<inter> M" "voters E q' \<inter> M" F]
  by (auto simp: network_def certified_def)

lemma honestE:
  assumes "network E sw T M F Q" "a \<in> M - F" "q \<in> Q" "q' \<in> Q" "a \<in> voters E q" "a \<in> voters E q'"
  obtains x vs y v v' where "x_isInitilised x" "lock_inv sw T x" "node_run (view E sw T) (proposals E sw T) x vs y" "\<not> wrapped y"
    "v \<in> set vs" "v_Block v = qc_Block q" "v' \<in> set vs" "v_Block v' = qc_Block q'"
proof -
  from assms have "honest E sw T Q a" "verified_blocks E sw T (certified E M)" by (auto simp: network_def)
  then obtain x vs y where r: "started (view E sw T) (proposals E sw T) x" "xSwitchBlock x = sw"
    "node_run (view E sw T) (proposals E sw T) x vs y" "\<not> wrapped y"
    "\<forall>q \<in> Q. a \<in> voters E q \<longrightarrow> (\<exists>v \<in> set vs. v_Block v = qc_Block q)" by (auto simp: honest_def)
  from r(5) assms(3-6) obtain v v' where "v \<in> set vs" "v_Block v = qc_Block q" "v' \<in> set vs" "v_Block v' = qc_Block q'" by blast
  with r started_initialised [OF r(1)] started_lock [OF r(1,2)] \<open>verified_blocks E sw T (certified E M)\<close>
  show thesis using that by blast
qed

text \<open>Certificates of the same round are for the same block.\<close>

lemma one_block_per_round:
  assumes "network E sw T M F Q" "q \<in> Q" "q' \<in> Q" "certified E M q" "certified E M q'"
    and "bi_Round (qc_Block q) = bi_Round (qc_Block q')"
  shows "qc_Block q = qc_Block q'"
proof -
  obtain a where a: "a \<in> M - F" "a \<in> voters E q" "a \<in> voters E q'" by (rule quorums_meet [OF assms(1,4,5)])
  obtain x vs y v v' where r: "x_isInitilised x" "node_run (view E sw T) (proposals E sw T) x vs y"
    "v \<in> set vs" "v_Block v = qc_Block q" "v' \<in> set vs" "v_Block v' = qc_Block q'"
    by (rule honestE [OF assms(1) a(1) assms(2,3) a(2,3)])
  from run_voted [OF r(2,1)] have "distinct (map (bi_Round \<circ> v_Block) vs)" by (metis strict_sorted_iff)
  then have "inj_on (bi_Round \<circ> v_Block) (set vs)" by (simp add: distinct_map)
  from inj_onD [OF this _ r(3,5)] r(4,6) assms(6) have "v = v'" by simp
  with r show ?thesis by simp
qed

text \<open>A chain of three blocks of consecutive rounds, the last one certified.\<close>

definition committed_chain :: "env \<Rightarrow> int \<Rightarrow> (hash \<Rightarrow> Header option) \<Rightarrow> address set \<Rightarrow> QuorumCert set \<Rightarrow> QuorumCert \<Rightarrow> Round \<Rightarrow> Header \<Rightarrow> Header \<Rightarrow> bool" where
  "committed_chain E sw T M Q q2 r h2 h1 \<longleftrightarrow> q2 \<in> Q \<and> certified E M q2 \<and> bi_Round (qc_Block q2) = r \<and>
     T (bi_Hash (qc_Block q2)) = Some h2 \<and> T (h_ParentHash h2) = Some h1 \<and> h_Number h2 - 2 > sw \<and>
     block_round sw h2 = Some r \<and> block_round sw h1 = Some (r - 1) \<and> (\<exists>h0. T (h_ParentHash h1) = Some h0 \<and> block_round sw h0 = Some (r - 2))"

text \<open>The certificates of the two blocks below the last one, and their rounds.\<close>

lemma carried_certificate:
  assumes "network E sw T M F Q" "T hs = Some h" "h_Number h > sw" "block_QC sw h = Some q" "bi_Round (qc_Block q) \<noteq> 0"
  shows "q \<in> Q \<and> certified E M q"
proof -
  have net: "verified_blocks E sw T (certified E M)" "certificates sw T \<subseteq> Q" using assms(1) by (simp_all add: network_def)
  have "certified E M q" by (rule verifiedE [OF net(1) assms(2,3)]) (use assms in auto)
  moreover have "q \<in> certificates sw T" using assms by (auto simp: certificates_def)
  ultimately show ?thesis using net(2) by blast
qed

lemma chain_certificates:
  assumes net: "network E sw T M F Q" and chain: "committed_chain E sw T M Q q2 r h2 h1"
  obtains q1 q0 where "q1 \<in> Q" "certified E M q1" "block_QC sw h2 = Some q1" "bi_Round (qc_Block q1) = r - 1"
    "bi_Hash (qc_Block q1) = h_ParentHash h2" "q0 \<in> Q" "certified E M q0" "block_QC sw h1 = Some q0"
    "bi_Round (qc_Block q0) = r - 2" "bi_Hash (qc_Block q0) = h_ParentHash h1" "h_Number h1 > sw" "r - 2 < r - 1" "r - 1 < r" "r - 2 \<noteq> 0"
proof -
  have vb: "verified_blocks E sw T (certified E M)" using net by (simp add: network_def)
  from chain obtain h0 where c: "T (bi_Hash (qc_Block q2)) = Some h2" "T (h_ParentHash h2) = Some h1" "h_Number h2 - 2 > sw"
    "block_round sw h2 = Some r" "block_round sw h1 = Some (r - 1)" "T (h_ParentHash h1) = Some h0" "block_round sw h0 = Some (r - 2)"
    by (auto simp: committed_chain_def)
  then have n2: "h_Number h2 > sw" by simp
  obtain q1 where q1: "block_QC sw h2 = Some q1" "bi_Hash (qc_Block q1) = h_ParentHash h2" "h_Number h1 = h_Number h2 - 1"
    "bi_Round (qc_Block q1) = r - 1" "r - 1 < r" by (rule verifiedE [OF vb c(1) n2]) (use c in auto)
  with c have n1: "h_Number h1 > sw" by simp
  obtain q0 where q0: "block_QC sw h1 = Some q0" "bi_Hash (qc_Block q0) = h_ParentHash h1" "h_Number h0 = h_Number h1 - 1"
    "bi_Round (qc_Block q0) = r - 2" "r - 2 < r - 1" by (rule verifiedE [OF vb c(2) n1]) (use c in auto)
  with c q1 have n0: "h_Number h0 > sw" by simp
  have r: "r - 2 \<noteq> 0" by (rule round_positive [OF vb c(6) n0 c(7)])
  then have "r - 1 \<noteq> 0" using q0(5) by auto
  with r carried_certificate [OF net c(1) n2 q1(1)] carried_certificate [OF net c(2) n1 q0(1)] q1(4) q0(4)
  show thesis by (intro that [of q1 q0] q1 q0 n1) simp_all
qed

lemma three_rounds:
  fixes r s :: u64
  assumes "r - 2 \<le> s" "s \<le> r" "r - 2 < r - 1" "r - 1 < r"
  shows "s = r - 2 \<or> s = r - 1 \<or> s = r"
proof -
  have "r \<noteq> 0" "r - 1 \<noteq> 0" using assms by auto
  then have "unat r = Suc (unat (r - 1))" "unat (r - 1) = Suc (unat (r - 2))"
    using unatSuc [of "r - 1"] unatSuc [of "r - 2"] by simp_all
  then have "unat s = unat (r - 2) \<or> unat s = unat (r - 1) \<or> unat s = unat r"
    using assms by (auto simp: word_le_nat_alt)
  then show ?thesis by (simp only: word_unat_eq_iff)
qed

text \<open>A vote of a later round: the node was locked on the chain before, so the block descends from it.\<close>

lemma later_vote:
  assumes net: "network E sw T M F Q" and chain: "committed_chain E sw T M Q q2 r h2 h1"
    and q: "q \<in> Q" "certified E M q" "r < bi_Round (qc_Block q)"
    and IH: "\<And>p. p \<in> Q \<Longrightarrow> certified E M p \<Longrightarrow> r - 2 \<le> bi_Round (qc_Block p) \<Longrightarrow> bi_Round (qc_Block p) < bi_Round (qc_Block q) \<Longrightarrow>
      descends T (h_ParentHash h1) (bi_Hash (qc_Block p))"
  shows "descends T (h_ParentHash h1) (bi_Hash (qc_Block q))"
proof -
  let ?K = "view E sw T" and ?B = "proposals E sw T"
  have vb: "verified_blocks E sw T (certified E M)" using net by (simp add: network_def)
  obtain q1 q0 where c: "block_QC sw h1 = Some q0" "bi_Round (qc_Block q0) = r - 2" "h_Number h1 > sw" "r - 2 \<noteq> 0"
    by (rule chain_certificates [OF net chain])
  have c2: "q2 \<in> Q" "certified E M q2" "bi_Round (qc_Block q2) = r" "T (bi_Hash (qc_Block q2)) = Some h2" "T (h_ParentHash h2) = Some h1"
    using chain by (auto simp: committed_chain_def)
  obtain a where a: "a \<in> M - F" "a \<in> voters E q2" "a \<in> voters E q" by (rule quorums_meet [OF net c2(2) q(2)])
  obtain x vs y v2 v where run: "x_isInitilised x" "lock_inv sw T x" "node_run ?K ?B x vs y" "\<not> wrapped y"
    "v2 \<in> set vs" "v_Block v2 = qc_Block q2" "v \<in> set vs" "v_Block v = qc_Block q"
    by (rule honestE [OF net a(1) c2(1) q(1) a(2,3)])
  from run_split [OF run(3,7)] obtain us ws zs x1 y1 where s: "node_run ?K ?B x us x1" "node_step ?K ?B x1 ws y1" "v \<in> set ws"
    "node_run ?K ?B y1 zs y" "vs = us @ ws @ zs" by blast
  have i1: "x_isInitilised x1" using run_advances [OF s(1) run(1)] run(1) by (simp add: advances_def)
  have i2: "x_isInitilised y1" using moves_advances [OF step_moves [OF s(2) i1]] i1 by (simp add: advances_def)
  have inv: "lock_inv sw T x1" by (rule lock_inv_moves [OF run_moves [OF s(1) run(1)] run(2) vb])
  from step_voted [OF s(2) i1] s(3) have ws: "ws = [v]" by auto
  have "v2 \<in> set us"
  proof -
    from run_voted [OF run(3,1)] have "sorted_wrt (<) (map (bi_Round \<circ> v_Block) (us @ [v] @ zs))" by (simp add: s(5) ws)
    then have "\<forall>z \<in> set zs. bi_Round (v_Block v) < bi_Round (v_Block z)" by (simp add: sorted_wrt_append)
    with run(5-8) c2(3) q(3) show ?thesis by (auto simp: s(5) ws)
  qed
  from run_locked [OF s(1) run(1,2) vb this _ c2(5) c(3,1)] run(6) c2(4) c(2) have l1: "locked_at (r - 2) x1" by simp
  obtain h qc x2 where v: "T (bi_Hash (v_Block v)) = Some h" "h_Number h > sw" "block_QC sw h = Some qc"
    "block_round sw h = Some (bi_Round (v_Block v))" "vote_rule T sw (v_Block v) qc x2" "advances x1 x2" "advances x2 y1"
    by (rule vote_step [OF s(2,3) inv vb])
  from locked_at_advances [OF l1 v(6)] obtain l where l: "x_lockQuorumCert x2 = Some l" "r - 2 \<le> bi_Round (qc_Block l)"
    by (auto simp: locked_at_def)
  have "\<not> wrapped x2" using wrapped_advances [OF v(7)] wrapped_advances [OF run_advances [OF s(4) i2]] run(4) by blast
  with v(5) l(1) run(8) obtain hs g where g: "T hs = Some g" "h_Number g > sw" "block_QC sw g = Some l"
    "bi_Round (qc_Block l) < bi_Round (qc_Block q)" by (auto simp: vote_rule_def lock_inv_def)
  have "bi_Round (qc_Block l) \<noteq> 0" using l(2) c(4) by auto
  from carried_certificate [OF net g(1-3) this] IH l(2) g(4) have dl: "descends T (h_ParentHash h1) (bi_Hash (qc_Block l))" by blast
  from v(5) l(1) run(8) consider "bi_Round (qc_Block l) < bi_Round (qc_Block qc)"
    | "descends T (bi_Hash (qc_Block l)) (bi_Hash (qc_Block q))" by (auto simp: vote_rule_def)
  then show ?thesis
  proof cases
    case 1
    then have "bi_Round (qc_Block qc) \<noteq> 0" by auto
    note qc = carried_certificate [OF net v(1-3) this]
    have "bi_Round (qc_Block qc) < bi_Round (qc_Block q)" "bi_Hash (qc_Block qc) = h_ParentHash h"
      by (rule verifiedE [OF vb v(1,2)]; use v(3,4) run(8) in simp)+
    with IH [of qc] qc 1 l(2) have "descends T (h_ParentHash h1) (h_ParentHash h)" by auto
    with v(1) run(8) show ?thesis by (simp add: descends.child)
  next
    case 2
    from descends_trans [OF this dl] show ?thesis .
  qed
qed

lemma certified_descends:
  assumes net: "network E sw T M F Q" and chain: "committed_chain E sw T M Q q2 r h2 h1"
    and "q \<in> Q" "certified E M q" "r - 2 \<le> bi_Round (qc_Block q)"
  shows "descends T (h_ParentHash h1) (bi_Hash (qc_Block q))"
  using assms(3-5)
proof (induction q rule: measure_induct_rule [of "\<lambda>q. unat (bi_Round (qc_Block q))"])
  case (less q)
  show ?case
  proof (cases "r < bi_Round (qc_Block q)")
    case True
    show ?thesis by (rule later_vote [OF net chain less.prems(1,2) True]) (rule less.IH, simp_all add: word_less_nat_alt)
  next
    case False
    obtain q1 q0 where c: "q1 \<in> Q" "certified E M q1" "bi_Round (qc_Block q1) = r - 1" "bi_Hash (qc_Block q1) = h_ParentHash h2"
      "q0 \<in> Q" "certified E M q0" "bi_Round (qc_Block q0) = r - 2" "bi_Hash (qc_Block q0) = h_ParentHash h1" "r - 2 < r - 1" "r - 1 < r"
      by (rule chain_certificates [OF net chain])
    have c2: "q2 \<in> Q" "certified E M q2" "bi_Round (qc_Block q2) = r" "T (bi_Hash (qc_Block q2)) = Some h2" "T (h_ParentHash h2) = Some h1"
      using chain by (auto simp: committed_chain_def)
    have d1: "descends T (h_ParentHash h1) (h_ParentHash h2)" using c2(5) by (rule descends.child) (rule descends.self)
    then have d2: "descends T (h_ParentHash h1) (bi_Hash (qc_Block q2))" using c2(4) by (rule_tac descends.child)
    have same: "bi_Hash (qc_Block q) = bi_Hash (qc_Block p)" if "p \<in> Q" "certified E M p" "bi_Round (qc_Block q) = bi_Round (qc_Block p)" for p
      using one_block_per_round [OF net less.prems(1) that(1) less.prems(2) that(2,3)] by simp
    from three_rounds [OF less.prems(3) _ c(9,10)] False show ?thesis
      using same [of q0] same [of q1] same [of q2] c c2 d1 d2 descends.self by (auto simp: not_less)
  qed
qed

section \<open>Certificates and commits of the nodes\<close>

text \<open>A node accepts a certificate, in the epoch of the masternodes \<open>M\<close> and under the deployed threshold.\<close>

definition accepts :: "env \<Rightarrow> address set \<Rightarrow> env \<Rightarrow> chain \<Rightarrow> Header list \<Rightarrow> engine \<Rightarrow> QuorumCert \<Rightarrow> bool" where
  "accepts E M ev ch ps x q \<longleftrightarrow> (\<exists>y. verifyQC ev ch (Some q) ps x = (Inr (), y)) \<and> keccak ev = keccak E \<and> Ecrecover ev = Ecrecover E \<and>
     (\<exists>info x1. getEpochSwitchInfo ev ch ps (bi_Hash (qc_Block q)) x = (Inr info, x1) \<and>
        set (es_Masternodes info) = M \<and> es_MasternodesLen info = card M) \<and>
     (\<exists>cfg. V2_Config (bi_Round (qc_Block q)) (cfg_V2 (x_config x)) = Some cfg \<and> CertThreshold cfg = certThreshold_667)"

lemma signers_cong: "keccak ev = keccak E \<Longrightarrow> Ecrecover ev = Ecrecover E \<Longrightarrow> signers ev h sigs = signers E h sigs"
proof -
  assume "keccak ev = keccak E" "Ecrecover ev = Ecrecover E"
  then have "recover_signer ev h sig = recover_signer E h sig" for sig
    by (auto simp: recover_signer_def pubkey_address_def split: sum.splits)
  then show ?thesis by (simp add: signers_def)
qed

lemma accepts_certified:
  assumes "accepts E M ev ch ps x q" "bi_Round (qc_Block q) \<noteq> 0"
  shows "certified E M q \<and> describes ev ch x (if ps = [] then None else Some (last ps)) (qc_Block q)"
proof -
  let ?h = "VoteSigHash (keccak ev) (qc_Block q) (qc_GapNumber q)"
  from assms(1) obtain info x1 where i: "getEpochSwitchInfo ev ch ps (bi_Hash (qc_Block q)) x = (Inr info, x1)"
    "set (es_Masternodes info) = M" "es_MasternodesLen info = card M" by (auto simp: accepts_def)
  from assms(1) verifyQC_accepts [of ev ch q ps x] i(1) have v: "valid_QC ev ch x info (if ps = [] then None else Some (last ps)) q"
    by (auto simp: accepts_def)
  have s: "signers ev ?h (qc_Signatures q) = voters E q"
    using signers_cong [of ev E] assms(1) by (simp add: accepts_def voters_def)
  have "threshold_reached (card (voters E q)) (card M) certThreshold_667"
    using v assms i s by (auto simp: valid_QC_def Let_def accepts_def)
  moreover have "signed_by ev ?h (qc_Signatures q) (es_Masternodes info)" using v unfolding valid_QC_def Let_def by blast
  from signed_by_signers [OF this] i(2) s have "voters E q \<inter> M = voters E q" by blast
  ultimately show ?thesis using v unfolding certified_def valid_QC_def Let_def by simp
qed

text \<open>A node commits \<open>b\<close> when it processes a certificate whose block it has checked.\<close>

definition commits :: "env \<Rightarrow> int \<Rightarrow> (hash \<Rightarrow> Header option) \<Rightarrow> address set \<Rightarrow> QuorumCert set \<Rightarrow> env \<Rightarrow> chain \<Rightarrow> QuorumCert \<Rightarrow> engine \<Rightarrow> BlockInfo \<Rightarrow> bool" where
  "commits E sw T M Q ev ch q x b \<longleftrightarrow> view E sw T ev ch \<and> xSwitchBlock x = sw \<and> q \<in> Q \<and> certified E M q \<and>
     describes ev ch x None (qc_Block q) \<and> x_highestCommitBlock x \<noteq> Some b \<and>
     x_highestCommitBlock (snd (processQC ev ch (Some q) x)) = Some b"

lemma commits_chain:
  assumes "network E sw T M F Q" "commits E sw T M Q ev ch q x b"
  obtains h2 h1 where "committed_chain E sw T M Q q (bi_Round (qc_Block q)) h2 h1" "bi_Hash b = h_ParentHash h1"
    "bi_Round b = bi_Round (qc_Block q) - 2"
proof -
  let ?r = "bi_Round (qc_Block q)"
  have vb: "verified_blocks E sw T (certified E M)" using assms(1) by (simp add: network_def)
  from assms(2) have c: "view E sw T ev ch" "xSwitchBlock x = sw" "q \<in> Q" "certified E M q" "describes ev ch x None (qc_Block q)"
    "x_highestCommitBlock x \<noteq> Some b" "x_highestCommitBlock (snd (processQC ev ch (Some q) x)) = Some b" by (auto simp: commits_def)
  from processQC_run [of ev ch q x "fst (processQC ev ch (Some q) x)" "snd (processQC ev ch (Some q) x)"]
  have "after_QC ev ch q x (snd (processQC ev ch (Some q) x))" by simp
  with c(2,6,7) obtain h2 where h2: "GetHeaderByHash ch (bi_Hash (qc_Block q)) = Some h2" "h_Number h2 > sw" "committable ev ch x h2 b"
    by (auto simp: after_QC_def split: option.splits if_splits)
  from c(5) h2(1) have r: "has_round x h2 ?r" by (auto simp: describes_def)
  with h2(3) have "three_chain ev ch x h2 ?r b" by (auto simp: committable_def has_round_block)
  then obtain h1 h0 where t: "GetHeaderByHash ch (h_ParentHash h2) = Some h1" "GetHeaderByHash ch (h_ParentHash h1) = Some h0"
    "has_round x h1 (?r - 1)" "has_round x h0 (?r - 2)" "h_Number h2 - 2 > sw"
    "b = \<lparr>bi_Hash = Header_Hash (keccak ev) h0, bi_Round = ?r - 2, bi_Number = h_Number h0\<rparr>"
    using c(2) by (auto simp: three_chain_def)
  from c(1) h2(1) t(1,2) have T: "T (bi_Hash (qc_Block q)) = Some h2" "T (h_ParentHash h2) = Some h1" "T (h_ParentHash h1) = Some h0"
    "keccak ev = keccak E" by (simp_all add: view_def)
  have n1: "h_Number h1 = h_Number h2 - 1" by (rule verifiedE [OF vb T(1) h2(2)]) (use T in simp)
  with t(5) have "h_Number h1 > sw" by simp
  then have n0: "h_Number h0 = h_Number h1 - 1" by (rule verifiedE [OF vb T(2)]) (use T in simp)
  with n1 t(5) have "h_Number h0 > sw" by simp
  then have "Header_Hash (keccak E) h0 = h_ParentHash h1" by (rule verifiedE [OF vb T(3)])
  moreover have "committed_chain E sw T M Q q ?r h2 h1" using c t T r by (simp add: committed_chain_def has_round_block)
  ultimately show thesis using that [of h2 h1] t(6) T(4) by simp
qed



end
