(* ===== verification/Liveness.thy ===== *)
theory Liveness
  imports Safety
begin

text \<open>
  The engine moves on: the votes and the timeouts of enough masternodes, once they are in the pools, end
  the round.  The counterpart, that nothing less ends it, is in \<open>Certificates_Laws\<close>.
\<close>

section \<open>Enough signatures\<close>

lemma threshold_mono: "threshold_reached m n thr \<Longrightarrow> m \<le> m' \<Longrightarrow> threshold_reached m' n thr"
  unfolding threshold_reached_def by (meson le_trans mult_le_mono1)

text \<open>Every address among the signers of a list of messages needs one of the messages for itself.\<close>

lemma card_recovered:
  assumes "\<And>a. a \<in> A \<Longrightarrow> \<exists>w \<in> set ws. f w = Inr a"
  shows "card A \<le> length ws"
proof -
  have "A \<subseteq> (\<lambda>w. case f w of Inr a \<Rightarrow> a) ` set ws" using assms by force
  then have "card A \<le> card ((\<lambda>w. case f w of Inr a \<Rightarrow> a) ` set ws)" by (intro card_mono) simp_all
  also have "\<dots> \<le> card (set ws)" by (rule card_image_le) simp
  also have "\<dots> \<le> length ws" by (rule card_length)
  finally show ?thesis .
qed

lemma collected_at_least:
  assumes "verifyAllSignatures ev h sigs ms = ((vs, ss, ds), es)" "A \<subseteq> signers ev h sigs \<inter> set ms"
  shows "card A \<le> length vs"
proof -
  note s = verifyAllSignatures_spec [OF assms(1)]
  have "card A \<le> card (set ss)" using s assms(2) by (intro card_mono) simp_all
  also from s have "card (set ss) = length ss" by (blast intro: distinct_card)
  also from s have "length ss = length vs" by (blast dest: list_all2_lengthD [symmetric])
  finally show ?thesis .
qed

section \<open>Votes\<close>

text \<open>
  The masternodes whose votes count: their signature on the block and the gap number of \<open>v\<close> is in the
  pool, in a vote which either has not been checked or was found to be of a masternode.
\<close>

definition counted_votes :: "env \<Rightarrow> address list \<Rightarrow> Vote \<Rightarrow> (hash \<times> Vote) list \<Rightarrow> address set" where
  "counted_votes ev ms v pooled = {a \<in> set ms. a \<noteq> 0 \<and> (\<exists>w \<in> snd ` set pooled. v_Block w = v_Block v \<and> v_GapNumber w = v_GapNumber v \<and>
     recover_signer ev (VoteSigHash (keccak ev) (v_Block v) (v_GapNumber v)) (v_Signature w) = Inr a \<and> (v_signer w = 0 \<or> v_signer w \<in> set ms))}"

lemma verify_vote_signature [simp]: "v_Signature (verify_vote ev ms v) = v_Signature v"
  by (auto simp: verify_vote_def split: sum.splits)

lemma verified_vote:
  assumes "recover_signer ev (VoteSigHash (keccak ev) (v_Block w) (v_GapNumber w)) (v_Signature w) = Inr a" "a \<in> set ms" "a \<noteq> 0"
    and "v_signer w = 0 \<or> v_signer w \<in> set ms"
  shows "v_signer (verify_vote ev ms w) \<noteq> 0"
proof -
  have "verifyMsgSignature ev (VoteSigHash (keccak ev) (v_Block w) (v_GapNumber w)) (v_Signature w) ms = Inr (True, a)"
    using assms(1,2) by (simp add: verifyMsgSignature_iff)
  with assms(3,4) show ?thesis by (auto simp: verify_vote_def)
qed

lemma counted_signers:
  "counted_votes ev ms v pooled \<subseteq> signers ev (VoteSigHash (keccak ev) (v_Block v) (v_GapNumber v))
     (map v_Signature (filter (\<lambda>v. v_signer v \<noteq> 0) (go_range ev (map snd (map (\<lambda>(k, v). (k, verify_vote ev ms v)) pooled))))) \<inter> set ms"
proof
  fix a
  let ?h = "VoteSigHash (keccak ev) (v_Block v) (v_GapNumber v)"
  assume "a \<in> counted_votes ev ms v pooled"
  then obtain k w where w: "a \<in> set ms" "a \<noteq> 0" "(k, w) \<in> set pooled" "v_Block w = v_Block v" "v_GapNumber w = v_GapNumber v"
    "recover_signer ev ?h (v_Signature w) = Inr a" "v_signer w = 0 \<or> v_signer w \<in> set ms" by (auto simp: counted_votes_def)
  from verified_vote [of ev w a ms] w have "v_signer (verify_vote ev ms w) \<noteq> 0" by simp
  with w show "a \<in> signers ev ?h (map v_Signature (filter (\<lambda>v. v_signer v \<noteq> 0)
      (go_range ev (map snd (map (\<lambda>(k, v). (k, verify_vote ev ms v)) pooled))))) \<inter> set ms"
    by (auto simp: signers_def intro!: bexI [of _ "(k, w)"])
qed

lemma onVotePool_makes_QC:
  assumes "getEpochSwitchInfo ev ch [] (bi_Hash (v_Block v)) x = (Inr i, x1)" "V2_Config (bi_Round (v_Block v)) (cfg_V2 (x_config x)) = Some cfg"
    and "threshold_reached (card (counted_votes ev (es_Masternodes i) v pooled)) (es_MasternodesLen i) (CertThreshold cfg)"
  shows "\<exists>sigs. onVotePoolThresholdReached ev ch (map (\<lambda>(k, v). (k, verify_vote ev (es_Masternodes i) v)) pooled) v x =
    processQC ev ch (Some \<lparr>qc_Block = v_Block v, qc_Signatures = sigs, qc_GapNumber = v_GapNumber v\<rparr>) x1"
proof -
  let ?h = "VoteSigHash (keccak ev) (v_Block v) (v_GapNumber v)"
  let ?sigs = "map v_Signature (filter (\<lambda>v. v_signer v \<noteq> 0) (go_range ev (map snd (map (\<lambda>(k, v). (k, verify_vote ev (es_Masternodes i) v)) pooled))))"
  obtain vs ss ds es where va: "verifyAllSignatures ev ?h ?sigs (es_Masternodes i) = ((vs, ss, ds), es)" by (metis prod.exhaust)
  from threshold_mono [OF assms(3) collected_at_least [OF va counted_signers]]
  have "threshold_reached (length vs) (es_MasternodesLen i) (CertThreshold cfg)" .
  with assms(1,2) va same_core_fields(1) [OF keepsD [OF core_getEpochSwitchInfo assms(1)]] show ?thesis
    by (auto simp: onVotePoolThresholdReached_def bindE_def mapErrE_def configAt_def deref_def simp del: map_map)
qed

lemma counted_at_most: "card (counted_votes ev ms v pooled) \<le> length pooled"
  using card_recovered [of "counted_votes ev ms v pooled" "map snd pooled"
      "\<lambda>w. recover_signer ev (VoteSigHash (keccak ev) (v_Block v) (v_GapNumber v)) (v_Signature w)"]
  by (auto simp: counted_votes_def)

lemma GetMasternodes_ok:
  assumes "epoch_of T sw epoch m (Header_Hash (keccak ev) h) i" "m < depth ev" "cache_ok T sw epoch x" "\<And>j. GetHeaderByHash ch j = T j"
    and "T (Header_Hash (keccak ev) h) = Some h"
  shows "\<exists>y. GetMasternodes ev ch (Some h) x = (Inr (es_Masternodes i), y) \<and> cache_ok T sw epoch y"
proof -
  from getEpochSwitchInfo_ok [OF assms(1-4), of "[h]"] assms(5) obtain j y where
    "getEpochSwitchInfo ev ch [h] (Header_Hash (keccak ev) h) x = (Inr j, y)" "same_info i j" "cache_ok T sw epoch y" by auto
  then show ?thesis
    by (auto simp: GetMasternodes_def epochInfo_or_empty_def epochInfo_of_def Header_ptr_Hash_def bindE_def tryE_def same_info_def)
qed

lemma counted_info: "same_info i j \<Longrightarrow> es_Masternodes j = es_Masternodes i \<and> es_MasternodesLen j = es_MasternodesLen i"
  by (simp add: same_info_def)

lemma quorum_ends_round:
  assumes "bi_Round (v_Block v) = x_currentRound x" "Pool_Add (voteObj (keccak ev)) v (x_votePool x) = (n, pooled, p)"
    and epoch: "epoch_of T sw epoch m (bi_Hash (v_Block v)) i" "m < depth ev" "cache_ok T sw epoch x" "\<And>j. GetHeaderByHash ch j = T j"
    and blk: "describes ev ch x None (v_Block v)" "\<And>h. T (bi_Hash (v_Block v)) = Some h \<Longrightarrow> Header_Hash (keccak ev) h = bi_Hash (v_Block v)"
    and enough: "V2_Config (x_currentRound x) (cfg_V2 (x_config x)) = Some cfg"
      "threshold_reached (card (counted_votes ev (es_Masternodes i) v pooled)) (es_MasternodesLen i) (CertThreshold cfg)"
    and chain: "view E sw T ev ch" "verified_blocks E sw T C"
  shows "\<exists>y. voteHandler ev ch v x = (Inr (), y) \<and> x_currentRound y = x_currentRound x + 1 \<and> x_currentRound x \<le> hqc y"
proof -
  let ?x1 = "(if x_votePoolCollectionTime x = None then x\<lparr>x_votePoolCollectionTime := Some (now ev)\<rparr> else x)\<lparr>x_votePool := p\<rparr>"
  let ?ms = "es_Masternodes i" and ?k = "bi_Hash (v_Block v)" and ?r = "bi_Round (v_Block v)"
  have s1: "same_epochs x ?x1" "x_config ?x1 = x_config x" "x_currentRound ?x1 = x_currentRound x" by (simp_all add: same_epochs_def)
  from cache_ok_same [OF s1(1)] epoch(3) have c1: "cache_ok T sw epoch ?x1" by simp
  from getEpochSwitchInfo_ok [OF epoch(1,2) c1 epoch(4), of "[]"] obtain j2 x2 where
    x2: "getEpochSwitchInfo ev ch [] ?k ?x1 = (Inr j2, x2)" "same_info i j2" "cache_ok T sw epoch x2" by auto
  from blk(1) obtain h where h: "GetHeaderByHash ch ?k = Some h" by (auto simp: describes_def)
  with blk(2) epoch(4) have hash: "Header_Hash (keccak ev) h = ?k" by simp
  with GetMasternodes_ok [of T sw epoch m ev h i x2 ch] epoch h x2(3) obtain x3 where
    x3: "GetMasternodes ev ch (Some h) x2 = (Inr ?ms, x3)" "cache_ok T sw epoch x3" by auto
  from getEpochSwitchInfo_ok [OF epoch(1,2) x3(2) epoch(4), of "[]"] obtain j4 x4 where
    x4: "getEpochSwitchInfo ev ch [] ?k x3 = (Inr j4, x4)" "same_info i j4" "cache_ok T sw epoch x4" by auto
  note core = keepsD [OF core_getEpochSwitchInfo x2(1)] keepsD [OF core_GetMasternodes x3(1)] keepsD [OF core_getEpochSwitchInfo x4(1)]
  have cfg: "x_config x2 = x_config x" "x_config x3 = x_config x" and round: "x_currentRound x4 = x_currentRound x"
    using core [THEN same_core_fields(1)] core [THEN same_core_fields(7)] s1 by simp_all
  from onVotePool_makes_QC [OF x4(1), of cfg pooled] counted_info [OF x4(2)] enough assms(1) cfg obtain sigs where
    qc: "onVotePoolThresholdReached ev ch (map (\<lambda>(k, v). (k, verify_vote ev ?ms v)) pooled) v x3 =
      processQC ev ch (Some \<lparr>qc_Block = v_Block v, qc_Signatures = sigs, qc_GapNumber = v_GapNumber v\<rparr>) x4" by auto
  let ?qc = "\<lparr>qc_Block = v_Block v, qc_Signatures = sigs, qc_GapNumber = v_GapNumber v\<rparr>"
  have "xSwitchBlock x4 = sw" using x4(3) by (simp add: cache_ok_def)
  from processQC_succeeds [OF _ this chain, of ?qc h] h obtain y where y: "processQC ev ch (Some ?qc) x4 = (Inr (), y)" by auto
  from processQC_run [OF y] round assms(1) have "x_currentRound y = x_currentRound x + 1" "x_currentRound x \<le> hqc y"
    by (auto simp: after_QC_def hqc_def split: if_splits)
  moreover have "n = length pooled" using assms(2) by (auto simp: Pool_Add_def Let_def)
  with threshold_mono [OF enough(2) counted_at_most] have "threshold_reached n (es_MasternodesLen i) (CertThreshold cfg)" by simp
  moreover have "VerifyBlockInfo ev ch (v_Block v) None x2 = (Inr (), x2)"
    using blk(1) cfg by (simp add: VerifyBlockInfo_iff describes_def has_round_def xSwitchBlock_def)
  ultimately show ?thesis
    using assms(1,2) x2(1) counted_info [OF x2(2)] x3(1) h qc y enough(1) cfg
    by (cases "x_votePoolCollectionTime x")
      (auto simp: voteHandler_def votePool_Add_def bindE_def Let_def mapErrE_def configAt_def deref_def verifyVotes_def hqc_def)
qed

text \<open>
  Property C9.  Votes end a round: when, with the incoming vote, the pool has votes of the current round
  by enough different masternodes of the epoch on a block the node knows, the handler builds the
  certificate, and the node enters the next round with a certificate of this round at least.  The
  blocks of the chain have been verified, and the stack has room for the lookup of the epoch.
\<close>

theorem votes_end_round:
  assumes "bi_Round (v_Block v) = x_currentRound x" "Pool_Add (voteObj (keccak ev)) v (x_votePool x) = (n, pooled, p)"
    and epoch: "epoch_of T sw epoch m (bi_Hash (v_Block v)) i" "m < depth ev" "cache_ok T sw epoch x" "\<And>j. GetHeaderByHash ch j = T j"
    and blk: "describes ev ch x None (v_Block v)" "\<And>h. T (bi_Hash (v_Block v)) = Some h \<Longrightarrow> Header_Hash (keccak ev) h = bi_Hash (v_Block v)"
    and enough: "V2_Config (x_currentRound x) (cfg_V2 (x_config x)) = Some cfg"
      "threshold_reached (card (counted_votes ev (es_Masternodes i) v pooled)) (es_MasternodesLen i) (CertThreshold cfg)"
    and chain: "view E sw T ev ch" "verified_blocks E sw T C"
  shows "\<exists>y. voteHandler ev ch v x = (Inr (), y) \<and> x_currentRound y = x_currentRound x + 1 \<and> x_currentRound x \<le> hqc y"
  using assms by (rule quorum_ends_round)

section \<open>Timeouts\<close>

definition counted_timeouts :: "env \<Rightarrow> address list \<Rightarrow> Timeout \<Rightarrow> (hash \<times> Timeout) list \<Rightarrow> address set" where
  "counted_timeouts ev ms t pooled = {a \<in> set ms. \<exists>w \<in> snd ` set pooled. t_signer w \<noteq> 0 \<and>
     recover_signer ev (TimeoutSigHash (keccak ev) (t_Round t) (t_GapNumber t)) (t_Signature w) = Inr a}"

lemma counted_timeouts_signers:
  "counted_timeouts ev ms t pooled \<subseteq> signers ev (TimeoutSigHash (keccak ev) (t_Round t) (t_GapNumber t))
     (map t_Signature (filter (\<lambda>t. t_signer t \<noteq> 0) (go_range ev (map snd pooled)))) \<inter> set ms"
  by (auto simp: counted_timeouts_def signers_def intro!: bexI)

text \<open>
  Property C10.  Timeouts end a round: when, with the incoming timeout, the pool has timeouts of the current
  round by enough different masternodes for the epoch of the round (and as many as the epoch of the
  current header asks for), the handler builds the timeout certificate, the node enters the next round
  with an empty pool of timeouts, and the certificate of at least this round goes out to the other nodes.
\<close>

theorem timeouts_end_round:
  assumes "t_Round t = x_currentRound x" "Pool_Add (timeoutObj (keccak ev)) t (x_timeoutPool x) = (n, pooled, p)"
    and info: "epochInfo_of ev ch (CurrentHeader ch) (x\<lparr>x_timeoutPool := p\<rparr>) = (Inr i1, x1)" "getTCEpochInfo ev ch (x_currentRound x) x1 = (Inr i2, x2)"
    and cfg: "V2_Config (x_currentRound x) (cfg_V2 (x_config x)) = Some cfg"
    and enough: "threshold_reached n (es_MasternodesLen i1) (CertThreshold cfg)"
      "threshold_reached (card (counted_timeouts ev (es_Masternodes i2) t pooled)) (es_MasternodesLen i2) (CertThreshold cfg)"
  shows "\<exists>y s. timeoutHandler ev ch t x = (Inr (), y) \<and> x_currentRound y = x_currentRound x + 1 \<and> x_timeoutPool y = [] \<and>
    x_currentRound x \<le> htc y \<and> x_BroadcastCh y = x_BroadcastCh x @ [MSyncInfo s] \<and> s = getSyncInfo y"
proof -
  let ?h = "TimeoutSigHash (keccak ev) (t_Round t) (t_GapNumber t)"
  let ?sigs = "map t_Signature (filter (\<lambda>t. t_signer t \<noteq> 0) (go_range ev (map snd pooled)))"
  note core = keepsD [OF core_epochInfo_of info(1)] keepsD [OF core_getTCEpochInfo info(2)]
  note same = core [THEN same_core_fields(1)] core [THEN same_core_fields(7)] core [THEN same_core_fields(4)]
  obtain vs ss ds es where va: "verifyAllSignatures ev ?h ?sigs (es_Masternodes i2) = ((vs, ss, ds), es)" by (metis prod.exhaust)
  from threshold_mono [OF enough(2) collected_at_least [OF va counted_timeouts_signers]]
  have "threshold_reached (length vs) (es_MasternodesLen i2) (CertThreshold cfg)" .
  with assms va same show ?thesis
    by (auto simp: timeoutHandler_def timeoutPool_Add_def onTimeoutPoolThresholdReached_def bindE_def mapErrE_def configAt_def deref_def Let_def
        processTC_def setNewRound_def broadcastToBftChannel_def htc_def getSyncInfo_def Pool_Clear_def not_less split: if_splits)
qed

end
