(* ===== verification/Examples.thy ===== *)
theory Examples
  imports Header_Laws Liveness
begin

text \<open>
  A small network on which the properties are applied: the switch block and three blocks of v2, the
  masternodes 7 and 8, and certificates both have signed.  The hash of a byte string is its length, and a
  signature names its signer in its first byte.
\<close>

section \<open>Blocks and certificates\<close>

definition len_hash :: "bytes \<Rightarrow> hash" where
  "len_hash b = of_nat (length b)"

definition net_env :: env where
  "net_env = ex_env\<lparr>keccak := len_hash,
     Ecrecover := (\<lambda>_ sig. case sig of [] \<Rightarrow> Inl ErrInvalidSignature | b # _ \<Rightarrow> Inr (replicate (Suc (unat b)) 0)), now := 100\<rparr>"

definition sig_of :: "byte \<Rightarrow> Signature" where
  "sig_of a = a # replicate 64 0"

definition extra_of :: "Round \<Rightarrow> QuorumCert \<Rightarrow> bytes" where
  "extra_of r q = 2 # enc_list (ExtraFields_payload \<lparr>ex_Round = r, ex_QC = Some q\<rparr>)"

definition cert :: "hash \<Rightarrow> Round \<Rightarrow> int \<Rightarrow> Signature list \<Rightarrow> QuorumCert" where
  "cert h r n sigs = \<lparr>qc_Block = \<lparr>bi_Hash = h, bi_Round = r, bi_Number = n\<rparr>, qc_Signatures = sigs, qc_GapNumber = 0\<rparr>"

definition both :: "Signature list" where "both = [sig_of 7, sig_of 8]"

definition blk :: "int \<Rightarrow> hash \<Rightarrow> u64 \<Rightarrow> u64 \<Rightarrow> bytes \<Rightarrow> address list \<Rightarrow> address \<Rightarrow> Header" where
  "blk n parent gas time extra ms a = ex_header\<lparr>h_ParentHash := parent, h_UncleHash := 1, h_Number := n, h_GasUsed := gas, h_Time := time,
     h_Extra := extra, h_Validators := ExtractAddressToBytes ms, h_Validator := sig_of (ucast a), h_Coinbase := a\<rparr>"

definition blk0 :: Header where
  "blk0 = blk 0 0 0 0 (replicate 32 0 @ ExtractAddressToBytes [7, 8] @ replicate 65 0) [] 0"
definition blk1 :: Header where "blk1 = blk 1 705 0 2 (extra_of 1 (cert 705 0 0 [])) [7, 8] 8"
definition blk2 :: Header where "blk2 = blk 2 649 0 4 (extra_of 2 (cert 649 1 1 both)) [] 7"
definition blk3 :: Header where "blk3 = blk 3 747 200 6 (extra_of 3 (cert 747 2 2 both)) [] 8"

text \<open>A block 3 that carries the certificate of block 1, which is not its parent.\<close>

definition stray3 :: Header where "stray3 = blk 3 747 300 6 (extra_of 3 (cert 649 1 1 both)) [] 8"

section \<open>Hashes\<close>

lemma length_enc_str: "1 < length b \<Longrightarrow> length (enc_str b) = headsize (of_nat (length b)) + length b"
  by (simp add: enc_str_def length_puthead)

lemma length_enc_list: "length (enc_list p) = headsize (of_nat (length p)) + length p"
  by (simp add: enc_list_def length_puthead)

lemma length_enc_nat_small [simp]: "n < 128 \<Longrightarrow> length (enc_nat n) = 1"
  by (cases "n = 0") (simp_all add: enc_nat_small)

lemma length_enc_hash [simp]: "length (enc_hash h) = 33"
  by (simp add: enc_hash_def length_puthead headsize_def length_enc_str)

lemma headsize_small [simp]: "n < 56 \<Longrightarrow> headsize (of_nat n) = 1"
  by (simp add: headsize_def small_word)

lemma headsize_ranges:
  "headsize 0 = 1" "headsize 8 = 1" "headsize 20 = 1" "headsize 35 = 1" "headsize 37 = 1" "headsize 38 = 1" "headsize 40 = 1" "headsize 42 = 1" "headsize 65 = 2" "headsize 134 = 2" "headsize 173 = 2" "headsize 176 = 2" "headsize 179 = 2" "headsize 137 = 2"
  "headsize 256 = 3" "headsize 702 = 3" "headsize 646 = 3" "headsize 744 = 3" "headsize 745 = 3" "headsize 746 = 3"
  by code_simp+

lemma length_enc_str_Nil [simp]: "length (enc_str []) = 1"
  by (simp add: enc_str_def length_puthead headsize_def)

lemma no_addresses [simp]: "ExtractAddressToBytes [] = []"
  by (simp add: ExtractAddressToBytes_def)

lemma length_sig_of [simp]: "length (sig_of a) = 65"
  by (simp add: sig_of_def)

text \<open>The encoding of a block field by field.\<close>

definition blk_bytes :: "int \<Rightarrow> hash \<Rightarrow> u64 \<Rightarrow> u64 \<Rightarrow> bytes \<Rightarrow> address list \<Rightarrow> address \<Rightarrow> bytes list" where
  "blk_bytes n parent gas time extra ms a = [enc_hash parent, enc_hash 1, enc_str (bytes_of_word 20 a), enc_hash 0, enc_hash 0, enc_hash 0,
    enc_str (bytes_of_word 256 (0 :: 2048 word)), enc_nat 1, enc_nat (nat n), enc_nat (unat (5000 :: u64)), enc_nat (unat gas), enc_nat (unat time),
    enc_str extra, enc_hash 0, enc_str (bytes_of_word 8 (0 :: u64)), enc_str (ExtractAddressToBytes ms)]"

lemma blk_fields [simp]:
  "h_Number (blk n p g t e ms a) = n" "h_ParentHash (blk n p g t e ms a) = p" "h_Extra (blk n p g t e ms a) = e"
  "h_Penalties (blk n p g t e ms a) = []" "h_Validators (blk n p g t e ms a) = ExtractAddressToBytes ms"
  "h_Validator (blk n p g t e ms a) = sig_of (ucast a)" "h_Coinbase (blk n p g t e ms a) = a" "h_Time (blk n p g t e ms a) = t"
  "h_GasUsed (blk n p g t e ms a) = g" "h_GasLimit (blk n p g t e ms a) = 5000" "h_UncleHash (blk n p g t e ms a) = 1"
  "h_Nonce (blk n p g t e ms a) = 0" "h_MixDigest (blk n p g t e ms a) = 0" "h_Difficulty (blk n p g t e ms a) = 1"
  "h_BaseFee (blk n p g t e ms a) = None"
  by (simp_all add: blk_def ex_header_def)

lemma emits_blk:
  assumes "0 \<le> n" "n < 128" "length extra < 1000" "length ms < 100"
  shows "list_all2 emits (header_prefix (blk n parent gas time extra ms a)) (blk_bytes n parent gas time extra ms a)"
proof -
  have "byte_len (nat n) \<le> 1" using byte_len_le [of "nat n" 1] assms by simp
  then have b: "byte_len (nat n) < 2 ^ 64" by (rule le_less_trans) simp
  have c: "emits (writeBigIntPtr (Some 1)) (enc_nat (Suc 0))" "emits (writeUint64 5000) (enc_nat 5000)"
    using emits_writeBigIntPtr [of 1] byte_len_1 [of 1] emits_writeUint64 [of 5000] by simp_all
  then show ?thesis using assms b c
    by (simp add: header_prefix_def blk_def ex_header_def blk_bytes_def emits_writeHash emits_writeUint64 emits_writeBytes
        emits_writeByteArray emits_writeBigIntPtr)
qed

lemma length_blk:
  assumes "0 \<le> n" "n < 128" "time < 128"
  shows "length (concat (blk_bytes n parent gas time extra ms a)) =
    493 + length (enc_nat (unat gas)) + length (enc_str extra) + length (enc_str (ExtractAddressToBytes ms))"
proof -
  have "length (enc_nat 5000) = 3" by code_simp
  then show ?thesis using assms by (simp add: blk_bytes_def length_enc_str headsize_ranges word_less_nat_alt)
qed

lemma length_block:
  assumes "0 \<le> n" "n < 128" "time < 128" "length extra < 1000" "length ms < 100"
    and len: "m = 561 + length (enc_nat (unat gas)) + length (enc_str extra) + length (enc_str (ExtractAddressToBytes ms))" "m < 2 ^ 16"
  shows "Header_Hash len_hash (blk n parent gas time extra ms a) = of_nat (headsize (of_nat m) + m)"
proof -
  let ?h = "blk n parent gas time extra ms a" and ?bs = "blk_bytes n parent gas time extra ms a @ [enc_str (sig_of (ucast a)), enc_str []]"
  have ws: "list_all2 emits (header_prefix ?h @ [writeBytes (h_Validator ?h), writeBytes (h_Penalties ?h)] @ base_fee_writer ?h) ?bs"
    by (intro list_all2_appendI emits_blk assms) (simp add: base_fee_writer_def emits_writeBytes)
  have m: "length (concat ?bs) = m"
    using length_blk [OF assms(1-3), of parent gas extra ms a] len(1) by (simp add: length_enc_str headsize_ranges)
  have "m < 2 ^ 64" using len(2) by (rule less_trans) simp
  then have "length (concat ?bs) < 2 ^ 64" by (simp only: m)
  from emits_EncodeToBytes [OF emits_writeStruct [OF ws this]] m show ?thesis
    by (simp add: Header_Hash_def rlpHash_def encoded_for_hash_def len_hash_def length_enc_list del: concat.simps concat_append)
qed

lemma net_sigHash:
  assumes "0 \<le> n" "n < 128" "length extra < 1000" "time < 128" "length (enc_nat (unat gas)) < 10" "length (enc_str extra) < 2000"
  shows "\<exists>sh. sigHash len_hash (blk n parent gas time extra [] a) = Inr sh"
proof -
  let ?h = "blk n parent gas time extra [] a" and ?bs = "blk_bytes n parent gas time extra [] a @ [enc_str []]"
  let ?ws = "header_prefix ?h @ [writeBytes (h_Penalties ?h)] @ base_fee_writer ?h"
  have ws: "list_all2 emits (map id ?ws) ?bs" unfolding list.map_id
    by (intro list_all2_appendI emits_blk assms) (simp_all add: base_fee_writer_def emits_writeBytes)
  have "length (concat ?bs) < 3000" using assms length_blk [of n time parent gas extra "[]" a] by simp
  then have "length (concat ?bs) < 2 ^ 64" by (rule less_trans) simp
  from emits_EncodeToBytes [OF emits_writeStruct [OF ws this]] show ?thesis
    by (simp add: sigHash_def writeSlice_def del: concat.simps concat_append)
qed

lemma lengths_extra:
  assumes "r < 128" "s < 128" "0 \<le> n" "n < 128"
  shows "length (extra_of r (cert h s n [])) = 42" "length (extra_of r (cert h s n both)) = 179"
    "ExtraFields_ok \<lparr>ex_Round = r, ex_QC = Some (cert h s n [])\<rparr>" "ExtraFields_ok \<lparr>ex_Round = r, ex_QC = Some (cert h s n both)\<rparr>"
proof -
  have b: "byte_len (nat n) \<le> 1" using byte_len_le [of "nat n" 1] assms by simp
  have n: "length (BlockInfo_payload (qc_Block (cert h s n sigs))) = 35" for sigs
    using assms by (simp add: BlockInfo_payload_def cert_def word_less_nat_alt)
  have q: "length (QuorumCert_payload (cert h s n [])) = 38" "length (QuorumCert_payload (cert h s n both)) = 173"
    using n [of "[]"] n [of both] by (simp_all add: QuorumCert_payload_def length_enc_list cert_def both_def length_enc_str headsize_ranges)
  then show "length (extra_of r (cert h s n [])) = 42" "length (extra_of r (cert h s n both)) = 179"
    using assms by (simp_all add: extra_of_def ExtraFields_payload_def length_enc_list headsize_ranges word_less_nat_alt)
  have "byte_len (nat n) < 2 ^ 64" using b by (rule le_less_trans) simp
  with n q assms show "ExtraFields_ok \<lparr>ex_Round = r, ex_QC = Some (cert h s n [])\<rparr>"
    "ExtraFields_ok \<lparr>ex_Round = r, ex_QC = Some (cert h s n both)\<rparr>"
    by (simp_all add: ExtraFields_ok_def QuorumCert_ok_def BlockInfo_ok_def ExtraFields_payload_def length_enc_list word_less_nat_alt
        both_def length_enc_str headsize_ranges) (simp_all add: cert_def length_enc_str headsize_ranges)
qed

lemma extra_decodes:
  assumes "r < 128" "s < 128" "0 \<le> n" "n < 128" "sigs = [] \<or> sigs = both"
  shows "DecodeBytesExtraFields (extra_of r (cert h s n sigs)) = Inr \<lparr>ex_Round = r, ex_QC = Some (cert h s n sigs)\<rparr>"
  using assms lengths_extra [OF assms(1-4), of h] encode_ok
  by (intro extra_fields_codec [THEN iffD2]) (auto simp: extra_of_def)

lemma hash_blk0: "Header_Hash len_hash blk0 = 705"
  unfolding blk0_def by (subst length_block [of _ _ _ _ 702]) (simp_all add: length_enc_str headsize_ranges)

lemma hash_blk1: "Header_Hash len_hash blk1 = 649"
  unfolding blk1_def by (subst length_block [of _ _ _ _ 646]) (simp_all add: length_enc_str headsize_ranges lengths_extra)

lemma hash_blk2: "Header_Hash len_hash blk2 = 747"
  unfolding blk2_def by (subst length_block [of _ _ _ _ 744]) (simp_all add: length_enc_str headsize_ranges lengths_extra)

lemma length_gas: "length (enc_nat 200) = 2" "length (enc_nat 300) = 3"
  by code_simp+

lemma hash_blk3: "Header_Hash len_hash blk3 = 748"
  unfolding blk3_def by (subst length_block [of _ _ _ _ 745]) (simp_all add: length_enc_str headsize_ranges lengths_extra length_gas)

lemma hash_stray3: "Header_Hash len_hash stray3 = 749"
  unfolding stray3_def by (subst length_block [of _ _ _ _ 746]) (simp_all add: length_enc_str headsize_ranges lengths_extra length_gas)

lemmas hashes = hash_blk0 hash_blk1 hash_blk2 hash_blk3 hash_stray3

section \<open>The chain\<close>

definition net_blocks :: "hash \<Rightarrow> Header option" where
  "net_blocks k = (if k = 705 then Some blk0 else if k = 649 then Some blk1 else if k = 747 then Some blk2
     else if k = 748 then Some blk3 else None)"

definition net_chain :: chain where
  "net_chain = ex_chain\<lparr>GetHeaderByHash := net_blocks, GetHeader := (\<lambda>k _. net_blocks k), HasBlock := (\<lambda>_ _. True),
     GetHeaderByNumber := (\<lambda>n. if n = 0 then Some blk0 else if n = 1 then Some blk1 else if n = 2 then Some blk2
       else if n = 3 then Some blk3 else None)\<rparr>"

definition qc0 :: QuorumCert where "qc0 = cert 705 0 0 []"
definition qc1 :: QuorumCert where "qc1 = cert 649 1 1 both"
definition qc2 :: QuorumCert where "qc2 = cert 747 2 2 both"
definition qc3 :: QuorumCert where "qc3 = cert 748 3 3 both"

lemma small_rounds: "(1 :: u64) < 128" "(2 :: u64) < 128" "(3 :: u64) < 128"
  by simp_all

lemma blocks_carry:
  "block_round 0 blk0 = Some 0" "block_round 0 blk1 = Some 1" "block_round 0 blk2 = Some 2" "block_round 0 blk3 = Some 3" "block_round 0 stray3 = Some 3"
  "block_QC 0 blk1 = Some qc0" "block_QC 0 blk2 = Some qc1" "block_QC 0 blk3 = Some qc2" "block_QC 0 stray3 = Some qc1"
  by (simp_all add: block_round_def block_QC_def blk0_def blk1_def blk2_def blk3_def stray3_def extra_decodes small_rounds
      qc0_def qc1_def qc2_def)

lemma blocks_fields [simp]:
  "h_Number blk0 = 0" "h_Number blk1 = 1" "h_Number blk2 = 2" "h_Number blk3 = 3" "h_Number stray3 = 3"
  "h_ParentHash blk1 = 705" "h_ParentHash blk2 = 649" "h_ParentHash blk3 = 747" "h_ParentHash stray3 = 747"
  by (simp_all add: blk0_def blk1_def blk2_def blk3_def stray3_def)

lemma certs_fields [simp]:
  "qc_Block qc0 = \<lparr>bi_Hash = 705, bi_Round = 0, bi_Number = 0\<rparr>" "qc_Block qc1 = \<lparr>bi_Hash = 649, bi_Round = 1, bi_Number = 1\<rparr>"
  "qc_Block qc2 = \<lparr>bi_Hash = 747, bi_Round = 2, bi_Number = 2\<rparr>" "qc_Block qc3 = \<lparr>bi_Hash = 748, bi_Round = 3, bi_Number = 3\<rparr>"
  "qc_GapNumber qc0 = 0" "qc_GapNumber qc1 = 0" "qc_GapNumber qc2 = 0" "qc_GapNumber qc3 = 0"
  "qc_Signatures qc1 = both" "qc_Signatures qc2 = both" "qc_Signatures qc3 = both"
  by (simp_all add: qc0_def qc1_def qc2_def qc3_def cert_def)

lemma net_env_fields [simp]: "keccak net_env = len_hash" "depth net_env = 10" "now net_env = 100"
  by (simp_all add: net_env_def ex_env_def)

lemma net_chain_fields [simp]: "GetHeaderByHash net_chain = net_blocks" "GetHeader net_chain k n = net_blocks k" "HasBlock net_chain k n"
  by (simp_all add: net_chain_def)

lemma net_blocks_simps [simp]:
  "net_blocks 705 = Some blk0" "net_blocks 649 = Some blk1" "net_blocks 747 = Some blk2" "net_blocks 748 = Some blk3"
  by (simp_all add: net_blocks_def)

lemma net_blocksE:
  assumes "net_blocks k = Some h"
  obtains "k = 705" "h = blk0" | "k = 649" "h = blk1" | "k = 747" "h = blk2" | "k = 748" "h = blk3"
  using assms by (auto simp: net_blocks_def split: if_splits)

text \<open>Every signature is that of the masternode in its first byte.\<close>

lemma low_S: "hasLowS (sig_of a)"
proof -
  have "nat_of_be (replicate 32 0) = 0" by code_simp
  then show ?thesis by (simp add: hasLowS_def sig_of_def)
qed

lemma address_of_byte: "ucast (ucast (a :: byte) :: hash) = (ucast a :: address)"
  by transfer (simp add: take_bit_take_bit min_def)

lemma recover_sig: "recover_signer net_env h (sig_of a) = Inr (ucast a)"
  using low_S [of a] by (simp add: recover_signer_def net_env_def pubkey_address_def len_hash_def sig_of_def address_of_byte)

lemma signers_both: "signers net_env h both = {7, 8}"
  by (auto simp: signers_def both_def recover_sig)

lemma net_certified: "q \<in> {qc1, qc2, qc3} \<Longrightarrow> certified net_env {7, 8} q"
proof -
  assume "q \<in> {qc1, qc2, qc3}"
  then have "voters net_env q = {7, 8}" by (auto simp: voters_def signers_both)
  moreover have "threshold_reached 2 2 certThreshold_667"
    by (simp add: threshold_reached_def certThreshold_667_def round53_def round_div_def bit_len.simps Let_def)
  ultimately show ?thesis by (simp add: certified_def card_insert_if numeral_2_eq_2)
qed

lemma net_verified: "verified_blocks net_env 0 net_blocks (certified net_env {7, 8})"
proof -
  have "verified_block 0 net_blocks (certified net_env {7, 8}) blk1" "verified_block 0 net_blocks (certified net_env {7, 8}) blk2"
    "verified_block 0 net_blocks (certified net_env {7, 8}) blk3"
    using net_certified by (simp_all add: verified_block_def blocks_carry)
  then show ?thesis by (auto simp: verified_blocks_def hashes elim!: net_blocksE)
qed

lemma net_view: "view net_env 0 net_blocks net_env net_chain"
  by (auto simp: view_def elim!: net_blocksE)

lemma net_proposals: "h \<in> {blk0, blk1, blk2, blk3} \<Longrightarrow> proposals net_env 0 net_blocks net_env h"
  by (auto simp: proposals_def hashes)

section \<open>The epoch\<close>

definition net_info :: EpochSwitchInfo where
  "net_info = \<lparr>es_Penalties = [], es_Standbynodes = [], es_Masternodes = [7, 8], es_MasternodesLen = 2,
     es_Block = \<lparr>bi_Hash = 649, bi_Round = 1, bi_Number = 1\<rparr>, es_Parent = Some \<lparr>bi_Hash = 705, bi_Round = 0, bi_Number = 0\<rparr>\<rparr>"

lemma blk1_masternodes: "block_masternodes 0 blk1 = [7, 8]"
proof -
  have "GetMasternodesFromEpochSwitchHeader blk1 = [7, 8]"
    using addresses_of_bytes [of "[7, 8]"] by (simp add: GetMasternodesFromEpochSwitchHeader_def blk1_def)
  then show ?thesis by (simp add: block_masternodes_def)
qed

lemma no_penalties: "h_Penalties blk1 = []" "ExtractAddressFromBytes [] = []"
  by (simp_all add: blk1_def ExtractAddressFromBytes_def)

lemma net_epochs:
  "epoch_of net_blocks 0 900 0 649 net_info" "epoch_of net_blocks 0 900 1 747 net_info" "epoch_of net_blocks 0 900 2 748 net_info"
proof -
  have "starts_epoch 0 900 blk1" "\<not> starts_epoch 0 900 blk2" "\<not> starts_epoch 0 900 blk3"
    by (simp_all add: starts_epoch_def blocks_carry)
  moreover have "switch_info 0 649 blk1 net_info"
    by (simp add: switch_info_def net_info_def blk1_masternodes no_penalties blocks_carry)
  ultimately show "epoch_of net_blocks 0 900 0 649 net_info" "epoch_of net_blocks 0 900 1 747 net_info" "epoch_of net_blocks 0 900 2 748 net_info"
    using epoch_of.switch [of net_blocks 649 blk1 0 900 net_info] epoch_of.later [of net_blocks 747 blk2 0 900 2 0 net_info]
      epoch_of.later [of net_blocks 748 blk3 0 900 3 1 net_info] by (simp_all add: blocks_carry numeral_2_eq_2)
qed

lemma epochInfo_of_view:
  assumes "k \<in> {649, 747, 748}" "cache_ok net_blocks 0 900 x"
    and "linked len_hash k (rev hs)" "\<And>h. h \<in> set hs \<Longrightarrow> net_blocks (Header_Hash len_hash h) = Some h"
    and "GetHeaderByHash ch = net_blocks"
  shows "\<exists>j y. getEpochSwitchInfo net_env ch hs k x = (Inr j, y) \<and> es_Masternodes j = [7, 8] \<and> es_MasternodesLen j = 2 \<and>
    es_Block j = qc_Block qc1 \<and> cache_ok net_blocks 0 900 y \<and> same_core x y"
proof -
  obtain n where "epoch_of net_blocks 0 900 n k net_info" "n < 10"
  proof -
    have "(0 :: nat) < 10" "(1 :: nat) < 10" "(2 :: nat) < 10" by simp_all
    with assms(1) net_epochs that show thesis by auto
  qed
  then obtain j y where j: "getEpochSwitchInfo net_env ch hs k x = (Inr j, y)" "same_info net_info j" "cache_ok net_blocks 0 900 y"
    using getEpochSwitchInfo_ok [of net_blocks 0 900 n k net_info net_env x ch hs] assms by auto
  from j(2) have "es_Masternodes j = es_Masternodes net_info" "es_MasternodesLen j = es_MasternodesLen net_info" "es_Block j = es_Block net_info"
    by (simp_all add: same_info_def)
  with keepsD [OF core_getEpochSwitchInfo j(1)] j show ?thesis by (simp add: net_info_def)
qed

lemmas net_epochInfo = epochInfo_of_view [where ch = net_chain, OF _ _ _ _ net_chain_fields(1)]

section \<open>A voter\<close>

text \<open>What a voter \<open>a\<close> has done: it has voted up to round \<open>v\<close>, and has votes of the rounds up to \<open>k\<close> in its pool.\<close>

definition net_config :: XDPoSConfig where
  "net_config = ex_XDPoS\<lparr>cfg_V2 := BuildConfigIndex example_V2\<rparr>"

definition digit :: "nat \<Rightarrow> char" where "digit k = char_of (48 + k)"

definition stat :: "engine \<Rightarrow> XDPoSConfig \<times> bool \<times> address \<times> (hash \<Rightarrow> err + Signature) option \<times> Round \<times> Round \<times>
    QuorumCert option \<times> Round \<times> Round \<times> BlockInfo option" where
  "stat x = (x_config x, x_isInitilised x, x_signer x, x_signFn x, x_currentRound x, x_highestVotedRound x,
     x_lockQuorumCert x, hqc x, htc x, x_highestCommitBlock x)"

definition voted :: "byte \<Rightarrow> nat \<Rightarrow> nat \<Rightarrow> Round \<Rightarrow> QuorumCert option \<Rightarrow> Round \<Rightarrow> engine \<Rightarrow> bool" where
  "voted a v k cur lck q x \<longleftrightarrow> stat x = (net_config, True, ucast a, Some (\<lambda>_. Inr (sig_of a)), cur, of_nat v, lck, q, 0, None) \<and>
     cache_ok net_blocks 0 900 x \<and> (\<forall>key \<in> fst ` set (x_votePool x). \<exists>j. 1 \<le> j \<and> j \<le> k \<and> hd key = digit j)"

definition net_vote :: "byte \<Rightarrow> BlockInfo \<Rightarrow> Vote" where
  "net_vote a b = \<lparr>v_signer = 0, v_Block = b, v_Signature = sig_of a, v_GapNumber = 0\<rparr>"

lemma stat_core: "same_core x y \<Longrightarrow> stat y = stat x"
  by (simp add: stat_def same_core_fields hqc_def htc_def)

lemma voted_core: "same_core x y \<Longrightarrow> cache_ok net_blocks 0 900 y \<Longrightarrow> voted a v k cur l q x \<Longrightarrow> voted a v k cur l q y"
  by (simp add: voted_def stat_core same_core_fields)

lemma net_later_switch: "\<not> (900 :: u64) \<le> 0" "\<not> (900 :: u64) \<le> 1" "\<not> (900 :: u64) \<le> 2" "\<not> (900 :: u64) \<le> 3"
  by code_simp+

lemma net_config_fields:
  "x_config x = net_config \<Longrightarrow> xSwitchBlock x = 0" "x_config x = net_config \<Longrightarrow> xEpoch x = 900" "x_config x = net_config \<Longrightarrow> xGap x = 450"
  "r \<in> {0, 1, 2, 3} \<Longrightarrow> V2_Config r (cfg_V2 net_config) = Some (example_config 0 108)"
  by (auto simp: net_config_def ex_XDPoS_def xSwitchBlock_def xEpoch_def xGap_def BuildConfigIndex_def example_V2_def V2_Config_def
      net_later_switch)

lemma first_digit: "k < 10 \<Longrightarrow> hd (dec_of_nat k @ rest) = digit k"
  by (simp add: dec_of_nat.simps digit_def)

lemma digits_differ: "j < 10 \<Longrightarrow> k < 10 \<Longrightarrow> digit j = digit k \<longleftrightarrow> j = k"
  by (auto simp: digit_def dest: arg_cong [of _ _ "of_char :: char \<Rightarrow> nat"])

lemma net_pool:
  assumes "\<forall>key \<in> fst ` set p. \<exists>j. 1 \<le> j \<and> j \<le> k \<and> hd key = digit j" "bi_Round b = of_nat (Suc k)" "k < 3"
  shows "\<exists>os p'. Pool_Add (voteObj len_hash) (net_vote a b) p = (1, os, p') \<and>
    (\<forall>key \<in> fst ` set p'. \<exists>j. 1 \<le> j \<and> j \<le> Suc k \<and> hd key = digit j)"
proof -
  let ?key = "Vote_PoolKey (net_vote a b)"
  have "unat (of_nat (Suc k) :: u64) = Suc k" using assms(3) by (intro unat_of_nat_u64) simp
  then have hd: "hd ?key = digit (Suc k)" using assms(2,3) by (simp add: Vote_PoolKey_def net_vote_def first_digit)
  have "?key \<notin> fst ` set p"
  proof
    assume "?key \<in> fst ` set p"
    with assms(1) hd obtain j where "j \<le> k" "digit (Suc k) = digit j" by force
    with assms(3) show False by (simp add: digits_differ)
  qed
  then have "map_of p ?key = None" by (simp add: map_of_eq_None_iff)
  then have "objs_at ?key p = []" by (simp add: objs_at_def)
  then have "Pool_Add (voteObj len_hash) (net_vote a b) p = (1, [(Vote_Hash len_hash (net_vote a b), Vote_DeepCopy (net_vote a b))],
      AList.update ?key [(Vote_Hash len_hash (net_vote a b), net_vote a b)] p)"
    by (simp add: Pool_Add_def voteObj_def)
  moreover have "\<exists>j. 1 \<le> j \<and> j \<le> Suc k \<and> hd key = digit j" if "key \<in> fst ` set (AList.update ?key os p)" for key os
  proof (cases "key = ?key")
    case True
    with hd show ?thesis by auto
  next
    case False
    with that have "key \<in> fst ` set p" by (auto simp: AList.update_conv' dom_map_of_conv_image_fst [symmetric] dom_def split: if_splits)
    with assms(1) show ?thesis by (meson le_SucI)
  qed
  ultimately show ?thesis by blast
qed

lemma net_voteHandler:
  assumes z: "voted a (Suc k) k (of_nat (Suc k)) l q z" and k: "k < 3" and b: "bi_Round b = of_nat (Suc k)" "bi_Hash b \<in> {649, 747, 748}"
  shows "\<exists>y. voteHandler net_env net_chain (net_vote a b) z = (Inr (), y) \<and> voted a (Suc k) (Suc k) (of_nat (Suc k)) l q y \<and>
    x_BroadcastCh y = x_BroadcastCh z"
proof -
  let ?v = "net_vote a b" and ?r = "of_nat (Suc k) :: u64"
  let ?z1 = "if x_votePoolCollectionTime z = None then z\<lparr>x_votePoolCollectionTime := Some 100\<rparr> else z"
  from z net_pool [of "x_votePool z" k b a] k b(1) obtain os p where
    p: "Pool_Add (voteObj len_hash) ?v (x_votePool z) = (1, os, p)" "\<forall>key \<in> fst ` set p. \<exists>j. 1 \<le> j \<and> j \<le> Suc k \<and> hd key = digit j"
    by (auto simp: voted_def)
  let ?z2 = "?z1\<lparr>x_votePool := p\<rparr>"
  have z2: "voted a (Suc k) (Suc k) ?r l q ?z2" "x_BroadcastCh ?z2 = x_BroadcastCh z"
    using z p(2) by (auto simp: voted_def stat_def cache_ok_def xSwitchBlock_def xEpoch_def hqc_def htc_def)
  then have "cache_ok net_blocks 0 900 ?z2" by (simp only: voted_def)
  with net_epochInfo [of "bi_Hash b" ?z2 "[]"] b(2) obtain i y where i: "getEpochSwitchInfo net_env net_chain [] (bi_Hash b) ?z2 = (Inr i, y)"
    "es_MasternodesLen i = 2" "cache_ok net_blocks 0 900 y" "same_core ?z2 y" by auto
  have y: "voted a (Suc k) (Suc k) ?r l q y" by (rule voted_core [OF i(4,3) z2(1)])
  have "?r \<in> {0, 1, 2, 3}" using k by (auto simp: less_Suc_eq numeral_3_eq_3)
  with y have cfg: "configAt ?r y = (Inr (example_config 0 108), y)" by (simp add: voted_def stat_def configAt_def net_config_fields deref_def)
  have "voteHandler net_env net_chain ?v z = (Inr (), y)"
    using z p(1) i(1,2) cfg b(1) ex_not_enough
    by (cases "x_votePoolCollectionTime z") (simp_all add: voteHandler_def votePool_Add_def mapErrE_def bindE_def net_vote_def voted_def stat_def example_config_def Let_def)
  with y z2(2) same_core_fields(4) [OF i(4)] show ?thesis by simp
qed

lemma net_sendVote:
  assumes z: "voted a k k (of_nat (Suc k)) l q z" and k: "k < 3" and b: "bi_Round b = of_nat (Suc k)" "bi_Hash b \<in> {649, 747, 748}"
  shows "\<exists>y. sendVote net_env net_chain b z = (Inr (), y) \<and> voted a (Suc k) (Suc k) (of_nat (Suc k)) l q y \<and>
    x_BroadcastCh y = x_BroadcastCh z @ [MVote (net_vote a b)]"
proof -
  have "cache_ok net_blocks 0 900 z" using z by (simp add: voted_def)
  with net_epochInfo [of "bi_Hash b" z "[]"] b(2) obtain i z1 where i: "getEpochSwitchInfo net_env net_chain [] (bi_Hash b) z = (Inr i, z1)"
    "bi_Number (es_Block i) = 1" "cache_ok net_blocks 0 900 z1" "same_core z z1" by auto
  have z1: "voted a k k (of_nat (Suc k)) l q z1" by (rule voted_core [OF i(4,3) z])
  let ?z2 = "z1\<lparr>x_highestVotedRound := x_currentRound z1\<rparr>"
  have z2: "voted a (Suc k) k (of_nat (Suc k)) l q ?z2"
    using z1 by (auto simp: voted_def stat_def cache_ok_def xSwitchBlock_def xEpoch_def hqc_def htc_def)
  from net_voteHandler [OF z2 k b] obtain y where y: "voteHandler net_env net_chain (net_vote a b) ?z2 = (Inr (), y)"
    "voted a (Suc k) (Suc k) (of_nat (Suc k)) l q y" "x_BroadcastCh y = x_BroadcastCh z1" by auto
  have g: "gapNumber_of (xEpoch z1) (xGap z1) (Uint64 1) = 0"
  proof -
    have "xEpoch z1 = 900" "xGap z1 = 450" using z1 by (simp_all add: voted_def stat_def net_config_fields)
    moreover have "gapNumber_of 900 450 (Uint64 1) = 0" by code_simp
    ultimately show ?thesis by simp
  qed
  let ?y = "y\<lparr>x_BroadcastCh := x_BroadcastCh y @ [MVote (net_vote a b)]\<rparr>"
  have "sendVote net_env net_chain b z = (Inr (), ?y)"
    using i(1,2) z1 y(1) g
    by (simp add: sendVote_def bindE_def signSignature_def voted_def stat_def broadcastToBftChannel_def net_vote_def Let_def)
  moreover have "voted a (Suc k) (Suc k) (of_nat (Suc k)) l q ?y"
    using y(2) by (auto simp: voted_def stat_def cache_ok_def xSwitchBlock_def xEpoch_def hqc_def htc_def)
  ultimately show ?thesis using y(3) same_core_fields(4) [OF i(4)] by simp
qed

text \<open>Certificates leave the caches of epochs and the pool of votes alone.\<close>

definition kept :: "engine \<Rightarrow> engine \<Rightarrow> bool" where
  "kept x y \<longleftrightarrow> same_epochs x y \<and> x_votePool y = x_votePool x \<and> x_isInitilised y = x_isInitilised x"

interpretation kept: action_preorder kept
  by unfold_locales (auto simp: kept_def same_epochs_def)

lemma kept_putE: "(\<And>x. kept x (f x)) \<Longrightarrow> keeps kept (putE f)"
  by (rule kept.keeps_putE)

lemma kept_processQC: "keeps kept (processQC ev ch qcp)"
  unfolding processQC_def commitBlocks_def SetCommittedQCs_def setNewRound_def deref_def getExtraFields_def
  by (intro kept_putE kept.keeps_rules) (simp_all add: kept_def same_epochs_def)

lemma net_processQC:
  assumes x: "voted a k k cur l q x" and h: "net_blocks (bi_Hash (qc_Block qc)) = Some h"
  shows "\<exists>x1. processQC net_env net_chain (Some qc) x = (Inr (), x1) \<and> after_QC net_env net_chain qc x x1 \<and>
    x_currentRound x1 = (if cur \<le> bi_Round (qc_Block qc) then bi_Round (qc_Block qc) + 1 else cur) \<and>
    x_BroadcastCh x1 = x_BroadcastCh x \<and> (\<forall>c l' q'. x_currentRound x1 = c \<longrightarrow> x_lockQuorumCert x1 = l' \<longrightarrow> hqc x1 = q' \<longrightarrow>
      x_highestCommitBlock x1 = None \<longrightarrow> voted a k k c l' q' x1)"
proof -
  have sw: "xSwitchBlock x = 0" using x by (simp add: voted_def stat_def net_config_fields)
  from processQC_succeeds [OF _ sw net_view net_verified, of qc h] h obtain x1 where r: "processQC net_env net_chain (Some qc) x = (Inr (), x1)"
    by auto
  from processQC_run [OF r] keepsD [OF kept_processQC r] x r show ?thesis
    by (auto simp: voted_def stat_def quiet_def kept_def htc_def cache_ok_same)
qed

lemma net_allowed:
  assumes "voted a v k cur l q x" "a \<in> {7, 8}" "Header_Hash len_hash h \<in> {649, 747, 748}" "net_blocks (Header_Hash len_hash h) = Some h"
  shows "\<exists>y. allowedToSend net_env net_chain (Some h) x = (Inr True, y) \<and> same_core x y \<and> voted a v k cur l q y"
proof -
  from assms(1) have "cache_ok net_blocks 0 900 x" by (simp add: voted_def)
  with net_epochInfo [of "Header_Hash len_hash h" x "[h]"] assms(3,4) obtain i y where
    i: "getEpochSwitchInfo net_env net_chain [h] (Header_Hash len_hash h) x = (Inr i, y)" "es_Masternodes i = [7, 8]"
      "cache_ok net_blocks 0 900 y" "same_core x y" by auto
  have "x_signer x = ucast a" using assms(1) by (simp add: voted_def stat_def)
  with assms(2) i(1,2) have "allowedToSend net_env net_chain (Some h) x = (Inr True, y)"
    by (auto simp: allowedToSend_def GetMasternodes_def epochInfo_or_empty_def epochInfo_of_def Header_ptr_Hash_def bindE_def tryE_def)
  with i(3,4) voted_core [OF i(4,3) assms(1)] show ?thesis by blast
qed

lemma net_propose:
  assumes x: "voted a k k cur l q x" and a: "a \<in> {7, 8}" and k: "k < 3"
    and h: "block_QC 0 h = Some qc" "block_round 0 h = Some (of_nat (Suc k))" "Header_Hash len_hash h \<in> {649, 747, 748}"
      "net_blocks (Header_Hash len_hash h) = Some h" "handles net_env net_chain h" "proposals net_env 0 net_blocks net_env h"
    and x1: "processQC net_env net_chain (Some qc) x = (Inr (), x1)" "voted a k k (of_nat (Suc k)) l' q' x1" "x_BroadcastCh x1 = x_BroadcastCh x"
    and lck: "l' = None \<or> (\<exists>m. l' = Some m \<and> bi_Round (qc_Block m) < bi_Round (qc_Block qc))"
  shows "\<exists>y. node_step (view net_env 0 net_blocks) (proposals net_env 0 net_blocks) x
      [net_vote a \<lparr>bi_Hash = Header_Hash len_hash h, bi_Round = of_nat (Suc k), bi_Number = h_Number h\<rparr>] y \<and>
    voted a (Suc k) (Suc k) (of_nat (Suc k)) l' q' y"
proof -
  let ?b = "\<lparr>bi_Hash = Header_Hash len_hash h, bi_Round = of_nat (Suc k), bi_Number = h_Number h\<rparr>"
  have sw: "xSwitchBlock x = 0" using x by (simp add: voted_def stat_def net_config_fields)
  from extra_ok [of x h] h(1,2) sw obtain ms where e: "getExtraFields h x = (Inr (Some qc, of_nat (Suc k), ms), x)" by simp
  from net_allowed [OF x1(2) a h(3,4)] obtain x2 where x2: "allowedToSend net_env net_chain (Some h) x1 = (Inr True, x2)"
    "same_core x1 x2" "voted a k k (of_nat (Suc k)) l' q' x2" by blast
  have "of_nat k < (of_nat (Suc k) :: u64)" using k by (simp add: word_less_nat_alt unat_of_nat_u64 del: of_nat_Suc)
  then have "verifyVotingRule net_chain ?b qc x2 = (Inr True, x2)"
    using x2(3) lck by (auto simp: verifyVotingRule_def voted_def stat_def not_le)
  moreover from net_sendVote [OF x2(3) k, of ?b] h(3) obtain y where y: "sendVote net_env net_chain ?b x2 = (Inr (), y)"
    "voted a (Suc k) (Suc k) (of_nat (Suc k)) l' q' y" "x_BroadcastCh y = x_BroadcastCh x2 @ [MVote (net_vote a ?b)]" by auto
  ultimately have "ProposedBlockHandler net_env net_chain net_chain h x = (Inr (), y)"
    using e h(5) x1(1) x2(1) by (simp add: ProposedBlockHandler_def bindE_def deref_def Let_def del: of_nat_Suc)
  from node_step.propose [where K = "view net_env 0 net_blocks" and B = "proposals net_env 0 net_blocks", OF net_view net_view h(6) this] y x1(3) same_core_fields(4) [OF x2(2)] show ?thesis by auto
qed

section \<open>The run of a voter\<close>

definition net_engine :: engine where
  "net_engine = snd (Initial net_env net_chain (\<lambda>_ _ _. Inl ErrNoCandidates) blk0 (New ex_XDPoS [(705, NewSnapshot 0 705 [7, 8])]))"

lemma net_initial:
  "Initial net_env net_chain (\<lambda>_ _ _. Inl ErrNoCandidates) blk0 (New ex_XDPoS [(705, NewSnapshot 0 705 [7, 8])]) = (Inr (), net_engine)"
  unfolding net_engine_def
  by (simp add: Initial_def initial_def initial_QC_def initial_snapshot_def RepairGapSnapshots_def New_def Header_ptr_Hash_def
      loadSnapshot_def hashes net_chain_def ex_chain_def xSwitchBlock_def xGap_def lastGapNum_def ex_XDPoS_def example_V2_def
      BuildConfigIndex_def bindE_def Let_def Uint64_def)

lemma net_started: "started (view net_env 0 net_blocks) (proposals net_env 0 net_blocks) net_engine"
  by (rule started.start [where K = "view net_env 0 net_blocks" and B = "proposals net_env 0 net_blocks", OF net_view net_proposals net_initial]) simp

lemma net_engine_fields:
  "x_config net_engine = net_config" "x_isInitilised net_engine" "x_currentRound net_engine = 1" "x_highestVotedRound net_engine = 0"
  "x_lockQuorumCert net_engine = None" "hqc net_engine = 0" "htc net_engine = 0" "x_highestCommitBlock net_engine = None"
  "x_votePool net_engine = []" "x_epochSwitches net_engine = NewBasicLRU InMemoryEpochs"
  "x_verifiedHeaders net_engine = NewBasicLRU InMemorySnapshots" "x_highestSelfMinedRound net_engine = 0"
  unfolding net_engine_def
  by (simp_all add: Initial_def initial_def initial_QC_def initial_snapshot_def RepairGapSnapshots_def New_def Header_ptr_Hash_def
      loadSnapshot_def hashes net_chain_def ex_chain_def xSwitchBlock_def xGap_def lastGapNum_def ex_XDPoS_def example_V2_def
      BuildConfigIndex_def bindE_def Let_def Uint64_def hqc_def htc_def NewPool_def net_config_def)

lemma empty_cache: "Peek k (NewBasicLRU n) = None"
  by (simp add: Peek_def NewBasicLRU_def)

lemma empty_coherent: "lru.coherent P (NewBasicLRU n)"
  by (simp add: lru.coherent_def empty_cache)

lemma net_ready: "voted a 0 0 1 None 0 (Authorize (ucast a) (\<lambda>_. Inr (sig_of a)) net_engine)"
  using net_engine_fields
    by (simp add: voted_def stat_def Authorize_def hqc_def htc_def cache_ok_def xSwitchBlock_def xEpoch_def net_config_def ex_XDPoS_def
        example_V2_def BuildConfigIndex_def empty_coherent)

lemma net_handles: "h \<in> {blk1, blk2, blk3} \<Longrightarrow> handles net_env net_chain h"
  by (auto simp: handles_def ShouldHandleProposedBlock_def net_chain_def Uint64_def Let_def)

definition net_votes :: "byte \<Rightarrow> Vote list" where
  "net_votes a = map (net_vote a \<circ> qc_Block) [qc1, qc2, qc3]"

lemma net_run:
  assumes "a \<in> {7, 8}"
  shows "\<exists>y. node_run (view net_env 0 net_blocks) (proposals net_env 0 net_blocks) net_engine (net_votes a) y \<and>
    voted a 3 3 3 (Some qc1) 2 y"
proof -
  let ?K = "view net_env 0 net_blocks" and ?B = "proposals net_env 0 net_blocks"
  let ?x0 = "Authorize (ucast a) (\<lambda>_. Inr (sig_of a)) net_engine"
  note r0 = net_ready [of a]
  from net_processQC [OF r0, of qc0 blk0] obtain x1 where x1: "processQC net_env net_chain (Some qc0) ?x0 = (Inr (), x1)"
    "voted a 0 0 1 None 0 x1" "x_BroadcastCh x1 = x_BroadcastCh ?x0"
    using r0 by (auto simp: after_QC_def voted_def stat_def hqc_def net_config_fields)
  from net_propose [OF r0 assms, of blk1 qc0 x1 None 0] x1 obtain y1 where y1: "node_step ?K ?B ?x0 [net_vote a (qc_Block qc1)] y1"
    "voted a 1 1 1 None 0 y1" using net_proposals [of blk1] net_handles by (auto simp: blocks_carry hashes)
  have low: "\<not> committable net_env net_chain x h b" if "h_Number h \<le> 2" "x_config x = net_config" for x h b
    using that by (auto simp: committable_def three_chain_def net_config_fields)
  from net_processQC [OF y1(2), of qc1 blk1] obtain x2 where x2: "processQC net_env net_chain (Some qc1) y1 = (Inr (), x2)"
    "voted a 1 1 2 (Some qc0) 1 x2" "x_BroadcastCh x2 = x_BroadcastCh y1"
    using y1(2) low by (auto simp: after_QC_def voted_def stat_def hqc_def net_config_fields carried_block blocks_carry newer_than_lock_def)
  from net_propose [OF y1(2) assms, of blk2 qc1 x2 "Some qc0" 1] x2 obtain y2 where y2: "node_step ?K ?B y1 [net_vote a (qc_Block qc2)] y2"
    "voted a 2 2 2 (Some qc0) 1 y2" using net_proposals [of blk2] net_handles by (auto simp: blocks_carry hashes numeral_2_eq_2)
  from net_processQC [OF y2(2), of qc2 blk2] obtain x3 where x3: "processQC net_env net_chain (Some qc2) y2 = (Inr (), x3)"
    "voted a 2 2 3 (Some qc1) 2 x3" "x_BroadcastCh x3 = x_BroadcastCh y2"
    using y2(2) low by (auto simp: after_QC_def voted_def stat_def hqc_def net_config_fields carried_block blocks_carry newer_than_lock_def)
  from net_propose [OF y2(2) assms, of blk3 qc2 x3 "Some qc1" 2] x3 obtain y3 where y3: "node_step ?K ?B y2 [net_vote a (qc_Block qc3)] y3"
    "voted a 3 3 3 (Some qc1) 2 y3" using net_proposals [of blk3] net_handles by (auto simp: blocks_carry hashes numeral_3_eq_3)
  have "node_step ?K ?B net_engine [] ?x0" by (rule node_step.authorize)
  from node_run.more [OF node_run.more [OF node_run.more [OF node_run.more [OF node_run.stop this] y1(1)] y2(1)] y3(1)] y3(2)
  show ?thesis by (auto simp: net_votes_def)
qed

section \<open>Agreement\<close>

lemma net_network: "network net_env 0 net_blocks {7, 8} {} {qc1, qc2, qc3}"
proof -
  have "certificates 0 net_blocks \<subseteq> {qc1, qc2, qc3}"
    by (auto simp: certificates_def blocks_carry elim!: net_blocksE)
  moreover have "honest net_env 0 net_blocks {qc1, qc2, qc3} (ucast a)" if a: "a \<in> {7, 8 :: byte}" for a
  proof -
    from net_run [OF a] obtain y where "node_run (view net_env 0 net_blocks) (proposals net_env 0 net_blocks) net_engine (net_votes a) y"
      "voted a 3 3 3 (Some qc1) 2 y" by blast
    moreover from this(2) have "\<not> wrapped y" by (simp add: voted_def stat_def wrapped_def)
    moreover have "xSwitchBlock net_engine = 0" using net_engine_fields by (simp add: net_config_fields)
    moreover have "\<forall>q \<in> {qc1, qc2, qc3}. \<exists>v \<in> set (net_votes a). v_Block v = qc_Block q" by (auto simp: net_votes_def net_vote_def)
    ultimately show ?thesis using net_started unfolding honest_def by blast
  qed
  from this [of 7] this [of 8] have "\<forall>a \<in> {7, 8}. honest net_env 0 net_blocks {qc1, qc2, qc3} a" by simp
  ultimately show ?thesis using net_verified by (simp add: network_def)
qed

lemma net_describes:
  assumes "x_config x = net_config"
  shows "describes net_env net_chain x None (qc_Block qc3)" "describes net_env net_chain x None (qc_Block qc1)"
  using assms by (simp_all add: describes_def has_round_block net_config_fields blocks_carry)

lemma net_commits:
  "\<exists>x. commits net_env 0 net_blocks {7, 8} {qc1, qc2, qc3} net_env net_chain qc3 x \<lparr>bi_Hash = 649, bi_Round = 1, bi_Number = 1\<rparr>"
proof -
  let ?b = "\<lparr>bi_Hash = 649, bi_Round = 1, bi_Number = 1\<rparr>"
  from net_run [of 7] obtain x where x: "voted 7 3 3 3 (Some qc1) 2 x" by auto
  then have cfg: "x_config x = net_config" "xSwitchBlock x = 0" "x_highestCommitBlock x = None" by (simp_all add: voted_def stat_def net_config_fields)
  have c: "committable net_env net_chain x blk3 b \<longleftrightarrow> b = ?b" for b
    using cfg by (auto simp: committable_def three_chain_def has_round_block blocks_carry hashes commits_over_def)
  from net_processQC [OF x, of qc3 blk3] obtain x1 where x1: "processQC net_env net_chain (Some qc3) x = (Inr (), x1)"
    "after_QC net_env net_chain qc3 x x1" by auto
  have "Ex (committable net_env net_chain x blk3)" using c by blast
  moreover have "\<not> 3 \<le> xSwitchBlock x" using cfg(2) by simp
  ultimately have "\<exists>b. committable net_env net_chain x blk3 b \<and> x_highestCommitBlock x1 = Some b"
    using x1(2) by (simp add: after_QC_def)
  then have "x_highestCommitBlock x1 = Some ?b" by (auto simp: c)
  with x1(1) cfg net_view net_certified [of qc3] net_describes(1) [OF cfg(1)] show ?thesis
    by (intro exI [of _ x]) (simp add: commits_def)
qed


lemma vote_hash: "r < 128 \<Longrightarrow> 0 \<le> n \<Longrightarrow> n < 128 \<Longrightarrow> VoteSigHash len_hash \<lparr>bi_Hash = h, bi_Round = r, bi_Number = n\<rparr> 0 = 38"
proof -
  assume a: "r < 128" "0 \<le> n" "n < 128"
  let ?b = "\<lparr>bi_Hash = h, bi_Round = r, bi_Number = n\<rparr>"
  have "byte_len (nat n) \<le> 1" using byte_len_le [of "nat n" 1] a by simp
  then have "byte_len (nat n) < 2 ^ 64" by (rule le_less_trans) simp
  moreover have len: "length (BlockInfo_payload ?b) = 35" using a by (simp add: BlockInfo_payload_def word_less_nat_alt)
  ultimately have "BlockInfo_ok ?b" using a by (simp add: BlockInfo_ok_def)
  then have w: "list_all2 emits [writeBlockInfo ?b, writeUint64 0] [enc_list (BlockInfo_payload ?b), enc_nat 0]"
    using emits_writeUint64 [of 0] by (simp add: emits_writeBlockInfo)
  have "length (concat [enc_list (BlockInfo_payload ?b), enc_nat 0]) = 37" by (simp add: length_enc_list len headsize_ranges)
  moreover from this have "length (concat [enc_list (BlockInfo_payload ?b), enc_nat 0]) < 2 ^ 64" by (simp only: ) simp
  ultimately show ?thesis using emits_EncodeToBytes [OF emits_writeStruct [OF w]]
    by (simp add: VoteSigHash_def rlpHash_def encoded_for_hash_def len_hash_def length_enc_list headsize_ranges del: concat.simps)
qed

lemma net_valid:
  assumes "q \<in> {qc1, qc2, qc3}" "x_config x = net_config" "es_Masternodes j = [7, 8]" "es_MasternodesLen j = 2" "bi_Number (es_Block j) = 1"
  shows "valid_QC net_env net_chain x j None q"
proof -
  obtain h r n where b: "qc_Block q = \<lparr>bi_Hash = h, bi_Round = r, bi_Number = n\<rparr>" "0 \<le> n" "n < 128" "r \<in> {0, 1, 2, 3}" "r < 128"
    "qc_Signatures q = both" "qc_GapNumber q = 0" using assms(1) by auto
  have "describes net_env net_chain x None (qc_Block q)"
    using assms(1,2) by (auto simp: describes_def has_round_block net_config_fields blocks_carry)
  moreover have "VoteSigHash len_hash (qc_Block q) 0 = 38" using b vote_hash [of r n h] by simp
  moreover have "signed_by net_env 38 both (es_Masternodes j)" using assms(3) by (auto simp: signed_by_def both_def recover_sig)
  moreover have "threshold_reached 2 2 certThreshold_667"
    by (simp add: threshold_reached_def certThreshold_667_def round53_def round_div_def bit_len.simps Let_def)
  moreover have "gapNumber_of 900 450 1 = 0" by code_simp
  ultimately show ?thesis using b assms net_config_fields(2-4)
    by (simp add: valid_QC_def Let_def signers_both example_config_def card_insert_if numeral_2_eq_2 Uint64_def)
qed

lemma net_accepts: "q \<in> {qc1, qc2, qc3} \<Longrightarrow> \<exists>x. accepts net_env {7, 8} net_env net_chain [] x q"
proof -
  assume q: "q \<in> {qc1, qc2, qc3}"
  from net_run [of 7] obtain x where x: "voted 7 3 3 3 (Some qc1) 2 x" by auto
  then have x: "x_config x = net_config" "cache_ok net_blocks 0 900 x" by (simp_all add: voted_def stat_def)
  have "bi_Hash (qc_Block q) \<in> {649, 747, 748}" using q by auto
  from net_epochInfo [OF this x(2), of "[]"] obtain j y where
    j: "getEpochSwitchInfo net_env net_chain [] (bi_Hash (qc_Block q)) x = (Inr j, y)" "es_Masternodes j = [7, 8]" "es_MasternodesLen j = 2"
      "bi_Number (es_Block j) = 1" by auto
  with verifyQC_accepts [of net_env net_chain q "[]" x] net_valid [OF q x(1)] have "\<exists>y. verifyQC net_env net_chain (Some q) [] x = (Inr (), y)" by simp
  with j q x(1) show ?thesis by (intro exI [of _ x]) (auto simp: accepts_def net_config_fields example_config_def)
qed


section \<open>Epoch lookups\<close>

lemma net_cache: "cache_ok net_blocks 0 900 net_engine"
  using net_ready [of 7] by (simp add: voted_def cache_ok_def Authorize_def xSwitchBlock_def xEpoch_def)

lemma net_known: "known_headers net_blocks net_env net_chain []"
  by (simp add: known_headers_def)

theorem epoch_info_from_blocks_witness:
  "\<exists>i y. getEpochSwitchInfo net_env net_chain [] 748 net_engine = (Inr i, y) \<and> (\<exists>n. epoch_of net_blocks 0 900 n 748 i) \<and>
     cache_ok net_blocks 0 900 y"
  using net_epochInfo [of 748 net_engine "[]"] net_cache epoch_info_from_blocks [OF _ net_cache net_known] by auto

theorem epoch_info_returns_witness:
  "\<exists>i y. getEpochSwitchInfo net_env net_chain [] 748 net_engine = (Inr i, y) \<and> same_info net_info i"
  using epoch_info_returns [OF net_epochs(3) _ net_cache, of net_env net_chain "[]"] by auto

section \<open>Headers\<close>

text \<open>The stray block is not in the chain, but its parent is.\<close>

lemma stray_info:
  assumes "cache_ok net_blocks 0 900 x"
  shows "\<exists>j y. getEpochSwitchInfo net_env net_chain [stray3] 749 x = (Inr j, y) \<and> es_Masternodes j = [7, 8]"
proof -
  obtain c x1 where g: "epochSwitches_Get 749 x = (Inr c, x1)" by (cases "Get 749 (x_epochSwitches x)") (simp add: epochSwitches_Get_def)
  note ok = cache_Get [OF g assms]
  have "c = None" using ok by (cases c) (auto simp: net_blocks_def elim: epoch_of.cases)
  have "block_round (xSwitchBlock x1) stray3 = Some 3" "xSwitchBlock x1 = 0" "xEpoch x1 = 900" using ok by (simp_all add: cache_ok_def blocks_carry)
  with IsEpochSwitch_ok [of x1 stray3 3 net_env] obtain l x2 where e: "IsEpochSwitch net_env stray3 x1 = (Inr (False, l), x2)"
    by (auto simp: starts_epoch_def blocks_carry)
  have x2: "cache_ok net_blocks 0 900 x2" using cache_ok_same [OF keepsD [OF epochs_IsEpochSwitch e]] ok by simp
  obtain m where m: "depth net_env = Suc m" "1 < m" by simp
  from epochInfo_rec_ok [OF net_epochs(2) m(2), of net_chain x2 net_env "[]"] x2 net_known obtain j y where
    j: "epochInfo_rec m net_env net_chain [] 747 x2 = (Inr j, y)" by auto
  have "es_Masternodes j = [7, 8]"
    using epochInfo_rec_sound [OF j x2 net_known] epoch_of_unique [OF net_epochs(2)] by (auto simp: same_info_def net_info_def)
  then show ?thesis using g \<open>c = None\<close> e j m(1)
    by (simp add: getEpochSwitchInfo_def bindE_def header_for_def hashes epochSwitches_Add_def del: net_env_fields(2))
qed

lemma net_leader:
  assumes "h \<in> {blk3, stray3}" "x_config x = net_config"
  shows "sealed_by_leader net_env x h 3 [7, 8]"
proof -
  have "leaderIndex x 3 [7, 8] = 1" using net_config_fields(2) [OF assms(2)] by (simp add: leaderIndex_def)
  moreover have "\<exists>sh. sigHash len_hash h = Inr sh"
    using assms(1) by (auto simp: blk3_def stray3_def intro!: net_sigHash simp: lengths_extra length_enc_str headsize_ranges length_gas small_rounds)
  moreover have "h_Coinbase h = 8" "h_Validator h = sig_of 8" using assms(1) by (auto simp: blk3_def stray3_def)
  ultimately show ?thesis by (auto simp: sealed_by_leader_def recover_sig)
qed

lemma net_verify_masternodes:
  assumes "h \<in> {blk3, stray3}" "x_config x = net_config" "cache_ok net_blocks 0 900 x"
  shows "\<exists>y. verify_masternodes net_env net_chain h 3 True x = (Inr [7, 8], y) \<and> same_core x y"
proof -
  have sw: "xSwitchBlock x = 0" "xEpoch x = 900" using assms(2) by (simp_all add: net_config_fields)
  have "block_round (xSwitchBlock x) h = Some 3" "\<not> starts_epoch 0 900 h" using assms(1) by (auto simp: sw blocks_carry starts_epoch_def)
  with IsEpochSwitch_ok [of x h 3 net_env] sw obtain l x1 where e: "IsEpochSwitch net_env h x = (Inr (False, l), x1)" by auto
  have ok: "cache_ok net_blocks 0 900 x1" using cache_ok_same [OF keepsD [OF epochs_IsEpochSwitch e]] assms(3) by simp
  have "\<exists>j y. getEpochSwitchInfo net_env net_chain [h] (Header_Hash len_hash h) x1 = (Inr j, y) \<and> es_Masternodes j = [7, 8]"
    using assms(1) net_epochInfo [of 748 x1 "[blk3]"] stray_info [OF ok] ok by (auto simp: hashes)
  then obtain y where "GetMasternodes net_env net_chain (Some h) x1 = (Inr [7, 8], y)"
    by (auto simp: GetMasternodes_def epochInfo_or_empty_def epochInfo_of_def Header_ptr_Hash_def bindE_def tryE_def)
  moreover have "h_Validators h = []" "h_Penalties h = []" using assms(1) by (auto simp: blk3_def stray3_def)
  ultimately have "verify_masternodes net_env net_chain h 3 True x = (Inr [7, 8], y)" using e by (simp add: verify_masternodes_def bindE_def)
  with keepsD [OF core_verify_masternodes this] show ?thesis by blast
qed

lemma net_verify_prefix:
  assumes "h \<in> {blk3, stray3}" "x_config x = net_config"
  shows "verify_form net_env h True x = (Inr (), x)" "verify_parent net_env net_chain h [] x = (Inr blk2, x)" "verify_gas blk2 h x = (Inr (), x)"
    "verify_time blk2 h 3 x = (Inr (), x)" "verify_fields net_env net_chain blk2 h x = (Inr (), x)"
    "verify_extra h x = (Inr (if h = blk3 then qc2 else qc1, 3), x)"
proof -
  have gas: "VerifyGaslimit 5000 5000 = Inr ()" by code_simp
  have fork: "VerifyEip1559Header (chain_Config net_chain) (Some blk2) h = Inr ()"
    using assms(1) by (auto simp: VerifyEip1559Header_def blk3_def stray3_def net_chain_def ex_chain_def ex_forks_def IsEIP1559_def isForked_def)
  have ne: "blk3 \<noteq> stray3" using hash_blk3 hash_stray3 by auto
  show "verify_form net_env h True x = (Inr (), x)" using assms by (auto simp: verify_form_iff blk3_def stray3_def)
  show "verify_parent net_env net_chain h [] x = (Inr blk2, x)" using assms by (auto simp: verify_parent_def hashes Uint64_def)
  show "verify_gas blk2 h x = (Inr (), x)" using assms gas by (auto simp: verify_gas_def blk2_def blk3_def stray3_def)
  show "verify_time blk2 h 3 x = (Inr (), x)" using assms
    by (auto simp: verify_time_iff net_config_fields example_config_def blk2_def blk3_def stray3_def)
  show "verify_fields net_env net_chain blk2 h x = (Inr (), x)" using assms fork
    by (auto simp: verify_fields_iff blk3_def stray3_def len_hash_def)
  show "verify_extra h x = (Inr (if h = blk3 then qc2 else qc1, 3), x)" using assms ne
    by (auto simp: verify_extra_iff net_config_fields blk3_def stray3_def extra_decodes small_rounds qc1_def qc2_def)
qed

lemma verifyQC_looks_up: "verifyQC ev ch (Some q) ps x = (Inr (), y) \<Longrightarrow> \<exists>i. getEpochSwitchInfo ev ch ps (bi_Hash (qc_Block q)) x = (Inr i, y)"
  by (auto simp: verifyQC_def runs Let_def deref_def configAt_def VerifyBlockInfo_iff split: if_splits)

lemma net_verifyHeader:
  assumes "h \<in> {blk3, stray3}"
  shows "\<exists>y. verifyHeader net_env net_chain h [] True net_engine = (Inr (), y)"
proof -
  let ?q = "if h = blk3 then qc2 else qc1"
  obtain c where g: "Get (Header_Hash len_hash h) (x_verifiedHeaders net_engine) = (None, c)"
    using Get_Peek [of "Header_Hash len_hash h" "x_verifiedHeaders net_engine"] net_engine_fields(11)
    by (cases "Get (Header_Hash len_hash h) (x_verifiedHeaders net_engine)") (simp add: empty_cache)
  define x1 where "x1 = net_engine\<lparr>x_verifiedHeaders := c\<rparr>"
  have x1: "x_config x1 = net_config" "cache_ok net_blocks 0 900 x1"
    using net_cache net_engine_fields(1) by (simp_all add: x1_def cache_ok_def xSwitchBlock_def xEpoch_def)
  have q: "?q \<in> {qc1, qc2, qc3}" "bi_Hash (qc_Block ?q) \<in> {649, 747, 748}" "\<not> 3 \<le> bi_Round (qc_Block ?q)" by (auto simp: word_le_nat_alt)
  from net_epochInfo [OF q(2) x1(2), of "[]"] net_valid [OF q(1) x1(1)] verifyQC_accepts [of net_env net_chain ?q "[]" x1]
  obtain x2 where x2: "verifyQC net_env net_chain (Some ?q) [] x1 = (Inr (), x2)" by auto
  from verifyQC_looks_up [OF this] net_epochInfo [OF q(2) x1(2), of "[]"] have "cache_ok net_blocks 0 900 x2" by auto
  moreover have "x_config x2 = net_config" using same_core_fields(1) [OF keepsD [OF core_verifyQC x2]] x1 by simp
  ultimately obtain x3 where x3: "verify_masternodes net_env net_chain h 3 True x2 = (Inr [7, 8], x3)" "x_config x3 = net_config"
    using net_verify_masternodes [OF assms, of x2] same_core_fields(1) by fastforce
  have "verify_proposer net_env h 3 [7, 8] x3 = (Inr (), x3)" using net_leader [OF assms x3(2)] by (simp add: verify_proposer_iff)
  then show ?thesis
    using g x1 x2 x3 q(3) net_verify_prefix [OF assms x1(1)] net_verify_prefix(5) [OF assms \<open>x_config x2 = net_config\<close>] net_engine_fields(2)
    by (simp add: verifyHeader_def bindE_def verifiedHeaders_Get_def verifiedHeaders_Add_def x1_def)
qed


text \<open>
  Property C26.  A header that is checked without the headers before it may carry a certificate of a block that is not
  its parent: block 3 with the certificate of block 1 is accepted although its parent is block 2.  The
  certificate is one of another block than the parent it names.
\<close>

theorem certificate_of_another_block:
  "\<exists>y. VerifyHeader net_env net_chain stray3 True net_engine = (Inr (), y) \<and>
     (\<exists>d qc. DecodeBytesExtraFields (h_Extra stray3) = Inr d \<and> ex_QC d = Some qc \<and> bi_Hash (qc_Block qc) \<noteq> h_ParentHash stray3)"
proof -
  have "DecodeBytesExtraFields (h_Extra stray3) = Inr \<lparr>ex_Round = 3, ex_QC = Some qc1\<rparr>"
    by (simp add: stray3_def extra_decodes small_rounds qc1_def)
  then show ?thesis using net_verifyHeader [of stray3] by (auto simp: VerifyHeader_def)
qed

section \<open>The end of a round\<close>

theorem processQC_effect_witness:
  "\<exists>y. processQC ex_env ex_view (Some ex_qc) ex_voter = (Inr (), y) \<and> after_QC ex_env ex_view ex_qc ex_voter y \<and> quiet ex_voter y"
  using ex_processQC processQC_effect [OF ex_processQC] by blast

text \<open>A node that has the vote and the timeout of 7 in its pools.\<close>

definition waiting :: engine where
  "waiting = (Authorize 8 (\<lambda>_. Inr (sig_of 8)) net_engine)\<lparr>
     x_votePool := [(Vote_PoolKey (net_vote 8 (qc_Block qc1)), [(Vote_Hash len_hash (net_vote 8 (qc_Block qc1)) + 1, net_vote 7 (qc_Block qc1))])]\<rparr>"

lemma waiting_fields:
  "x_config waiting = net_config" "x_currentRound waiting = 1" "cache_ok net_blocks 0 900 waiting" "hqc waiting = 0"
  using net_engine_fields net_cache by (simp_all add: waiting_def Authorize_def cache_ok_def xSwitchBlock_def xEpoch_def hqc_def)

lemma waiting_pool:
  "\<exists>h p. Pool_Add (voteObj len_hash) (net_vote 8 (qc_Block qc1)) (x_votePool waiting) =
     (2, [(h + 1, net_vote 7 (qc_Block qc1)), (h, net_vote 8 (qc_Block qc1))], p)"
  by (simp add: Pool_Add_def voteObj_def waiting_def objs_at_def Vote_DeepCopy_def net_vote_def Let_def)

lemma two_of_two: "threshold_reached 2 2 certThreshold_667"
  by (simp add: threshold_reached_def certThreshold_667_def round53_def round_div_def bit_len.simps Let_def)

lemma counted_both:
  "counted_votes net_env [7, 8] (net_vote 8 (qc_Block qc1)) [(h + 1, net_vote 7 (qc_Block qc1)), (h, net_vote 8 (qc_Block qc1))] = {7, 8}"
  by (auto simp: counted_votes_def net_vote_def recover_sig)

lemma net_hash_of: "net_blocks 649 = Some h \<Longrightarrow> Header_Hash len_hash h = 649"
  by (auto simp: hashes)

text \<open>What the vote of 8 finds: everything \<open>votes_end_round\<close> asks for.\<close>

lemma net_quorum:
  fixes v :: Vote and pooled :: "hash \<Rightarrow> (hash \<times> Vote) list"
  defines "v \<equiv> net_vote 8 (qc_Block qc1)"
    and "pooled \<equiv> \<lambda>h. [(h + 1, net_vote 7 (qc_Block qc1)), (h, net_vote 8 (qc_Block qc1))]"
  shows "bi_Round (v_Block v) = x_currentRound waiting" "\<exists>h p. Pool_Add (voteObj (keccak net_env)) v (x_votePool waiting) = (2, pooled h, p)"
    "epoch_of net_blocks 0 900 0 (bi_Hash (v_Block v)) net_info" "describes net_env net_chain waiting None (v_Block v)"
    "\<And>h. net_blocks (bi_Hash (v_Block v)) = Some h \<Longrightarrow> Header_Hash (keccak net_env) h = bi_Hash (v_Block v)"
    "V2_Config (x_currentRound waiting) (cfg_V2 (x_config waiting)) = Some (example_config 0 108)"
    "threshold_reached (card (counted_votes net_env (es_Masternodes net_info) v (pooled h))) (es_MasternodesLen net_info) (CertThreshold (example_config 0 108))"
proof -
  have "card {7, 8 :: address} = 2" by simp
  with two_of_two counted_both [of h] show "threshold_reached (card (counted_votes net_env (es_Masternodes net_info) v (pooled h)))
      (es_MasternodesLen net_info) (CertThreshold (example_config 0 108))"
    by (simp add: v_def pooled_def net_info_def example_config_def numeral_2_eq_2)
  show "\<exists>h p. Pool_Add (voteObj (keccak net_env)) v (x_votePool waiting) = (2, pooled h, p)"
    unfolding v_def pooled_def net_env_fields by (rule waiting_pool)
  show "describes net_env net_chain waiting None (v_Block v)" using net_describes(2) [OF waiting_fields(1)] by (simp add: v_def net_vote_def)
qed (use waiting_fields net_epochs(1) in \<open>auto simp: v_def net_vote_def hashes net_config_fields\<close>)

theorem votes_end_round_witness:
  "\<exists>y. voteHandler net_env net_chain (net_vote 8 (qc_Block qc1)) waiting = (Inr (), y) \<and> x_currentRound y = 2"
proof -
  from net_quorum(2) obtain h p where p: "Pool_Add (voteObj (keccak net_env)) (net_vote 8 (qc_Block qc1)) (x_votePool waiting) =
    (2, [(h + 1, net_vote 7 (qc_Block qc1)), (h, net_vote 8 (qc_Block qc1))], p)" by blast
  have d: "0 < depth net_env" by simp
  from votes_end_round [OF net_quorum(1) p net_quorum(3) d waiting_fields(3) _ net_quorum(4,5,6,7) net_view net_verified] waiting_fields(2)
  show ?thesis by auto
qed


text \<open>The timeouts of both end a round in the same way.\<close>

definition net_timeout :: "byte \<Rightarrow> Timeout" where
  "net_timeout a = \<lparr>t_signer = ucast a, t_Round = 1, t_Signature = sig_of a, t_GapNumber = 0\<rparr>"

definition net_head :: chain where "net_head = net_chain\<lparr>CurrentHeader := Some blk3\<rparr>"

definition waiting_out :: engine where
  "waiting_out = net_engine\<lparr>x_timeoutPool := [(Timeout_PoolKey (net_timeout 8), [(Timeout_Hash len_hash (net_timeout 8) + 1, net_timeout 7)])]\<rparr>"

lemma net_tc_info:
  assumes "cache_ok net_blocks 0 900 x"
  shows "\<exists>i y. epochInfo_of net_env net_head (CurrentHeader net_head) x = (Inr i, y) \<and> es_MasternodesLen i = 2 \<and> cache_ok net_blocks 0 900 y"
    "\<exists>i y. getTCEpochInfo net_env net_head 1 x = (Inr i, y) \<and> es_MasternodesLen i = 2 \<and> es_Masternodes i = [7, 8]"
proof -
  have ch: "GetHeaderByHash net_head = net_blocks" "CurrentHeader net_head = Some blk3" by (simp_all add: net_head_def)
  from epochInfo_of_view [OF _ assms _ _ ch(1), of 748 "[blk3]"] obtain j y where
    j: "getEpochSwitchInfo net_env net_head [blk3] 748 x = (Inr j, y)" "es_MasternodesLen j = 2" "es_Block j = qc_Block qc1"
      "cache_ok net_blocks 0 900 y" by (auto simp: hashes)
  then show "\<exists>i y. epochInfo_of net_env net_head (CurrentHeader net_head) x = (Inr i, y) \<and> es_MasternodesLen i = 2 \<and> cache_ok net_blocks 0 900 y"
    by (auto simp: epochInfo_of_def ch Header_ptr_Hash_def hashes)
  from epochInfo_of_view [OF _ j(4) _ _ ch(1), of 649 "[]"] obtain j2 y2 where
    "getEpochSwitchInfo net_env net_head [] 649 y = (Inr j2, y2)" "es_MasternodesLen j2 = 2" "es_Masternodes j2 = [7, 8]" by auto
  moreover have "tc_epoch_block n net_env net_head 1 e \<lparr>bi_Hash = 649, bi_Round = 1, bi_Number = 1\<rparr> =
      returnE \<lparr>bi_Hash = 649, bi_Round = 1, bi_Number = 1\<rparr>" for n e by (cases n) simp_all
  ultimately show "\<exists>i y. getTCEpochInfo net_env net_head 1 x = (Inr i, y) \<and> es_MasternodesLen i = 2 \<and> es_Masternodes i = [7, 8]"
    using j by (auto simp: getTCEpochInfo_def bindE_def mapErrE_def epochInfo_of_def ch Header_ptr_Hash_def hashes)
qed

theorem timeouts_end_round_witness:
  "\<exists>y. timeoutHandler net_env net_head (net_timeout 8) waiting_out = (Inr (), y) \<and> x_currentRound y = 2 \<and> 1 \<le> htc y"
proof -
  let ?t = "net_timeout 8" and ?h = "Timeout_Hash len_hash (net_timeout 8)"
  obtain p where p: "Pool_Add (timeoutObj (keccak net_env)) ?t (x_timeoutPool waiting_out) = (2, [(?h + 1, net_timeout 7), (?h, ?t)], p)"
    by (simp add: Pool_Add_def timeoutObj_def waiting_out_def objs_at_def Timeout_DeepCopy_def net_timeout_def Let_def)
  have x: "x_currentRound waiting_out = 1" "x_config waiting_out = net_config" using net_engine_fields by (simp_all add: waiting_out_def)
  have c: "cache_ok net_blocks 0 900 (waiting_out\<lparr>x_timeoutPool := p\<rparr>)" using net_cache by (simp add: waiting_out_def cache_ok_def xSwitchBlock_def xEpoch_def)
  from net_tc_info(1) [OF c] obtain i1 x1 where i1: "epochInfo_of net_env net_head (CurrentHeader net_head) (waiting_out\<lparr>x_timeoutPool := p\<rparr>) = (Inr i1, x1)"
    "es_MasternodesLen i1 = 2" "cache_ok net_blocks 0 900 x1" by blast
  from net_tc_info(2) [OF i1(3)] obtain i2 x2 where i2: "getTCEpochInfo net_env net_head 1 x1 = (Inr i2, x2)" "es_MasternodesLen i2 = 2"
    "es_Masternodes i2 = [7, 8]" by blast
  have "counted_timeouts net_env [7, 8] ?t [(?h + 1, net_timeout 7), (?h, ?t)] = {7, 8}"
    by (auto simp: counted_timeouts_def net_timeout_def recover_sig)
  then have n: "card (counted_timeouts net_env (es_Masternodes i2) ?t [(?h + 1, net_timeout 7), (?h, ?t)]) = 2" using i2(3) by simp
  have "t_Round ?t = x_currentRound waiting_out" using x by (simp add: net_timeout_def)
  from timeouts_end_round [OF this p i1(1), unfolded x, OF i2(1) net_config_fields(4)] i1(2) i2(2) n two_of_two
  show ?thesis by (fastforce simp: example_config_def)
qed

section \<open>A proposal\<close>

definition proposer :: engine where
  "proposer = net_engine\<lparr>x_highestQuorumCert := qc2, x_currentRound := 3, x_signer := 8, x_signFn := Some (\<lambda>_. Inr (sig_of 8))\<rparr>"

definition proposal :: "u64 \<Rightarrow> bytes \<Rightarrow> Header" where
  "proposal time extra = blk 3 747 200 time extra [] 8"

lemma proposal_updates:
  "proposal t e\<lparr>h_Extra := e', h_Nonce := 0, h_Difficulty := 1\<rparr> = proposal t e'"
  "proposal t e\<lparr>h_MixDigest := 0, h_Time := t'\<rparr> = proposal t' e" "proposal t e\<lparr>h_Validator := sig_of 8\<rparr> = proposal t e"
  by (simp_all add: proposal_def blk_def ex_header_def)

lemma proposal_fields [simp]:
  "h_ParentHash (proposal t e) = 747" "h_Number (proposal t e) = 3" "h_GasUsed (proposal t e) = 200" "h_GasLimit (proposal t e) = 5000"
  "h_Coinbase (proposal t e) = 8" "h_Extra (proposal t e) = e" "h_GasLimit blk2 = 5000" "h_Time blk2 = 4"
  by (simp_all add: proposal_def blk2_def)

lemma proposer_fields [simp]:
  "x_currentRound proposer = 3" "x_highestQuorumCert proposer = qc2" "x_signer proposer = 8" "x_signFn proposer = Some (\<lambda>_. Inr (sig_of 8))"
  by (simp_all add: proposer_def)

lemma net_extra: "ExtraFields_EncodeToBytes \<lparr>ex_Round = 3, ex_QC = Some qc2\<rparr> = Inr (extra_of 3 qc2)"
  using encode_ok [of "\<lparr>ex_Round = 3, ex_QC = Some qc2\<rparr>"] lengths_extra(4) [of 3 2 2 747] by (simp add: extra_of_def qc2_def)

lemma proposer_cache: "cache_ok net_blocks 0 900 proposer" "x_config proposer = net_config"
  using net_cache net_engine_fields(1) by (simp_all add: proposer_def cache_ok_def xSwitchBlock_def xEpoch_def)

lemma net_Prepare: "\<exists>y. Prepare net_env net_chain (proposal 0 []) proposer = (Inr (proposal 100 (extra_of 3 qc2)), y) \<and> same_core proposer y"
proof -
  have sw: "xSwitchBlock proposer = 0" "xEpoch proposer = 900" "xGap proposer = 450" using proposer_cache(2) by (simp_all add: net_config_fields)
  have gas: "VerifyGaslimit 5000 5000 = Inr ()" by code_simp
  obtain ms where "getExtraFields blk2 proposer = (Inr (Some qc1, 2, ms), proposer)" using extra_ok [of proposer blk2 2] by (auto simp: sw blocks_carry)
  then have "\<exists>n. isEpochSwitchAtRound 3 blk2 proposer = (Inr (False, n), proposer)" by (simp add: isEpochSwitchAtRound_def bindE_def sw)
  moreover from net_epochInfo [of 747 proposer "[blk2]"] proposer_cache(1) obtain j y where
    j: "getEpochSwitchInfo net_env net_chain [blk2] 747 proposer = (Inr j, y)" "es_Masternodes j = [7, 8]" "cache_ok net_blocks 0 900 y"
      "same_core proposer y" by (auto simp: hashes)
  then have "GetMasternodes net_env net_chain (Some blk2) proposer = (Inr [7, 8], y)"
    by (simp add: GetMasternodes_def epochInfo_or_empty_def epochInfo_of_def Header_ptr_Hash_def bindE_def tryE_def hashes)
  moreover have "leaderIndex y 3 [7, 8] = 1" using same_core_config(1) [OF j(4)] sw by (simp add: leaderIndex_def)
  moreover have "x_highestSelfMinedRound proposer = 0" using net_engine_fields(12) by (simp add: proposer_def)
  ultimately have yt: "yourturn net_env net_chain 3 (Some blk2) 8 proposer = (Inr True, y\<lparr>x_whosTurn := 8\<rparr>)"
    by (auto simp: yourturn_def bindE_def deref_def Position_def)
  let ?y = "y\<lparr>x_whosTurn := 8\<rparr>" and ?h = "proposal 0 (extra_of 3 qc2)"
  have sy: "xSwitchBlock ?y = 0" "xEpoch ?y = 900" "Period (x_config ?y) = 2"
    using same_core_config [OF j(4)] same_core_fields(1) [OF j(4)] sw proposer_cache(2)
    by (simp_all add: xSwitchBlock_def xEpoch_def net_config_def ex_XDPoS_def)
  have r: "block_round 0 ?h = Some 3" "block_QC 0 ?h = Some qc2" by (simp_all add: block_round_def block_QC_def proposal_def extra_decodes small_rounds qc2_def)
  with IsEpochSwitch_ok [of ?y ?h 3 net_env] sy obtain l y2 where e: "IsEpochSwitch net_env ?h ?y = (Inr (False, l), y2)"
    by (auto simp: starts_epoch_def proposal_def)
  have "Prepare net_env net_chain (proposal 0 []) proposer = (Inr (proposal 100 (extra_of 3 qc2)), y2)"
    using yt e sy(3) gas same_core_fields(1) [OF keepsD [OF core_IsEpochSwitch e]]
    by (simp add: Prepare_def bindE_def net_extra proposal_updates calcDifficulty_def Let_def)
  with keepsD [OF core_Prepare this] show ?thesis by blast
qed

theorem sealed_proposal_witness:
  "\<exists>h x1 y. Prepare net_env net_chain (proposal 0 []) proposer = (Inr h, x1) \<and> Seal net_env net_chain False h x1 = (Inr (Some h), y) \<and>
     x_highestSelfMinedRound y = 3"
proof -
  let ?h = "proposal 100 (extra_of 3 qc2)"
  from net_Prepare obtain x1 where x1: "Prepare net_env net_chain (proposal 0 []) proposer = (Inr ?h, x1)" "same_core proposer x1" by blast
  have sw: "xSwitchBlock x1 = 0" "xEpoch x1 = 900" using same_core_config [OF x1(2)] proposer_cache(2) by (simp_all add: net_config_fields)
  have r: "block_round 0 ?h = Some 3" "block_QC 0 ?h = Some qc2" by (simp_all add: block_round_def block_QC_def proposal_def extra_decodes small_rounds qc2_def)
  with IsEpochSwitch_ok [of x1 ?h 3 net_env] sw obtain l y2 where e: "IsEpochSwitch net_env ?h x1 = (Inr (False, l), y2)"
    by (auto simp: starts_epoch_def proposal_def)
  obtain sh where sh: "sigHash len_hash ?h = Inr sh"
    using net_sigHash [of 3 "extra_of 3 qc2" 100 200 747 8] by (auto simp: proposal_def qc2_def lengths_extra length_enc_str headsize_ranges length_gas small_rounds)
  have "Seal net_env net_chain False ?h x1 = (Inr (Some ?h), y2\<lparr>x_highestSelfMinedRound := 3\<rparr>)"
    using e sh same_core_fields(2,3) [OF x1(2)] extra_decodes [of 3 2 2 both 747]
    by (simp add: Seal_def bindE_def deref_def proposal_updates Let_def Uint64_def qc2_def)
  from sealed_proposal [OF x1(1) this] x1(1) this show ?thesis by (auto simp: proposer_def recover_sig)
qed

end
