(* ===== verification/Rlp_Raw.thy ===== *)
theory Rlp_Raw
  imports Rlp_Laws
begin

text \<open>
  The part of \<open>rlp/raw.go\<close> that takes encoded values apart without decoding them, the sizes of
  encodings, and the iterator of \<open>rlp/iterator.go\<close>.  Against the textbook encoding of \<open>Rlp_Laws\<close>, \<open>Split\<close> is
  exactly the inverse of encoding a string or a list.
\<close>

section \<open>Taking values apart\<close>

definition raw_readSize :: "bytes \<Rightarrow> byte \<Rightarrow> rlp_err + u64" where
  "raw_readSize b slen =
    (if unat slen > length b then Inl ErrUnexpectedEOF else
     let s = (if 1 \<le> slen \<and> slen \<le> 8 then word_of_bytes (take (unat slen) b) else 0) in
     if s < 56 \<or> b ! 0 = 0 then Inl ErrCanonSize else Inr s)"

definition raw_readKind :: "bytes \<Rightarrow> rlp_err + Kind \<times> u64 \<times> u64" where
  "raw_readKind buf = (case buf of [] \<Rightarrow> Inl ErrUnexpectedEOF | b # rest \<Rightarrow>
     let sized = (\<lambda>k a. map_sum id (\<lambda>sz. (k, ucast (b - a) + 1, sz)) (raw_readSize rest (b - a))) in
     case (if b < 0x80 then Inr (Byte, 0, 1)
       else if b < 0xB8 then
         if ucast (b - 0x80) = (1 :: u64) \<and> rest \<noteq> [] \<and> hd rest < 128 then Inl ErrCanonSize else Inr (String, 1, ucast (b - 0x80))
       else if b < 0xC0 then sized String 0xB7
       else if b < 0xF8 then Inr (List, 1, ucast (b - 0xC0))
       else sized List 0xF7) of
       Inl e \<Rightarrow> Inl e
     | Inr (k, tagsize, contentsize) \<Rightarrow>
         if contentsize > of_nat (length buf) - tagsize then Inl ErrValueTooLarge else Inr (k, tagsize, contentsize))"

definition Split :: "bytes \<Rightarrow> rlp_err + Kind \<times> bytes \<times> bytes" where
  "Split b = map_sum id (\<lambda>(k, ts, cs). (k, take (unat cs) (drop (unat ts) b), drop (unat (ts + cs)) b)) (raw_readKind b)"

definition SplitString :: "bytes \<Rightarrow> rlp_err + bytes \<times> bytes" where
  "SplitString b = (case Split b of
     Inl e \<Rightarrow> Inl e
   | Inr (k, content, rest) \<Rightarrow> if k = List then Inl ErrExpectedString else Inr (content, rest))"

definition SplitList :: "bytes \<Rightarrow> rlp_err + bytes \<times> bytes" where
  "SplitList b = (case Split b of
     Inl e \<Rightarrow> Inl e
   | Inr (k, content, rest) \<Rightarrow> if k \<noteq> List then Inl ErrExpectedList else Inr (content, rest))"

text \<open>The size of an integer is checked with \<open>readSize\<close>, and whatever it has to say is a matter of leading zeros.\<close>

definition SplitUint64 :: "bytes \<Rightarrow> rlp_err + u64 \<times> bytes" where
  "SplitUint64 b = (case SplitString b of
     Inl e \<Rightarrow> Inl e
   | Inr (content, rest) \<Rightarrow>
       let n = length content in
       if n = 0 then Inr (0, rest)
       else if n = 1 then if content ! 0 = 0 then Inl ErrCanonInt else Inr (ucast (content ! 0), rest)
       else if n > 8 then Inl ErrUintOverflow
       else case raw_readSize content (of_nat n) of Inl _ \<Rightarrow> Inl ErrCanonInt | Inr x \<Rightarrow> Inr (x, rest))"

text \<open>A value takes at least one byte, so there are no more values than bytes.\<close>

fun count_values :: "nat \<Rightarrow> bytes \<Rightarrow> rlp_err + nat" where
  "count_values 0 b = Inr 0"
| "count_values (Suc n) b = (if b = [] then Inr 0 else case raw_readKind b of
     Inl e \<Rightarrow> Inl e
   | Inr (k, ts, cs) \<Rightarrow> map_sum id Suc (count_values n (drop (unat (ts + cs)) b)))"

definition CountValues :: "bytes \<Rightarrow> rlp_err + nat" where
  "CountValues b = count_values (length b) b"

section \<open>Sizes\<close>

definition BytesSize :: "bytes \<Rightarrow> u64" where
  "BytesSize b = (if length b = 0 then 1
     else if length b = 1 then if b ! 0 \<le> 0x7F then 1 else 2
     else of_nat (headsize (of_nat (length b)) + length b))"

definition ListSize :: "u64 \<Rightarrow> u64" where
  "ListSize contentSize = of_nat (headsize contentSize) + contentSize"

definition IntSize :: "u64 \<Rightarrow> nat" where
  "IntSize x = (if x < 0x80 then 1 else 1 + intsize x)"

definition AppendUint64 :: "bytes \<Rightarrow> u64 \<Rightarrow> bytes" where
  "AppendUint64 b i =
    (if i = 0 then b @ [0x80]
     else if i < 128 then b @ [ucast i]
     else if i < 2 ^ 8 then b @ 0x81 # put_bytes 1 i
     else if i < 2 ^ 16 then b @ 0x82 # put_bytes 2 i
     else if i < 2 ^ 24 then b @ 0x83 # put_bytes 3 i
     else if i < 2 ^ 32 then b @ 0x84 # put_bytes 4 i
     else if i < 2 ^ 40 then b @ 0x85 # put_bytes 5 i
     else if i < 2 ^ 48 then b @ 0x86 # put_bytes 6 i
     else if i < 2 ^ 56 then b @ 0x87 # put_bytes 7 i
     else b @ 0x88 # put_bytes 8 i)"

section \<open>The iterator\<close>

record Iterator =
  it_data :: bytes
  it_next :: bytes
  it_offset :: int
  it_err :: "rlp_err option"

definition NewListIterator :: "bytes \<Rightarrow> rlp_err + Iterator" where
  "NewListIterator data = (case raw_readKind data of
     Inl e \<Rightarrow> Inl e
   | Inr (k, t, c) \<Rightarrow> if k \<noteq> List then Inl ErrExpectedList
       else Inr \<lparr>it_data = take (unat c) (drop (unat t) data), it_next = [], it_offset = int (unat t), it_err = None\<rparr>)"

definition newIterator :: "bytes \<Rightarrow> Iterator" where
  "newIterator data = \<lparr>it_data = data, it_next = [], it_offset = 0, it_err = None\<rparr>"

definition Next :: "Iterator \<Rightarrow> bool \<times> Iterator" where
  "Next it = (if it_data it = [] then (False, it) else case raw_readKind (it_data it) of
     Inl e \<Rightarrow> (True, it\<lparr>it_next := [], it_err := Some e, it_data := []\<rparr>)
   | Inr (_, t, c) \<Rightarrow> let len = unat (t + c) in
       (True, it\<lparr>it_next := take len (it_data it), it_data := drop len (it_data it), it_offset := it_offset it + int len, it_err := None\<rparr>))"

definition it_Count :: "Iterator \<Rightarrow> nat" where
  "it_Count it = (case CountValues (it_data it) of Inl _ \<Rightarrow> 0 | Inr n \<Rightarrow> n)"

definition it_Offset :: "Iterator \<Rightarrow> int" where
  "it_Offset it = it_offset it - int (length (it_next it))"

section \<open>\<open>Split\<close> inverts the encoding\<close>

definition enc_val :: "Kind \<Rightarrow> bytes \<Rightarrow> bytes" where
  "enc_val k c = (if k = List then enc_list c else enc_str c)"

definition kind_ok :: "Kind \<Rightarrow> bytes \<Rightarrow> bool" where
  "kind_ok k c \<longleftrightarrow> k = List \<or> (k = Byte \<longleftrightarrow> length c = 1 \<and> c ! 0 < 0x80)"

lemma raw_readSize_iff:
  assumes "1 \<le> slen" "slen \<le> 8"
  shows "raw_readSize b slen = Inr sz \<longleftrightarrow> \<not> sz < 56 \<and> unat slen = length (putint sz) \<and> (\<exists>rest. b = putint sz @ rest)"
proof
  have n: "1 \<le> unat slen" "unat slen \<le> 8" using assms by (simp_all add: word_le_nat_alt)
  {
    assume "raw_readSize b slen = Inr sz"
    then have r: "unat slen \<le> length b" "sz = word_of_bytes (take (unat slen) b)" "\<not> sz < 56" "b ! 0 \<noteq> 0"
      using assms by (auto simp: raw_readSize_def Let_def split: if_splits)
    let ?bs = "take (unat slen) b"
    have "?bs \<noteq> []" "length ?bs \<le> 8" "hd ?bs \<noteq> 0" using r n by (cases b; auto)+
    then have "putint sz = ?bs" using bytes_of_size [of ?bs] r(2) by simp
    with r(1,3) show "\<not> sz < 56 \<and> unat slen = length (putint sz) \<and> (\<exists>rest. b = putint sz @ rest)"
      by (metis append_take_drop_id length_take min.absorb2)
  next
    assume r: "\<not> sz < 56 \<and> unat slen = length (putint sz) \<and> (\<exists>rest. b = putint sz @ rest)"
    then have "sz \<noteq> 0" by auto
    then have p: "putint sz = be_of_nat (byte_len (unat sz)) (unat sz)" "hd (putint sz) \<noteq> 0"
      using hd_be_of_nat_byte_len [of "unat sz"] by (simp_all add: putint_be unat_gt_0)
    have "putint sz \<noteq> []" using r n by auto
    with p(2) r have "b ! 0 \<noteq> 0" by (cases "putint sz") auto
    moreover have "word_of_bytes (take (unat slen) b) = sz" using r p(1) by auto
    ultimately show "raw_readSize b slen = Inr sz" using assms r by (auto simp: raw_readSize_def Let_def)
  }
qed

lemma raw_readKind_sized:
  assumes "\<not> b < a + 1" "unat b - unat a \<le> 8" "unat a < 255"
  shows "map_sum id (\<lambda>sz. (k, ucast (b - a) + 1, sz)) (raw_readSize rest (b - a)) = Inr (k', ts :: u64, cs) \<longleftrightarrow>
    k' = k \<and> \<not> cs < 56 \<and> ts = of_nat (headsize cs) \<and> (\<exists>r. b # rest = puthead a' a cs @ r)"
proof -
  have "unat (a + 1) = unat a + 1" using assms(3) by (simp add: unat_word_ariths(1))
  then have u: "unat (b - a) = unat b - unat a" "0 < unat (b - a)"
    using assms(1) by (auto simp: word_less_nat_alt unat_sub_if_size)
  then have s: "1 \<le> b - a" "b - a \<le> 8" using assms(2) by (auto simp: word_le_nat_alt)
  have h: "puthead a' a cs = (a + of_nat (length (putint cs))) # putint cs" "headsize cs = 1 + length (putint cs)" if "\<not> cs < 56"
    using that by (simp_all add: puthead_def headsize_def length_putint Let_def)
  have "unat (b - a) = length (putint cs) \<longleftrightarrow> b = a + of_nat (length (putint cs))" if "\<not> cs < 56"
  proof
    assume "unat (b - a) = length (putint cs)"
    then have "b - a = of_nat (length (putint cs))" by (simp only: word_unat_eq_iff putint_tag(1) [OF that])
    then show "b = a + of_nat (length (putint cs))" by (simp add: diff_eq_eq add.commute)
  next
    assume "b = a + of_nat (length (putint cs))"
    then show "unat (b - a) = length (putint cs)" using putint_tag(1) [OF that] by simp
  qed
  moreover have "(ucast (of_nat (length (putint cs)) :: byte) :: u64) = of_nat (length (putint cs))" if "\<not> cs < 56"
    using putint_tag [OF that] by (simp add: word_unat_eq_iff unat_of_nat_u64)
  ultimately show ?thesis using raw_readSize_iff [OF s, of rest cs] h
    by (cases "raw_readSize rest (b - a)") auto
qed

text \<open>The ranges of the first byte of a header.\<close>

lemma puthead_first:
  assumes "unat a' + 56 < 256" "unat a + 8 < 256"
  shows "sz < 56 \<Longrightarrow> puthead a' a sz = [a' + ucast sz] \<and> unat (a' + ucast sz) = unat a' + unat sz"
    "\<not> sz < 56 \<Longrightarrow> \<exists>n. puthead a' a sz = (a + of_nat n) # putint sz \<and> unat (a + of_nat n) = unat a + n \<and> 1 \<le> n \<and> n \<le> 8"
proof -
  assume "sz < 56"
  then show "puthead a' a sz = [a' + ucast sz] \<and> unat (a' + ucast sz) = unat a' + unat sz"
    using assms(1) by (simp add: puthead_small unat_plus_byte unat_ucast_small [OF \<open>sz < 56\<close>] word_less_nat_alt)
next
  assume "\<not> sz < 56"
  note t = putint_tag [OF this]
  have "unat (a + of_nat (length (putint sz))) = unat a + length (putint sz)"
    using t assms(2) by (subst unat_plus_byte) auto
  with t \<open>\<not> sz < 56\<close> show "\<exists>n. puthead a' a sz = (a + of_nat n) # putint sz \<and> unat (a + of_nat n) = unat a + n \<and> 1 \<le> n \<and> n \<le> 8"
    by (intro exI [of _ "length (putint sz)"]) (simp add: puthead_def Let_def)
qed

definition at_head :: "Kind \<Rightarrow> u64 \<Rightarrow> u64 \<Rightarrow> bytes \<Rightarrow> bool" where
  "at_head k ts cs buf \<longleftrightarrow> (case k of
     Byte \<Rightarrow> ts = 0 \<and> cs = 1 \<and> buf \<noteq> [] \<and> hd buf < 0x80
   | String \<Rightarrow> ts = of_nat (headsize cs) \<and> (\<exists>r. buf = puthead 0x80 0xB7 cs @ r \<and> unat cs \<le> length r \<and> \<not> (cs = 1 \<and> hd r < 0x80))
   | List \<Rightarrow> ts = of_nat (headsize cs) \<and> (\<exists>r. buf = puthead 0xC0 0xF7 cs @ r \<and> unat cs \<le> length r))"

lemma headsize_le: "headsize cs \<le> 9"
  using byte_len_u64 [of cs] by (auto simp: headsize_def intsize_def)

lemma room:
  assumes "length buf < 2 ^ 64" "buf = puthead a' a cs @ r"
  shows "\<not> cs > of_nat (length buf) - of_nat (headsize cs) \<longleftrightarrow> unat cs \<le> length r"
proof -
  have "length buf = headsize cs + length r" using assms(2) by (simp add: length_puthead)
  then have "of_nat (length buf) - of_nat (headsize cs) = (of_nat (length r) :: u64)" by simp
  moreover have "length r < 2 ^ 64" using assms by simp
  ultimately show ?thesis by (simp add: not_less word_le_nat_alt unat_of_nat_u64)
qed

lemma head_byte: "b < 0x80 \<Longrightarrow> \<not> at_head String ts cs (b # rest)" "b < 0xC0 \<Longrightarrow> \<not> at_head List ts cs (b # rest)"
    "\<not> b < 0xC0 \<Longrightarrow> \<not> at_head String ts cs (b # rest)"
  using puthead_first [of "0x80" "0xB7" cs] puthead_first [of "0xC0" "0xF7" cs]
  by (cases "cs < 56"; force simp: at_head_def word_less_nat_alt)+

lemma head_Byte: "at_head Byte ts cs (b # rest) \<longleftrightarrow> ts = 0 \<and> cs = 1 \<and> b < 0x80"
  by (simp add: at_head_def)

lemma head_short:
  assumes "length rest < 2 ^ 64 - 1" "a' \<le> b" "unat b < unat a' + 56" "unat a' + 56 \<le> unat a + 1" "unat a + 8 < 256"
  shows "(\<exists>r. b # rest = puthead a' a cs @ r \<and> unat cs \<le> length r \<and> P r) \<longleftrightarrow>
    cs = ucast (b - a') \<and> \<not> ucast (b - a') > (of_nat (length (b # rest)) - 1 :: u64) \<and> P rest" (is "?L \<longleftrightarrow> ?R")
proof -
  have u: "unat (b - a') = unat b - unat a'" "unat a' \<le> unat b" using assms(2) by (auto simp: unat_sub_if_size word_le_nat_alt)
  then have c: "unat (ucast (b - a') :: u64) = unat b - unat a'" by simp
  then have "(ucast (b - a') :: u64) < 56" using assms(3) u by (simp add: word_less_nat_alt)
  note p = puthead_first [of a' a cs] puthead_first(1) [of a' a "ucast (b - a')", OF _ _ this]
  have l: "unat (of_nat (length rest) :: u64) = length rest" using assms(1) by (simp add: unat_of_nat_u64)
  have "b = a' + ucast cs \<longleftrightarrow> cs = ucast (b - a')" if "cs < 56"
    using that p assms(3,4,5) c u by (auto simp: word_unat_eq_iff)
  then show ?thesis using p assms(3-5) l
    by (cases "cs < 56") (auto simp: not_less word_le_nat_alt word_less_nat_alt c)
qed

lemma head_long:
  assumes "length (b # rest) < 2 ^ 64" "\<not> b < a + 1" "unat b - unat a \<le> 8" "unat a < 248" "unat a' + 56 = unat a + 1"
  shows "ts = of_nat (headsize cs) \<and> (\<exists>r. b # rest = puthead a' a cs @ r \<and> unat cs \<le> length r \<and> \<not> (cs = 1 \<and> P r)) \<longleftrightarrow>
    map_sum id (\<lambda>sz. (k, ucast (b - a) + 1, sz)) (raw_readSize rest (b - a)) = Inr (k, ts :: u64, cs) \<and> \<not> cs > of_nat (length (b # rest)) - ts"
proof -
  have a: "unat a < 255" using assms(4) by simp
  have "unat b > unat a" using assms(2,4) by (auto simp: word_less_nat_alt unat_word_ariths(1))
  then have "\<not> cs < 56 \<and> cs \<noteq> 1" if "b # rest = puthead a' a cs @ r" for r
    using that puthead_first(1) [of a' a cs] assms(4,5) by (auto simp: word_less_nat_alt)
  then show ?thesis using raw_readKind_sized [OF assms(2,3) a, of k rest k ts cs a'] room [OF assms(1), of a' a cs] by blast
qed

lemma raw_readKind_head:
  assumes "length buf < 2 ^ 64"
  shows "raw_readKind buf = Inr (k, ts, cs) \<longleftrightarrow> at_head k ts cs buf"
proof (cases buf)
  case Nil
  then show ?thesis by (cases k) (auto simp: raw_readKind_def at_head_def puthead_def Let_def)
next
  case (Cons b rest)
  have l: "length rest < 2 ^ 64 - 1" "length (b # rest) < 2 ^ 64" using assms Cons by auto
  have u1: "unat (of_nat (length rest) :: u64) = length rest" using l by (simp add: unat_of_nat_u64)
  note other = head_byte [of b _ _ rest] head_Byte [of _ _ b rest]
  consider "b < 0x80" "b < 0xC0" | "\<not> b < 0x80" "b < 0xB8" "b < 0xC0" | "\<not> b < 0x80" "\<not> b < 0xB8" "b < 0xC0" |
    "\<not> b < 0x80" "\<not> b < 0xB8" "\<not> b < 0xC0" "b < 0xF8" | "\<not> b < 0x80" "\<not> b < 0xB8" "\<not> b < 0xC0" "\<not> b < 0xF8"
    by (auto simp: word_less_nat_alt)
  then show ?thesis
  proof cases
    case 1
    have "unat (of_nat (length (b # rest)) :: u64) \<noteq> 0" using l(2) by (subst unat_of_nat_u64) auto
    then have "(1 + of_nat (length rest) :: u64) \<noteq> 0" by (auto simp: unat_eq_0)
    then have "raw_readKind buf = Inr (Byte, 0, 1)" using 1 Cons by (simp add: raw_readKind_def)
    then show ?thesis using 1 Cons other by (cases k) auto
  next
    case 2
    have "(ucast (b - 0x80) :: u64) < 56" using 2 by (auto simp: word_less_nat_alt unat_sub_if_size word_le_nat_alt)
    then have small: "headsize (ucast (b - 0x80)) = 1" by (simp add: headsize_def)
    have "at_head String ts cs (b # rest) \<longleftrightarrow> ts = 1 \<and> cs = ucast (b - 0x80) \<and>
        \<not> ucast (b - 0x80) > (of_nat (length (b # rest)) - 1 :: u64) \<and> \<not> (cs = 1 \<and> hd rest < 0x80)"
      using 2 head_short [of rest "0x80" b "0xB7" cs "\<lambda>r. \<not> (cs = 1 \<and> hd r < 0x80)", OF l(1)] small
      by (auto simp: at_head_def word_le_nat_alt word_less_nat_alt)
    then show ?thesis using 2 Cons other
      by (cases k) (auto simp: raw_readKind_def split: if_splits)
  next
    case 3
    have "at_head String ts cs (b # rest) \<longleftrightarrow>
        map_sum id (\<lambda>sz. (String, ucast (b - 0xB7) + 1, sz)) (raw_readSize rest (b - 0xB7)) = Inr (String, ts, cs) \<and> \<not> cs > of_nat (length (b # rest)) - ts"
      using 3 head_long [of b rest "0xB7" "0x80" ts cs "\<lambda>r. hd r < 0x80" String, OF l(2)]
      by (simp add: at_head_def word_less_nat_alt)
    then show ?thesis using 3 Cons other
      by (cases k; cases "raw_readSize rest (b - 0xB7)") (auto simp: raw_readKind_def)
  next
    case 4
    have "(ucast (b - 0xC0) :: u64) < 56" using 4 by (auto simp: word_less_nat_alt unat_sub_if_size word_le_nat_alt)
    then have small: "headsize (ucast (b - 0xC0)) = 1" by (simp add: headsize_def)
    have "at_head List ts cs (b # rest) \<longleftrightarrow> ts = 1 \<and> cs = ucast (b - 0xC0) \<and> \<not> ucast (b - 0xC0) > (of_nat (length (b # rest)) - 1 :: u64)"
      using 4 head_short [of rest "0xC0" b "0xF7" cs "\<lambda>r. True", OF l(1)] small
      by (auto simp: at_head_def word_le_nat_alt word_less_nat_alt)
    then show ?thesis using 4 Cons other by (cases k) (auto simp: raw_readKind_def split: if_splits)
  next
    case 5
    have "unat b < 256" using unat_lt2p [of b] by simp
    then have "at_head List ts cs (b # rest) \<longleftrightarrow>
        map_sum id (\<lambda>sz. (List, ucast (b - 0xF7) + 1, sz)) (raw_readSize rest (b - 0xF7)) = Inr (List, ts, cs) \<and> \<not> cs > of_nat (length (b # rest)) - ts"
      using 5 head_long [of b rest "0xF7" "0xC0" ts cs "\<lambda>r. False" List, OF l(2)]
      by (simp add: at_head_def word_less_nat_alt)
    then show ?thesis using 5 Cons other
      by (cases k; cases "raw_readSize rest (b - 0xF7)") (auto simp: raw_readKind_def)
  qed
qed

lemma split_head:
  assumes "length b < 2 ^ 64"
  shows "(\<exists>ts cs. (ts = of_nat (headsize cs) \<and> (\<exists>r. b = puthead a' a cs @ r \<and> unat cs \<le> length r \<and> \<not> (cs = 1 \<and> P (hd r)))) \<and>
      c = take (unat cs) (drop (unat (ts :: u64)) b) \<and> rest = drop (unat (ts + cs)) b) \<longleftrightarrow>
    b = puthead a' a (of_nat (length c)) @ c @ rest \<and> \<not> (length c = 1 \<and> P (hd c))" (is "?L \<longleftrightarrow> ?R")
proof
  assume ?L
  then obtain cs r where r: "b = puthead a' a cs @ r" "unat cs \<le> length r" "\<not> (cs = 1 \<and> P (hd r))"
    "c = take (unat cs) (drop (unat (of_nat (headsize cs) :: u64)) b)" "rest = drop (unat (of_nat (headsize cs) + cs)) b" by blast
  have h: "unat (of_nat (headsize cs) :: u64) = headsize cs" using headsize_le [of cs] by (simp add: unat_of_nat_u64)
  have "headsize cs + unat cs < 2 ^ 64" using assms r(1,2) by (simp add: length_puthead)
  then have "unat (of_nat (headsize cs) + cs) = headsize cs + unat cs" by (simp add: unat_word_ariths(1) h)
  then have c: "c = take (unat cs) r" "rest = drop (unat cs) r" using r(1,4,5) h by (simp_all add: length_puthead)
  then have "length c = unat cs" using r(2) by simp
  then have "of_nat (length c) = cs" by simp
  moreover have "r = c @ rest" using c by simp
  moreover have "hd c = hd r" if "length c = 1" using that \<open>r = c @ rest\<close> by (cases c) auto
  moreover have "cs = 1" if "length c = 1" using that \<open>length c = unat cs\<close> by (simp add: word_unat_eq_iff)
  ultimately show ?R using r(1,3) by auto
next
  assume R: ?R
  let ?cs = "of_nat (length c) :: u64"
  have l: "headsize ?cs + length c \<le> length b" using R by (metis append_assoc length_append length_puthead le_add1)
  have u: "unat ?cs = length c" "unat (of_nat (headsize ?cs) :: u64) = headsize ?cs"
    using l assms headsize_le [of ?cs] by (auto simp: unat_of_nat_u64)
  then have t: "unat (of_nat (headsize ?cs) + ?cs) = headsize ?cs + length c" using l assms by (simp add: unat_word_ariths(1))
  have "\<not> (?cs = 1 \<and> P (hd (c @ rest)))" using R u(1) by (cases c) (auto dest: arg_cong [of _ 1 unat])
  moreover have "c = take (unat ?cs) (drop (unat (of_nat (headsize ?cs) :: u64)) b)" "rest = drop (unat (of_nat (headsize ?cs) + ?cs)) b"
    "b = puthead a' a ?cs @ c @ rest"
    using R by (simp_all add: t u length_puthead)
  moreover have "unat ?cs \<le> length (c @ rest)" using u(1) by simp
  ultimately show ?L by blast
qed

lemma split_Byte: "(\<exists>ts cs. at_head Byte ts cs b \<and> c = take (unat cs) (drop (unat ts) b) \<and> rest = drop (unat (ts + cs)) b) \<longleftrightarrow>
    b = c @ rest \<and> length c = 1 \<and> c ! 0 < 0x80"
  by (cases b) (auto simp: at_head_def length_Suc_conv)

lemma split_value:
  assumes "length b < 2 ^ 64"
  shows "Split b = Inr (k, c, rest) \<longleftrightarrow> b = enc_val k c @ rest \<and> kind_ok k c"
proof -
  have "Split b = Inr (k, c, rest) \<longleftrightarrow>
      (\<exists>ts cs. at_head k ts cs b \<and> c = take (unat cs) (drop (unat ts) b) \<and> rest = drop (unat (ts + cs)) b)"
    unfolding Split_def raw_readKind_head [OF assms, symmetric] by (cases "raw_readKind b") auto
  also have "\<dots> \<longleftrightarrow> b = enc_val k c @ rest \<and> kind_ok k c"
  proof (cases k)
    case Byte
    then show ?thesis using split_Byte [of b c rest] by (auto simp: enc_val_def enc_str_def kind_ok_def)
  next
    case String
    have "length c = 1 \<and> hd c < 0x80 \<longleftrightarrow> length c = 1 \<and> c ! 0 < 0x80" by (cases c) auto
    then have "b = enc_val k c @ rest \<and> kind_ok k c \<longleftrightarrow>
        b = puthead 0x80 0xB7 (of_nat (length c)) @ c @ rest \<and> \<not> (length c = 1 \<and> hd c < 0x80)"
      using String by (auto simp: enc_val_def enc_str_def kind_ok_def)
    then show ?thesis using split_head [OF assms, of "0x80" "0xB7" "\<lambda>x. x < 0x80" c rest]
      unfolding String at_head_def Kind.case by blast
  next
    case List
    have "b = enc_val k c @ rest \<and> kind_ok k c \<longleftrightarrow> b = puthead 0xC0 0xF7 (of_nat (length c)) @ c @ rest \<and> \<not> (length c = 1 \<and> False)"
      using List by (auto simp: enc_val_def enc_list_def kind_ok_def)
    then show ?thesis using split_head [OF assms, of "0xC0" "0xF7" "\<lambda>x. False" c rest]
      unfolding List at_head_def Kind.case by blast
  qed
  finally show ?thesis .
qed

text \<open>Property C20. \<open>Split\<close> takes a buffer apart exactly when it starts with the canonical encoding of a value, and it
  returns the kind and the content of that value and the bytes that follow it.\<close>

theorem Split_iff:
  assumes "length b < 2 ^ 64"
  shows "Split b = Inr (k, c, rest) \<longleftrightarrow> b = enc_val k c @ rest \<and> kind_ok k c"
  by (rule split_value [OF assms])

theorem Split_iff_witness: "Split [0x83, 1, 2, 3, 9] = Inr (String, [1, 2, 3], [9])"
  by (subst Split_iff) (simp_all add: enc_val_def enc_str_def kind_ok_def puthead_def)

section \<open>Sequences of values\<close>

definition values_ok :: "(Kind \<times> bytes) list \<Rightarrow> bool" where
  "values_ok vs \<longleftrightarrow> (\<forall>(k, c) \<in> set vs. kind_ok k c)"

definition enc_vals :: "(Kind \<times> bytes) list \<Rightarrow> bytes" where
  "enc_vals vs = concat (map (\<lambda>(k, c). enc_val k c) vs)"

lemma enc_vals_simps [simp]: "enc_vals [] = []" "enc_vals ((k, c) # vs) = enc_val k c @ enc_vals vs"
    "values_ok []" "values_ok ((k, c) # vs) \<longleftrightarrow> kind_ok k c \<and> values_ok vs"
  by (auto simp: enc_vals_def values_ok_def)

lemma enc_val_ne [simp]: "enc_val k c \<noteq> []"
  by (auto simp: enc_val_def enc_str_def enc_list_def puthead_def Let_def)

lemma enc_vals_Nil_iff [simp]: "enc_vals vs = [] \<longleftrightarrow> vs = []" "[] = enc_vals vs \<longleftrightarrow> vs = []"
  by (cases vs; force)+

lemma readKind_step:
  assumes "length b < 2 ^ 64" "raw_readKind b = Inr (k, ts, cs)"
  obtains c where "b = enc_val k c @ drop (unat (ts + cs)) b" "kind_ok k c" "take (unat (ts + cs)) b = enc_val k c"
    "c = take (unat cs) (drop (unat ts) b)"
proof -
  let ?c = "take (unat cs) (drop (unat ts) b)"
  have "Split b = Inr (k, ?c, drop (unat (ts + cs)) b)" using assms(2) by (simp add: Split_def)
  then have s: "b = enc_val k ?c @ drop (unat (ts + cs)) b" "kind_ok k ?c" using split_value [OF assms(1)] by auto
  then have "take (unat (ts + cs)) b = enc_val k ?c" by (metis append_same_eq append_take_drop_id)
  with s show thesis by (intro that) auto
qed

lemma at_head_room: "at_head k ts cs b \<Longrightarrow> unat (ts + cs) \<le> length b"
proof (cases k)
  case Byte
  assume "at_head k ts cs b"
  then show ?thesis using Byte by (cases b) (auto simp: at_head_def)
next
  have s: "unat (of_nat (headsize cs) + cs) \<le> headsize cs + unat cs"
    using headsize_le [of cs] by (simp add: unat_word_ariths(1) unat_of_nat_u64)
  {
    assume h: "at_head k ts cs b" and "k = String"
    then show ?thesis using s by (auto simp: at_head_def length_puthead)
  next
    assume h: "at_head k ts cs b" and "k = List"
    then show ?thesis using s by (auto simp: at_head_def length_puthead)
  }
qed

lemma readKind_of_enc:
  assumes "length (enc_val k c @ rest) < 2 ^ 64" "kind_ok k c"
  obtains ts cs where "raw_readKind (enc_val k c @ rest) = Inr (k, ts, cs)" "drop (unat (ts + cs)) (enc_val k c @ rest) = rest"
    "unat (ts + cs) = length (enc_val k c)"
proof -
  let ?b = "enc_val k c @ rest"
  have "Split ?b = Inr (k, c, rest)" using split_value [OF assms(1), of k c rest] assms(2) by simp
  then obtain ts cs where r: "raw_readKind ?b = Inr (k, ts, cs)" "drop (unat (ts + cs)) ?b = rest"
    by (cases "raw_readKind ?b") (auto simp: Split_def)
  have "unat (ts + cs) \<le> length ?b" using r(1) raw_readKind_head [OF assms(1)] by (intro at_head_room) simp
  moreover have "length ?b - unat (ts + cs) = length rest" using arg_cong [OF r(2), of length] by simp
  ultimately have "unat (ts + cs) = length (enc_val k c)" by simp
  with r show thesis by (rule that)
qed

lemma map_sum_InrE:
  assumes "map_sum f g x = Inr y"
  obtains z where "x = Inr z" "y = g z"
  using assms by (cases x) auto

lemma count_values_iff:
  "length b < 2 ^ 64 \<Longrightarrow> length b \<le> n \<Longrightarrow>
    count_values n b = Inr m \<longleftrightarrow> (\<exists>vs. b = enc_vals vs \<and> values_ok vs \<and> length vs = m)"
proof (induction n arbitrary: b m)
  case 0
  then show ?case by auto
next
  case (Suc n)
  show ?case
  proof (cases "b = []")
    case False
    show ?thesis
    proof
      assume "count_values (Suc n) b = Inr m"
      with False obtain k ts cs m' where r: "raw_readKind b = Inr (k, ts, cs)"
        and m': "count_values n (drop (unat (ts + cs)) b) = Inr m'" "m = Suc m'"
        by (auto split: sum.splits elim!: map_sum_InrE)
      from readKind_step [OF Suc.prems(1) r] obtain c where c: "b = enc_val k c @ drop (unat (ts + cs)) b" "kind_ok k c" by blast
      then have "length (drop (unat (ts + cs)) b) < length b" by (metis enc_val_ne length_append length_greater_0_conv less_add_same_cancel2)
      then obtain vs where "drop (unat (ts + cs)) b = enc_vals vs" "values_ok vs" "length vs = m'"
        using Suc.IH [of "drop (unat (ts + cs)) b" m'] Suc.prems m'(1) by auto
      with c m'(2) show "\<exists>vs. b = enc_vals vs \<and> values_ok vs \<and> length vs = m"
        by (intro exI [of _ "(k, c) # vs"]) simp
    next
      assume "\<exists>vs. b = enc_vals vs \<and> values_ok vs \<and> length vs = m"
      with False obtain k c vs where v: "b = enc_val k c @ enc_vals vs" "kind_ok k c" "values_ok vs" "m = Suc (length vs)"
        by (metis enc_vals_Nil_iff(1) enc_vals_simps(2,4) length_Cons list.exhaust surj_pair)
      from v Suc.prems obtain ts cs where r: "raw_readKind b = Inr (k, ts, cs)" "drop (unat (ts + cs)) b = enc_vals vs"
        using readKind_of_enc [of k c "enc_vals vs"] by metis
      have "length (enc_vals vs) < length b" using v(1) by simp
      then have "count_values n (enc_vals vs) = Inr (length vs)"
        using Suc.IH [of "enc_vals vs" "length vs"] Suc.prems v(3) by auto
      then show "count_values (Suc n) b = Inr m" using r v(4) False by simp
    qed
  qed auto
qed

lemma CountValues_iff:
  "length b < 2 ^ 64 \<Longrightarrow> CountValues b = Inr m \<longleftrightarrow> (\<exists>vs. b = enc_vals vs \<and> values_ok vs \<and> length vs = m)"
  by (simp add: CountValues_def count_values_iff)

section \<open>The sizes are the lengths of the encodings\<close>

lemma BytesSize_length: "length b < 2 ^ 64 \<Longrightarrow> BytesSize b = of_nat (length (enc_str b))"
proof -
  assume l: "length b < 2 ^ 64"
  consider "b = []" | x where "b = [x]" | x y ys where "b = x # y # ys" by (metis list.exhaust)
  then show ?thesis
  proof cases
    case (2 x)
    have "x \<le> 0x7F \<longleftrightarrow> x < 0x80" by (auto simp: word_le_nat_alt word_less_nat_alt)
    then show ?thesis using 2 by (auto simp: BytesSize_def enc_str_def length_puthead headsize_def)
  qed (auto simp: BytesSize_def enc_str_def length_puthead headsize_def)
qed

lemma ListSize_length: "ListSize (of_nat (length c)) = of_nat (length (enc_list c))"
  by (simp add: ListSize_def enc_list_def length_puthead)

lemma IntSize_length: "IntSize x = length (enc_nat (unat x))"
proof -
  consider "x = 0" | "0 < unat x" "unat x < 128" | "128 \<le> unat x" by (metis not_less unat_eq_zero gr_zeroI)
  then show ?thesis
  proof cases
    case 3
    then have "x \<noteq> 0" by auto
    then show ?thesis using 3 byte_len_u64 [of x]
      by (simp add: IntSize_def enc_nat_large word_less_nat_alt flip: length_putint) (simp add: putint_be)
  qed (simp_all add: IntSize_def enc_nat_small word_less_nat_alt)
qed

lemma enc_nat_width:
  assumes "128 \<le> n" "256 ^ k \<le> n" "n < 256 ^ Suc k" "k < 8"
  shows "enc_nat n = (0x80 + of_nat (Suc k)) # be_of_nat (Suc k) n"
  using assms byte_len_unique [of k n] enc_nat_large [of n] by simp

lemma AppendUint64_enc: "AppendUint64 b i = b @ enc_nat (unat i)"
proof (cases "i = 0")
  case False
  note w = enc_nat_width [of "unat i"]
  have lt: "unat i < 2 ^ 64" using unat_lt2p [of i] by simp
  have two: "be_of_nat 2 (unat i) = [of_nat (unat i div 256), ucast i]" by (simp add: numeral_2_eq_2)
  consider "unat i < 128" | "128 \<le> unat i" "unat i < 2 ^ 8"
    | "2 ^ 8 \<le> unat i" "unat i < 2 ^ 16" | "2 ^ 16 \<le> unat i" "unat i < 2 ^ 24" | "2 ^ 24 \<le> unat i" "unat i < 2 ^ 32"
    | "2 ^ 32 \<le> unat i" "unat i < 2 ^ 40" | "2 ^ 40 \<le> unat i" "unat i < 2 ^ 48" | "2 ^ 48 \<le> unat i" "unat i < 2 ^ 56"
    | "2 ^ 56 \<le> unat i" by linarith
  then show ?thesis
    using w [of 0] w [of 1] w [of 2] w [of 3] w [of 4] w [of 5] w [of 6] w [of 7] lt False
    by cases (simp_all add: AppendUint64_def put_bytes_be enc_nat_small word_less_nat_alt of_nat_unat unat_gt_0 two)
qed (simp add: AppendUint64_def)

text \<open>Splitting an integer off undoes appending it.\<close>

lemma SplitString_enc: "length (enc_str c @ rest) < 2 ^ 64 \<Longrightarrow> SplitString (enc_str c @ rest) = Inr (c, rest)"
  using split_value [of "enc_str c @ rest" Byte c rest] split_value [of "enc_str c @ rest" String c rest]
  by (cases "length c = 1 \<and> c ! 0 < 0x80") (auto simp: SplitString_def enc_val_def kind_ok_def)

lemma SplitUint64_enc:
  assumes "length rest < 2 ^ 64 - 9"
  shows "SplitUint64 (enc_nat (unat i) @ rest) = Inr (i, rest)"
proof -
  let ?c = "be_of_nat (byte_len (unat i)) (unat i)"
  have b: "byte_len (unat i) \<le> 8" by (rule byte_len_u64)
  have "length (enc_nat (unat i)) \<le> 9"
    using b headsize_le by (auto simp: enc_nat_def enc_str_def length_puthead headsize_def small_word)
  then have s: "SplitString (enc_nat (unat i) @ rest) = Inr (?c, rest)"
    unfolding enc_nat_def using assms by (intro SplitString_enc) (simp add: enc_nat_def)
  consider "i = 0" | "0 < unat i" "unat i < 256" | "256 \<le> unat i" by (metis not_less unat_eq_zero gr_zeroI)
  then show ?thesis
  proof cases
    case 1
    then show ?thesis using s by (simp add: SplitUint64_def)
  next
    case 2
    then have "byte_len (unat i) = 1" by (intro byte_len_1)
    moreover have u: "unat (ucast i :: byte) = unat i" using 2 by (simp add: unsigned_ucast_eq take_bit_nat_eq_self)
    moreover have "(ucast i :: byte) \<noteq> 0" using u 2 by (metis unat_0 less_irrefl)
    moreover have "ucast (ucast i :: byte) = i" using u by (simp add: word_unat_eq_iff)
    ultimately show ?thesis using s by (simp add: SplitUint64_def Let_def)
  next
    case 3
    then have i: "i \<noteq> 0" "\<not> i < 56" by (auto simp: word_less_nat_alt)
    have two: "2 \<le> byte_len (unat i)"
      using 3 byte_len_upper [of "unat i"] by (cases "byte_len (unat i)"; cases "byte_len (unat i) - 1") auto
    then have "raw_readSize ?c (of_nat (length ?c)) = Inr i"
      using raw_readSize_iff [of "of_nat (byte_len (unat i))" ?c i] b i
      by (simp add: putint_be word_le_nat_alt unat_of_nat take_bit_nat_eq_self)
    moreover have "?c \<noteq> []" using two by (simp flip: length_0_conv)
    ultimately show ?thesis using s two b by (simp add: SplitUint64_def Let_def)
  qed
qed

text \<open>The iterator hands out the values one after the other.\<close>

lemma Next_value:
  assumes "it_data it = enc_val k c @ rest" "length (it_data it) < 2 ^ 64" "kind_ok k c"
  shows "Next it = (True, it\<lparr>it_next := enc_val k c, it_data := rest,
    it_offset := it_offset it + int (length (enc_val k c)), it_err := None\<rparr>)"
proof -
  obtain ts cs where r: "raw_readKind (it_data it) = Inr (k, ts, cs)" "drop (unat (ts + cs)) (it_data it) = rest"
    "unat (ts + cs) = length (enc_val k c)"
    using assms readKind_of_enc [of k c rest] by metis
  then have "uint (ts + cs) = int (length (enc_val k c))" by (metis uint_nat)
  with r show ?thesis using assms(1) by (simp add: Next_def Let_def)
qed

end
