(* ===== verification/Hex_Keys.thy ===== *)
theory Hex_Keys
  imports Prelude
begin

unbundle bit_operations_syntax

text \<open>
  The key encodings of the Merkle Patricia trie (\<open>trie/encoding.go\<close>): plain bytes, one nibble per byte
  with an optional terminator, and the compact form that is stored.  The encodings are shown to be
  inverse to each other where the trie uses them, and the version that works in place to compute
  the same bytes.
\<close>

section \<open>The encodings\<close>

definition hasTerm :: "bytes \<Rightarrow> bool" where
  "hasTerm s \<longleftrightarrow> length s > 0 \<and> s ! (length s - 1) = 16"

text \<open>\<open>decodeNibbles\<close> fills a buffer of half the length; it is called for even lengths.\<close>

fun decodeNibbles :: "bytes \<Rightarrow> bytes" where
  "decodeNibbles (a # b # nibbles) = (push_bit 4 a OR b) # decodeNibbles nibbles"
| "decodeNibbles _ = []"

definition keybytesToHex :: "bytes \<Rightarrow> bytes" where
  "keybytesToHex str = concat (map (\<lambda>b. [b div 16, b mod 16]) str) @ [16]"

definition hexToKeybytes :: "bytes \<Rightarrow> string + bytes" where
  "hexToKeybytes hex0 =
    (let hex = (if hasTerm hex0 then butlast hex0 else hex0) in
     if odd (length hex) then Inl ''can't convert hex key of odd length'' else Inr (decodeNibbles hex))"

definition hexToCompact :: "bytes \<Rightarrow> bytes" where
  "hexToCompact hex0 =
    (let terminator = (if hasTerm hex0 then 1 else 0);
         hex = (if hasTerm hex0 then butlast hex0 else hex0);
         flag = push_bit 5 terminator
     in if odd (length hex) then (flag OR push_bit 4 1 OR hd hex) # decodeNibbles (tl hex)
        else flag # decodeNibbles hex)"

definition compactToHex :: "bytes \<Rightarrow> bytes" where
  "compactToHex compact =
    (if compact = [] then compact else
     let base0 = keybytesToHex compact;
         base = (if hd base0 < 2 then butlast base0 else base0);
         chop = 2 - (hd base AND 1)
     in drop (unat chop) base)"

text \<open>The loop of \<open>hexToCompactInPlace\<close>, and the whole: the array it leaves behind and the length in use.\<close>

function compact_loop :: "nat \<Rightarrow> nat \<Rightarrow> nat \<Rightarrow> bytes \<Rightarrow> bytes" where
  "compact_loop hexLen bi ni hex =
    (if ni < hexLen then compact_loop hexLen (bi + 1) (ni + 2) (hex[bi := push_bit 4 (hex ! ni) OR hex ! (ni + 1)])
     else hex)"
  by pat_completeness auto
termination by (relation "measure (\<lambda>(hexLen, bi, ni, hex). hexLen - ni)") auto

declare compact_loop.simps [simp del]

definition hexToCompactInPlace :: "bytes \<Rightarrow> (nat \<times> bytes) option" where
  "hexToCompactInPlace hex =
    (let term = (length hex > 0 \<and> hex ! (length hex - 1) = 16);
         hexLen = (if term then length hex - 1 else length hex);
         firstByte = (if term then push_bit 5 1 else 0);
         binLen = hexLen div 2 + 1
     in if hex = [] then None
        else if odd hexLen
          then Some (binLen, (compact_loop hexLen 1 1 hex)[0 := firstByte OR push_bit 4 1 OR hex ! 0])
          else Some (binLen, (compact_loop hexLen 1 0 hex)[0 := firstByte]))"

fun prefix_loop :: "nat \<Rightarrow> bytes \<Rightarrow> bytes \<Rightarrow> nat \<Rightarrow> nat" where
  "prefix_loop i a b 0 = i"
| "prefix_loop i a b (Suc n) = (if a ! i \<noteq> b ! i then i else prefix_loop (Suc i) a b n)"

definition prefixLen :: "bytes \<Rightarrow> bytes \<Rightarrow> nat" where
  "prefixLen a b = prefix_loop 0 a b (if length b < length a then length b else length a)"

section \<open>Nibbles\<close>

definition nibble :: "byte \<Rightarrow> bool" where "nibble b \<longleftrightarrow> b < 16"

text \<open>A key in hex form: nibbles, with or without a terminator.\<close>

definition hex_key :: "bytes \<Rightarrow> bool" where
  "hex_key k \<longleftrightarrow> (\<forall>b \<in> set (butlast k). nibble b) \<and> (k \<noteq> [] \<longrightarrow> nibble (last k) \<or> last k = 16)"

lemma hasTerm_last: "hasTerm s \<longleftrightarrow> s \<noteq> [] \<and> last s = 16"
  by (auto simp: hasTerm_def last_conv_nth)

lemma join_nibbles:
  assumes "nibble a" "nibble b"
  shows "push_bit 4 a OR b = 16 * a + b" "unat (16 * a + b) = 16 * unat a + unat b"
proof -
  have ab: "unat a < 16" "unat b < 16" using assms by (simp_all add: nibble_def word_less_nat_alt)
  then show "unat (16 * a + b) = 16 * unat a + unat b"
    by (simp add: unat_word_ariths)
  have "b = take_bit 4 b" using ab(2) by (simp add: take_bit_eq_mod word_arith_nat_mod unat_arith_simps)
  then have "push_bit 4 a OR b = push_bit 4 a + b"
    by (metis bit_push_bit_iff bit_take_bit_iff disjunctive_add not_less)
  then show "push_bit 4 a OR b = 16 * a + b" by (simp add: push_bit_eq_mult mult.commute)
qed

lemma split_nibbles:
  assumes "nibble a" "nibble b"
  shows "(push_bit 4 a OR b) div 16 = a" "(push_bit 4 a OR b) mod 16 = b"
proof -
  have "unat a < 16" "unat b < 16" using assms by (simp_all add: nibble_def word_less_nat_alt)
  with join_nibbles [OF assms] show "(push_bit 4 a OR b) div 16 = a" "(push_bit 4 a OR b) mod 16 = b"
    by (simp_all add: word_unat_eq_iff unat_div unat_mod)
qed

lemma nibbles_of_byte [simp]: "nibble (b div 16)" "nibble (b mod 16)" "push_bit 4 (b div 16) OR b mod 16 = b"
proof -
  show n: "nibble (b div 16)" "nibble (b mod 16)"
    using unat_byte [of b] by (simp_all add: nibble_def word_less_nat_alt unat_div unat_mod)
  show "push_bit 4 (b div 16) OR b mod 16 = b"
    unfolding join_nibbles(1) [OF n] word_unat_eq_iff join_nibbles(2) [OF n] by (simp add: unat_div unat_mod)
qed

section \<open>Round trips\<close>

definition nibbles_of :: "bytes \<Rightarrow> bytes" where
  "nibbles_of bs = concat (map (\<lambda>b. [b div 16, b mod 16]) bs)"

lemma nibbles_of_simps [simp]:
  "nibbles_of [] = []" "nibbles_of (b # bs) = b div 16 # b mod 16 # nibbles_of bs"
  by (simp_all add: nibbles_of_def)

lemma keybytesToHex_nibbles: "keybytesToHex bs = nibbles_of bs @ [16]"
  by (simp add: keybytesToHex_def nibbles_of_def)

lemma length_nibbles_of [simp]: "length (nibbles_of bs) = 2 * length bs"
  by (induction bs) simp_all

lemma decode_nibbles_of [simp]: "decodeNibbles (nibbles_of bs) = bs"
  by (induction bs) simp_all

lemma nibbles_of_decode: "even (length ns) \<Longrightarrow> \<forall>n \<in> set ns. nibble n \<Longrightarrow> nibbles_of (decodeNibbles ns) = ns"
  by (induction ns rule: decodeNibbles.induct) (simp_all add: split_nibbles)

lemma length_decodeNibbles [simp]: "length (decodeNibbles ns) = length ns div 2"
  by (induction ns rule: decodeNibbles.induct) simp_all

lemma nibble_set: "n \<in> set (nibbles_of bs) \<Longrightarrow> nibble n"
  by (induction bs) auto

lemma hex_key_keybytes: "hex_key (keybytesToHex bs)" "hasTerm (keybytesToHex bs)"
  by (auto simp: hex_key_def keybytesToHex_nibbles hasTerm_last nibble_set)

text \<open>
  Property C21.  A key in bytes can be read back from its hex form, and a hex key from its compact form,
  with its terminator if it had one.
\<close>

theorem hex_keys_roundtrip: "hexToKeybytes (keybytesToHex k) = Inr k \<and> (hex_key hex \<longrightarrow> compactToHex (hexToCompact hex) = hex)"
proof (intro conjI impI)
  show "hexToKeybytes (keybytesToHex k) = Inr k"
    using hex_key_keybytes(2) [of k] by (simp add: hexToKeybytes_def keybytesToHex_nibbles)
  assume hex: "hex_key hex"
  define ns where "ns = (if hasTerm hex then butlast hex else hex)"
  have ns: "\<forall>n \<in> set ns. nibble n"
  proof (cases "hex = []")
    case True
    then show ?thesis by (simp add: ns_def)
  next
    case False
    then have "set hex = insert (last hex) (set (butlast hex))"
      by (metis Un_insert_right append_butlast_last_id list.simps(15) set_append sup_bot.right_neutral empty_set)
    with hex False show ?thesis by (auto simp: ns_def hex_key_def hasTerm_last)
  qed
  have hex_ns: "hex = ns @ (if hasTerm hex then [16] else [])" by (auto simp: ns_def hasTerm_last) (metis append_butlast_last_id)
  show "compactToHex (hexToCompact hex) = hex"
  proof (cases "odd (length ns)")
    case True
    then obtain n ms where n: "ns = n # ms" by (cases ns) auto
    with ns True have m: "nibble n" "nibbles_of (decodeNibbles ms) = ms" by (simp_all add: nibbles_of_decode)
    have c: "hexToCompact hex = (push_bit 4 (if hasTerm hex then 3 else 1) OR n) # decodeNibbles ms"
      using True n by (simp add: hexToCompact_def Let_def ns_def [symmetric] or.assoc [symmetric])
    show ?thesis using m split_nibbles [of _ n] hex_ns n
      by (subst c) (auto simp: compactToHex_def keybytesToHex_nibbles nibble_def Let_def)
  next
    case False
    then have "nibbles_of (decodeNibbles ns) = ns" using ns by (simp add: nibbles_of_decode)
    moreover have "hexToCompact hex = (if hasTerm hex then 32 else 0) # decodeNibbles ns"
      using False by (simp add: hexToCompact_def Let_def ns_def [symmetric])
    ultimately show ?thesis using hex_ns by (auto simp: compactToHex_def keybytesToHex_nibbles Let_def)
  qed
qed

section \<open>The version in place\<close>

lemma compact_loop_step:
  "ni < hexLen \<Longrightarrow> compact_loop hexLen bi ni hex = compact_loop hexLen (bi + 1) (ni + 2) (hex[bi := push_bit 4 (hex ! ni) OR hex ! (ni + 1)])"
  "\<not> ni < hexLen \<Longrightarrow> compact_loop hexLen bi ni hex = hex"
  by (simp_all add: compact_loop.simps [of hexLen])

lemma compact_loop_spec:
  assumes "hexLen \<le> length hex" "ni \<le> hexLen" "even (hexLen - ni)" "bi \<le> Suc ni"
  shows "compact_loop hexLen bi ni hex =
    take bi hex @ decodeNibbles (take (hexLen - ni) (drop ni hex)) @ drop (bi + (hexLen - ni) div 2) hex"
  using assms
proof (induction hexLen bi ni hex rule: compact_loop.induct)
  case (1 hexLen bi ni hex)
  show ?case
  proof (cases "ni < hexLen")
    case True
    let ?b = "push_bit 4 (hex ! ni) OR hex ! (ni + 1)"
    obtain k where k: "hexLen - ni = Suc (Suc k)" "even k" using True 1(4) by (cases "hexLen - ni"; cases "hexLen - ni - 1") auto
    then have lt: "Suc ni < hexLen" "hexLen - (ni + 2) = k" by simp_all
    have loop: "compact_loop hexLen (bi + 1) (ni + 2) (hex[bi := ?b]) = take (bi + 1) (hex[bi := ?b]) @
        decodeNibbles (take k (drop (ni + 2) (hex[bi := ?b]))) @ drop (bi + 1 + k div 2) (hex[bi := ?b])"
      using 1(1) [OF True] 1(2-5) lt k(2) by simp
    have drops: "drop (ni + 2) (hex[bi := ?b]) = drop (ni + 2) hex" "drop (bi + 1 + k div 2) (hex[bi := ?b]) = drop (bi + 1 + k div 2) hex"
      using 1(5) by simp_all
    have takes: "take (bi + 1) (hex[bi := ?b]) = take bi hex @ [?b]" using 1(2,5) lt(1) by (simp add: take_Suc_conv_app_nth)
    have "drop ni hex = hex ! ni # hex ! (ni + 1) # drop (ni + 2) hex" using lt(1) 1(2) by (simp add: Cons_nth_drop_Suc)
    then have "take (Suc (Suc k)) (drop ni hex) = hex ! ni # hex ! (ni + 1) # take k (drop (ni + 2) hex)" by (metis take_Suc_Cons)
    then have "decodeNibbles (take (Suc (Suc k)) (drop ni hex)) = ?b # decodeNibbles (take k (drop (ni + 2) hex))" by (simp only: decodeNibbles.simps)
    moreover have "bi + Suc (Suc k) div 2 = bi + 1 + k div 2" by simp
    ultimately show ?thesis unfolding compact_loop_step(1) [OF True] loop drops takes k(1) by (simp only: append_assoc append.simps)
  next
    case False
    with 1(3) show ?thesis by (simp add: compact_loop_step(2))
  qed
qed

theorem hex_keys_roundtrip_witness:
  "hexToKeybytes (keybytesToHex [0x12, 0x34]) = Inr [0x12, 0x34] \<and> compactToHex (hexToCompact [1, 2, 3, 16]) = [1, 2, 3, 16]"
  using hex_keys_roundtrip [of "[0x12, 0x34]" "[1, 2, 3, 16]"] by (simp add: hex_key_def nibble_def)

text \<open>
  Property C22.  \<open>hexToCompactInPlace\<close> leaves in its buffer what \<open>hexToCompact\<close> computes: the length it
  reports fits into the buffer, and that much of the buffer is the compact key.  Only an empty key is
  out of its range.
\<close>

theorem hexToCompactInPlace_compact:
  "case hexToCompactInPlace hex of None \<Rightarrow> hex = []
   | Some (n, buf) \<Rightarrow> n \<le> length buf \<and> length buf = length hex \<and> take n buf = hexToCompact hex"
proof (cases hex)
  case (Cons b bs)
  define m where "m = (if hasTerm hex then length hex - 1 else length hex)"
  define f :: byte where "f = (if hasTerm hex then 32 else 0)"
  have m: "m \<le> length hex" "even m \<Longrightarrow> m \<noteq> 0 \<or> hasTerm hex" using Cons by (auto simp: m_def)
  have strip: "(if hasTerm hex then butlast hex else hex) = take m hex" by (simp add: m_def butlast_conv_take)
  have compact: "hexToCompact hex = (if odd m then (f OR 16 OR hd (take m hex)) # decodeNibbles (tl (take m hex)) else f # decodeNibbles (take m hex))"
    unfolding hexToCompact_def Let_def strip using m(1) by (simp add: f_def)
  show ?thesis
  proof (cases "odd m")
    case True
    then obtain k where k: "m = Suc k" "even k" by (cases m) auto
    have "hexToCompactInPlace hex = Some (m div 2 + 1, (compact_loop m 1 1 hex)[0 := f OR 16 OR b])"
      using True Cons by (auto simp: hexToCompactInPlace_def Let_def f_def m_def hasTerm_def)
    moreover have "compact_loop m 1 1 hex = b # decodeNibbles (take k bs) @ drop (Suc (k div 2)) hex"
      using compact_loop_spec [of m hex 1 1] m k Cons by simp
    moreover have "hexToCompact hex = (f OR 16 OR b) # decodeNibbles (take k bs)"
      using True k Cons compact by simp
    moreover have "k div 2 \<le> length bs" using m(1) k(1) Cons by simp
    ultimately show ?thesis using m k Cons by (simp add: min_def)
  next
    case False
    have "hexToCompactInPlace hex = Some (m div 2 + 1, (compact_loop m 1 0 hex)[0 := f])"
      using False Cons by (auto simp: hexToCompactInPlace_def Let_def f_def m_def hasTerm_def)
    moreover have "compact_loop m 1 0 hex = b # decodeNibbles (take m hex) @ drop (Suc (m div 2)) hex"
      using compact_loop_spec [of m hex 0 1] m(1) False Cons by simp
    moreover have "hexToCompact hex = f # decodeNibbles (take m hex)"
      using False compact by simp
    moreover have "Suc (m div 2) \<le> length hex" using m False Cons by (cases "hasTerm hex") (auto simp: m_def elim!: oddE)
    ultimately show ?thesis using m(1) by (simp add: min_def) linarith
  qed
qed (simp add: hexToCompactInPlace_def Let_def)

section \<open>Common prefixes\<close>

lemma prefix_loop_Cons: "prefix_loop (Suc i) (x # a) (y # b) n = Suc (prefix_loop i a b n)"
  by (induction n arbitrary: i) simp_all

lemma prefixLen_simps [simp]:
  "prefixLen [] b = 0" "prefixLen a [] = 0" "prefixLen (x # a) (y # b) = (if x = y then Suc (prefixLen a b) else 0)"
  by (simp_all add: prefixLen_def prefix_loop_Cons)

lemma prefixLen_prefix: "prefixLen a b \<le> length a" "prefixLen a b \<le> length b" "take (prefixLen a b) a = take (prefixLen a b) b"
  by (induction a b rule: list_induct2') auto

lemma prefixLen_differ: "prefixLen a b < length a \<Longrightarrow> prefixLen a b < length b \<Longrightarrow> a ! prefixLen a b \<noteq> b ! prefixLen a b"
  by (induction a b rule: list_induct2') auto

lemma prefixLen_append [simp]: "prefixLen (a @ b) a = length a"
  by (induction a) simp_all

end
