(* ===== verification/Tx_Gas.thy ===== *)
theory Tx_Gas
  imports Forks
begin

text \<open>
  The gas a transaction pays before it runs (\<open>IntrinsicGas\<close> and \<open>FloorDataGas\<close> of
  \<open>core/state_transition.go\<close>) and the gas left in a block (\<open>core/gaspool.go\<close>), in 64-bit arithmetic, with the
  amounts they stand for as natural numbers; and the range of the gas limits that
  \<open>consensus/misc/gaslimit.go\<close> accepts.
\<close>

section \<open>Transactions\<close>

record AccessTuple =
  al_Address :: address
  al_StorageKeys :: "hash list"

type_synonym AccessList = "AccessTuple list"

record SetCodeAuthorization =
  auth_ChainID :: hash
  auth_Address :: address
  auth_Nonce :: u64
  auth_V :: byte
  auth_R :: hash
  auth_S :: hash

datatype core_err =
    ErrNonceTooLow
  | ErrNonceTooHigh
  | ErrNonceMax
  | ErrGasLimitReached
  | ErrInsufficientFundsForTransfer
  | ErrInsufficientFunds
  | ErrGasUintOverflow
  | ErrIntrinsicGas
  | ErrFloorDataGas
  | ErrTxTypeNotSupported
  | ErrTipAboveFeeCap
  | ErrTipVeryHigh
  | ErrFeeCapVeryHigh
  | ErrFeeCapTooLow
  | ErrSenderNoEOA
  | ErrEmptyAuthList
  | ErrSetCodeTxCreate
  | ErrGasLimitTooHigh
  | ErrUint256Overflow
  | ErrMaxInitCodeSizeExceeded
  | GasPoolPanic \<comment> \<open>\<open>panic("gas pool pushed above uint64")\<close>\<close>

definition StorageKeys :: "AccessList \<Rightarrow> nat" where
  "StorageKeys al = sum_list (map (\<lambda>tuple. length (al_StorageKeys tuple)) al)"

section \<open>The price of a transaction\<close>

definition CallNewAccountGas :: u64 where "CallNewAccountGas = 25000"

definition TxGas :: u64 where "TxGas = 21000"

definition TxGasContractCreation :: u64 where "TxGasContractCreation = 53000"

definition TxDataZeroGas :: u64 where "TxDataZeroGas = 4"

definition InitCodeWordGas :: u64 where "InitCodeWordGas = 2"

definition TxTokenPerNonZeroByte :: u64 where "TxTokenPerNonZeroByte = 4"

definition TxCostFloorPerToken :: u64 where "TxCostFloorPerToken = 10"

definition TxCostFloorPerToken7976 :: u64 where "TxCostFloorPerToken7976 = 16"

definition TxAccessListAddressGas :: u64 where "TxAccessListAddressGas = 2400"

definition TxAccessListStorageKeyGas :: u64 where "TxAccessListStorageKeyGas = 1900"

definition TxDataNonZeroGasFrontier :: u64 where "TxDataNonZeroGasFrontier = 68"

definition TxDataNonZeroGasEIP2028 :: u64 where "TxDataNonZeroGasEIP2028 = 16"

lemmas gas_params = CallNewAccountGas_def TxGas_def TxGasContractCreation_def TxDataZeroGas_def InitCodeWordGas_def
  TxTokenPerNonZeroByte_def TxCostFloorPerToken_def TxCostFloorPerToken7976_def TxAccessListAddressGas_def
  TxAccessListStorageKeyGas_def TxDataNonZeroGasFrontier_def TxDataNonZeroGasEIP2028_def

definition toWordSize :: "u64 \<Rightarrow> u64" where
  "toWordSize sz = (if sz > - 1 - 31 then (- 1) div 32 + 1 else (sz + 31) div 32)"

text \<open>The check \<open>(math.MaxUint64-gas)/price < n\<close> and the charge that follows it.\<close>

definition charge :: "u64 \<Rightarrow> u64 \<Rightarrow> u64 \<Rightarrow> core_err + u64" where
  "charge price n gas = (if (- 1 - gas) div price < n then Inl ErrGasUintOverflow else Inr (gas + n * price))"

definition IntrinsicGas :: "bytes \<Rightarrow> AccessList option \<Rightarrow> SetCodeAuthorization list option \<Rightarrow> bool \<Rightarrow> bool \<Rightarrow> bool \<Rightarrow> bool \<Rightarrow> core_err + u64" where
  "IntrinsicGas data accessList authList isContractCreation isHomestead isEIP2028 isEIP3860 =
    (let gas = (if isContractCreation \<and> isHomestead then TxGasContractCreation else TxGas);
         dataLen = of_nat (length data) :: u64;
         paid =
           (if dataLen > 0 then
              let z = of_nat (count_list data 0);
                  nz = dataLen - z;
                  nonZeroGas = (if isEIP2028 then TxDataNonZeroGasEIP2028 else TxDataNonZeroGasFrontier)
              in case charge nonZeroGas nz gas of
                   Inl e \<Rightarrow> Inl e
                 | Inr gas \<Rightarrow>
                     case charge TxDataZeroGas z gas of
                       Inl e \<Rightarrow> Inl e
                     | Inr gas \<Rightarrow>
                         if isContractCreation \<and> isEIP3860 then charge InitCodeWordGas (toWordSize dataLen) gas else Inr gas
            else Inr gas)
     in case paid of
          Inl e \<Rightarrow> Inl e
        | Inr gas \<Rightarrow>
            let gas = (case accessList of None \<Rightarrow> gas
                  | Some al \<Rightarrow> gas + of_nat (length al) * TxAccessListAddressGas + of_nat (StorageKeys al) * TxAccessListStorageKeyGas);
                gas = (case authList of None \<Rightarrow> gas | Some auths \<Rightarrow> gas + of_nat (length auths) * CallNewAccountGas)
            in Inr gas)"

definition FloorDataGas :: "Rules \<Rightarrow> bytes \<Rightarrow> core_err + u64" where
  "FloorDataGas rules data =
    (let dataLen = of_nat (length data) :: u64;
         z = of_nat (count_list data 0);
         nz = dataLen - z;
         tokens_cost =
           (if r_IsAmsterdam rules then
              if (- 1) div TxTokenPerNonZeroByte < dataLen then Inl ErrGasUintOverflow
              else Inr (dataLen * TxTokenPerNonZeroByte, TxCostFloorPerToken7976)
            else Inr (nz * TxTokenPerNonZeroByte + z, TxCostFloorPerToken))
     in case tokens_cost of
          Inl e \<Rightarrow> Inl e
        | Inr (tokens, tokenCost) \<Rightarrow>
            if (- 1 - TxGas) div tokenCost < tokens then Inl ErrGasUintOverflow else Inr (TxGas + tokens * tokenCost))"

section \<open>The gas pool of a block\<close>

definition AddGas :: "u64 \<Rightarrow> u64 \<Rightarrow> core_err + u64" where
  "AddGas amount gp = (if gp > - 1 - amount then Inl GasPoolPanic else Inr (gp + amount))"

definition SubGas :: "u64 \<Rightarrow> u64 \<Rightarrow> core_err + u64" where
  "SubGas amount gp = (if gp < amount then Inl ErrGasLimitReached else Inr (gp - amount))"

section \<open>The gas limit of the next block\<close>

definition CalcGasLimit :: "u64 \<Rightarrow> u64 \<Rightarrow> u64" where
  "CalcGasLimit parentGasLimit desiredLimit =
    (let delta = parentGasLimit div GasLimitBoundDivisor - 1;
         desiredLimit = (if desiredLimit < MinGasLimit then MinGasLimit else desiredLimit)
     in if parentGasLimit < desiredLimit then min (parentGasLimit + delta) desiredLimit
        else if parentGasLimit > desiredLimit then max (parentGasLimit - delta) desiredLimit
        else parentGasLimit)"

section \<open>The operations on numbers\<close>

lemma unat_minus_one_u64: "unat (- 1 :: u64) = 2 ^ 64 - 1"
  by (simp add: unsigned_minus_1_eq_mask mask_eq_exp_minus_1)

lemma unat_rest: "unat (- 1 - gas) = 2 ^ 64 - 1 - unat gas" for gas :: u64
  using unat_lt2p [of gas] by (simp add: unat_sub_if_size unat_minus_one_u64 word_le_nat_alt)

lemma charge_nat:
  assumes "0 < price"
  shows "charge price n gas =
    (if unat gas + unat n * unat price < 2 ^ 64 then Inr (of_nat (unat gas + unat n * unat price)) else Inl ErrGasUintOverflow)"
proof -
  have p: "0 < unat price" using assms by (simp add: word_less_nat_alt)
  have "(- 1 - gas) div price < n \<longleftrightarrow> 2 ^ 64 - 1 - unat gas < unat n * unat price"
    using div_less_iff_less_mult [OF p] by (simp add: word_less_nat_alt unat_div unat_rest)
  then show ?thesis using unat_lt2p [of gas] by (auto simp: charge_def)
qed

lemma toWordSize_nat: "unat (toWordSize sz) = (unat sz + 31) div 32"
proof (cases "sz > - 1 - 31")
  case True
  have "unat (- 1 - 31 :: u64) = 2 ^ 64 - 32" by (subst unat_rest) simp
  with True have "2 ^ 64 \<le> unat sz + 31" "unat sz + 31 < 2 ^ 64 + 31" using unat_lt2p [of sz] by (auto simp: word_less_nat_alt)
  then have "(unat sz + 31) div 32 = 2 ^ 59" by (intro div_nat_eqI) auto
  moreover have "unat (toWordSize sz) = 2 ^ 59" using True by (simp add: toWordSize_def)
  ultimately show ?thesis by simp
next
  case False
  have "unat (- 1 - 31 :: u64) = 2 ^ 64 - 32" by (subst unat_rest) simp
  with False have "unat sz + 31 < 2 ^ 64" by (auto simp: word_less_nat_alt)
  with False show ?thesis by (simp add: toWordSize_def unat_div unat_word_ariths(1))
qed

section \<open>The price as a number\<close>

definition data_price :: "bool \<Rightarrow> bool \<Rightarrow> bool \<Rightarrow> bool \<Rightarrow> bytes \<Rightarrow> nat" where
  "data_price isContractCreation isHomestead isEIP2028 isEIP3860 data =
    (if isContractCreation \<and> isHomestead then 53000 else 21000) +
    length (filter (\<lambda>b. b \<noteq> 0) data) * (if isEIP2028 then 16 else 68) + length (filter (\<lambda>b. b = 0) data) * 4 +
    (if isContractCreation \<and> isEIP3860 then (length data + 31) div 32 * 2 else 0)"

definition list_price :: "AccessList option \<Rightarrow> SetCodeAuthorization list option \<Rightarrow> nat" where
  "list_price accessList authList =
    (case accessList of None \<Rightarrow> 0 | Some al \<Rightarrow> length al * 2400 + sum_list (map (\<lambda>t. length (al_StorageKeys t)) al) * 1900) +
    (case authList of None \<Rightarrow> 0 | Some auths \<Rightarrow> length auths * 25000)"

lemma count_zero: "count_list data 0 = length (filter (\<lambda>b. b = 0) data)" for data :: bytes
  by (induction data) auto

lemma nonzero_word: "(of_nat (length data) :: u64) - of_nat (count_list data 0) = of_nat (length (filter (\<lambda>b. b \<noteq> 0) data))" for data :: bytes
proof -
  have "length data = length (filter (\<lambda>b. b \<noteq> 0) data) + count_list data 0"
    unfolding count_zero using sum_length_filter_compl [of "\<lambda>b. b = 0" data] by simp
  then show ?thesis by simp
qed

lemma charge_of_nat:
  assumes "0 < price" "g < 2 ^ 64" "n < 2 ^ 64"
  shows "charge price (of_nat n) (of_nat g) = (if g + n * unat price < 2 ^ 64 then Inr (of_nat (g + n * unat price)) else Inl ErrGasUintOverflow)"
  using assms by (simp add: charge_nat unat_of_nat_u64)

lemma intrinsic_price:
  assumes "length data < 2 ^ 63"
  shows "IntrinsicGas data accessList authList isContractCreation isHomestead isEIP2028 isEIP3860 =
    (let p = data_price isContractCreation isHomestead isEIP2028 isEIP3860 data
     in if p < 2 ^ 64 then Inr (of_nat (p + list_price accessList authList)) else Inl ErrGasUintOverflow)"
proof -
  define g :: nat where "g = (if isContractCreation \<and> isHomestead then 53000 else 21000)"
  define p :: nat where "p = (if isEIP2028 then 16 else 68)"
  define nz z where "nz = length (filter (\<lambda>b. b \<noteq> 0) data)" and "z = length (filter (\<lambda>b. b = 0) data)"
  define w where "w = (length data + 31) div 32"
  have "nz \<le> length data" "z \<le> length data" by (simp_all add: nz_def z_def)
  then have bounds: "nz < 2 ^ 64" "z < 2 ^ 64" "w < 2 ^ 64" "g < 2 ^ 64"
    using assms by (auto simp: w_def g_def)
  have words: "(if isContractCreation \<and> isHomestead then TxGasContractCreation else TxGas) = of_nat g"
    "(if isEIP2028 then TxDataNonZeroGasEIP2028 else TxDataNonZeroGasFrontier) = of_nat p"
    "unat (of_nat p :: u64) = p" "0 < (of_nat p :: u64)"
    by (auto simp: gas_params g_def p_def)
  have zeros: "count_list data 0 = z" by (simp add: z_def count_zero)
  have nonzero: "(of_nat (length data) :: u64) - of_nat z = of_nat nz" using nonzero_word [of data] by (simp add: zeros nz_def)
  have lists: "(case authList of None \<Rightarrow> gas' | Some auths \<Rightarrow> gas' + of_nat (length auths) * CallNewAccountGas) = of_nat (q + list_price accessList authList)"
    if "gas' = (case accessList of None \<Rightarrow> of_nat q | Some al \<Rightarrow> of_nat q + of_nat (length al) * TxAccessListAddressGas + of_nat (StorageKeys al) * TxAccessListStorageKeyGas)"
    for gas' q
    using that by (auto simp: gas_params list_price_def StorageKeys_def split: option.splits)
  have word_size: "toWordSize (of_nat (length data)) = of_nat w"
    using assms bounds(3) by (simp add: word_unat_eq_iff toWordSize_nat unat_of_nat_u64 w_def)
  define q where "q = g + nz * p + z * 4 + (if isContractCreation \<and> isEIP3860 then w * 2 else 0)"
  have q: "q = data_price isContractCreation isHomestead isEIP2028 isEIP3860 data"
    by (simp add: q_def data_price_def g_def p_def nz_def z_def w_def)
  define paid where "paid = (case charge (of_nat p) (of_nat nz) (of_nat g) of
      Inl e \<Rightarrow> Inl e
    | Inr gas \<Rightarrow>
        case charge TxDataZeroGas (of_nat z) gas of
          Inl e \<Rightarrow> Inl e
        | Inr gas \<Rightarrow>
            if isContractCreation \<and> isEIP3860 then charge InitCodeWordGas (of_nat w) gas else Inr gas)"
  have paid: "paid = (if q < 2 ^ 64 then Inr (of_nat q) else Inl ErrGasUintOverflow)"
    unfolding paid_def using bounds words
    by (auto simp: charge_of_nat q_def TxDataZeroGas_def InitCodeWordGas_def simp del: of_nat_add of_nat_mult)
  have "IntrinsicGas data accessList authList isContractCreation isHomestead isEIP2028 isEIP3860 =
    (case if (of_nat (length data) :: u64) > 0 then paid else Inr (of_nat g) of
       Inl e \<Rightarrow> Inl e
     | Inr gas \<Rightarrow>
         let gas = (case accessList of None \<Rightarrow> gas
               | Some al \<Rightarrow> gas + of_nat (length al) * TxAccessListAddressGas + of_nat (StorageKeys al) * TxAccessListStorageKeyGas);
             gas = (case authList of None \<Rightarrow> gas | Some auths \<Rightarrow> gas + of_nat (length auths) * CallNewAccountGas)
         in Inr gas)"
    unfolding IntrinsicGas_def Let_def zeros nonzero words word_size paid_def by (rule refl)
  moreover have "(if (of_nat (length data) :: u64) > 0 then paid else Inr (of_nat g)) = (if q < 2 ^ 64 then Inr (of_nat q) else Inl ErrGasUintOverflow)"
  proof (cases "data = []")
    case True
    then have "q = g" by (simp add: q_def nz_def z_def w_def)
    with True bounds(4) show ?thesis by simp
  next
    case False
    then have "(of_nat (length data) :: u64) > 0" using assms by (simp add: word_less_nat_alt unat_of_nat_u64)
    then show ?thesis by (simp add: paid)
  qed
  ultimately show ?thesis using lists [OF refl, of q] by (simp add: Let_def flip: q)
qed

section \<open>What the operations do\<close>

lemma FloorDataGas_nat:
  assumes "length data < 2 ^ 61"
  shows "FloorDataGas rules data =
    (let p = (if r_IsAmsterdam rules then 21000 + length data * 4 * 16
              else 21000 + (length (filter (\<lambda>b. b \<noteq> 0) data) * 4 + length (filter (\<lambda>b. b = 0) data)) * 10)
     in if p < 2 ^ 64 then Inr (of_nat p) else Inl ErrGasUintOverflow)"
proof -
  define nz z where "nz = length (filter (\<lambda>b. b \<noteq> 0) data)" and "z = length (filter (\<lambda>b. b = 0) data)"
  have bounds: "nz \<le> length data" "z \<le> length data" by (simp_all add: nz_def z_def)
  have zeros: "count_list data 0 = z" by (simp add: z_def count_zero)
  have nonzero: "(of_nat (length data) :: u64) - of_nat z = of_nat nz" using nonzero_word [of data] by (simp add: zeros nz_def)
  have f: "FloorDataGas rules data =
      (if r_IsAmsterdam rules then charge 16 (of_nat (length data * 4)) (of_nat 21000)
       else charge 10 (of_nat (nz * 4 + z)) (of_nat 21000))"
    using assms by (simp add: FloorDataGas_def Let_def zeros nonzero gas_params charge_def word_less_nat_alt unat_div unat_minus_one_u64 unat_of_nat_u64)
  have "nz * 4 + z < 2 ^ 64" "length data * 4 < 2 ^ 64" using assms bounds by auto
  then show ?thesis
    unfolding f Let_def nz_def [symmetric] z_def [symmetric]
    using charge_of_nat [of 16 21000 "length data * 4"] charge_of_nat [of 10 21000 "nz * 4 + z"] by (simp add: mult.commute)
qed

text \<open>Gas taken from a pool and put back, in any order, never leaves the pool with more than it had.\<close>

lemma SubGas_nat: "SubGas amount gp = (if unat amount \<le> unat gp then Inr (of_nat (unat gp - unat amount)) else Inl ErrGasLimitReached)"
  by (auto simp: SubGas_def word_less_nat_alt word_unat_eq_iff unat_sub_if_size word_le_nat_alt unat_of_nat take_bit_nat_eq_self)

lemma AddGas_nat: "AddGas amount gp = (if unat gp + unat amount < 2 ^ 64 then Inr (of_nat (unat gp + unat amount)) else Inl GasPoolPanic)"
  using unat_lt2p [of amount] by (auto simp: AddGas_def word_less_nat_alt unat_rest)

lemma sint_uint_cases: "uint w = (if sint w < 0 then sint w + 2 ^ 64 else sint w)" for w :: u64
proof -
  have r: "- (2 ^ 63) \<le> sint w" "sint w < 2 ^ 63" using sint_ge [of w] sint_lt [of w] by simp_all
  have m: "uint w = sint w mod 2 ^ 64" by (simp add: uint_sint take_bit_eq_mod)
  show ?thesis
  proof (cases "sint w < 0")
    case True
    have "sint w mod 2 ^ 64 = (sint w + 2 ^ 64) mod 2 ^ 64" by simp
    also have "\<dots> = sint w + 2 ^ 64" using r True by (intro mod_pos_pos_trivial) auto
    finally show ?thesis using True m by simp
  next
    case False
    then show ?thesis using r m by (simp add: mod_pos_pos_trivial)
  qed
qed

lemma sint_neg: "sint w < 0 \<longleftrightarrow> 2 ^ 63 \<le> uint w" for w :: u64
  using sint_ge [of w] sint_lt [of w] sint_uint_cases [of w] by (auto split: if_splits)

lemma gas_limit_iff:
  assumes "parentGasLimit < 2 ^ 63"
  shows "VerifyGaslimit parentGasLimit headerGasLimit = Inr () \<longleftrightarrow>
    \<bar>uint parentGasLimit - uint headerGasLimit\<bar> < uint parentGasLimit div 1024 \<and> 5000 \<le> uint headerGasLimit"
proof -
  define p h where "p = uint parentGasLimit" and "h = uint headerGasLimit"
  have b: "0 \<le> p" "p < 2 ^ 63" "0 \<le> h" "h < 2 ^ 64"
    using assms uint_lt2p [of headerGasLimit] by (auto simp: p_def h_def word_less_def)
  let ?e = "parentGasLimit - headerGasLimit"
  have d: "uint ?e = (if h \<le> p then p - h else p - h + 2 ^ 64)"
    using b by (simp add: uint_sub_if_size p_def h_def word_size)
  define diff where "diff = (if sint ?e < 0 then - ?e else ?e)"
  have "uint diff = (if 2 ^ 63 \<le> uint ?e then 2 ^ 64 - uint ?e else uint ?e)"
    unfolding diff_def sint_neg using uint_sub_if_size [of 0 ?e] uint_lt2p [of ?e] by (auto simp: word_size)
  with d b have "uint diff < p div 1024 \<longleftrightarrow> \<bar>p - h\<bar> < p div 1024" by (auto split: if_splits)
  moreover have "VerifyGaslimit parentGasLimit headerGasLimit = Inr () \<longleftrightarrow> uint diff < p div 1024 \<and> 5000 \<le> h"
    by (auto simp: VerifyGaslimit_def Let_def diff_def p_def h_def not_le word_less_def word_le_def uint_div GasLimitBoundDivisor_def MinGasLimit_def)
  ultimately show ?thesis by (simp add: p_def h_def)
qed

text \<open>
  Property C24.  If the gas limit of the parent is below \<open>2 ^ 63\<close>, a header's gas limit is accepted exactly if
  it is at least 5000 and differs from the parent's by less than a 1024th of it.
\<close>

theorem gas_limit_range:
  assumes "parentGasLimit < 2 ^ 63"
  shows "VerifyGaslimit parentGasLimit headerGasLimit = Inr () \<longleftrightarrow>
    \<bar>uint parentGasLimit - uint headerGasLimit\<bar> < uint parentGasLimit div 1024 \<and> 5000 \<le> uint headerGasLimit"
  by (rule gas_limit_iff [OF assms])

theorem gas_limit_range_witness: "VerifyGaslimit 42000000 42041014 = Inr () \<and> VerifyGaslimit 42000000 42041015 \<noteq> Inr ()"
  by (subst (1 2) gas_limit_range) simp_all


text \<open>
  Property C23.  The intrinsic gas of a transaction is what its bytes, its access list and its authorizations
  cost.  If the bytes alone cost more than 64 bits can hold, it is an error; the cost of the two lists is
  added without a check, modulo \<open>2 ^ 64\<close>.
\<close>

theorem intrinsic_gas_exact:
  assumes "length data < 2 ^ 63"
  shows "IntrinsicGas data accessList authList isContractCreation isHomestead isEIP2028 isEIP3860 =
    (let p = data_price isContractCreation isHomestead isEIP2028 isEIP3860 data
     in if p < 2 ^ 64 then Inr (of_nat (p + list_price accessList authList)) else Inl ErrGasUintOverflow)"
  by (rule intrinsic_price [OF assms])

theorem intrinsic_gas_exact_witness:
  "IntrinsicGas [0, 7] (Some [\<lparr>al_Address = 1, al_StorageKeys = [1, 2]\<rparr>]) None False True True True = Inr (21000 + 16 + 4 + 2400 + 3800)"
  by (subst intrinsic_gas_exact) (simp_all add: data_price_def list_price_def Let_def)

text \<open>
  Property C27.  From a legal gas limit, the gas limit \<open>CalcGasLimit\<close> chooses for the next block is legal after
  it, whatever limit the miner wants.
\<close>

theorem mined_gas_limit_accepted:
  assumes "5000 \<le> parentGasLimit" "parentGasLimit < 2 ^ 63"
  shows "VerifyGaslimit parentGasLimit (CalcGasLimit parentGasLimit desiredLimit) = Inr ()"
proof -
  define p where "p = unat parentGasLimit"
  define d where "d = (if desiredLimit < 5000 then 5000 else desiredLimit)"
  have p: "5000 \<le> p" "p < 2 ^ 63" using assms by (simp_all add: p_def word_le_nat_alt word_less_nat_alt)
  define e where "e = parentGasLimit div 1024 - 1"
  have u: "unat e = p div 1024 - 1" using p by (simp add: e_def unat_sub_if_size word_le_nat_alt unat_div p_def)
  have d5: "5000 \<le> unat d" by (simp add: d_def word_less_nat_alt)
  let ?g = "CalcGasLimit parentGasLimit desiredLimit"
  have "unat ?g = (if p < unat d then min (p + (p div 1024 - 1)) (unat d) else max (p - (p div 1024 - 1)) (unat d))"
  proof -
    have "p + (p div 1024 - 1) < 2 ^ 64" "p div 1024 - 1 \<le> p" using p by auto
    then have "unat (parentGasLimit + e) = p + (p div 1024 - 1)" "unat (parentGasLimit - e) = p - (p div 1024 - 1)"
      by (simp_all add: unat_word_ariths(1) unat_sub_if_size word_le_nat_alt u p_def [symmetric])
    moreover have "?g = (if parentGasLimit < d then min (parentGasLimit + e) d else if parentGasLimit > d then max (parentGasLimit - e) d else parentGasLimit)"
      by (simp only: CalcGasLimit_def Let_def GasLimitBoundDivisor_def MinGasLimit_def d_def e_def)
    moreover have "unat (min a b) = min (unat a) (unat b)" "unat (max a b) = max (unat a) (unat b)" for a b :: u64
      by (simp_all add: min_def max_def word_le_nat_alt)
    ultimately show ?thesis by (simp add: word_less_nat_alt p_def [symmetric])
  qed
  then have "\<bar>int p - int (unat ?g)\<bar> < int p div 1024" "5000 \<le> unat ?g" using p d5 by (auto split: if_splits)
  moreover have n: "int p = uint parentGasLimit" "int (unat ?g) = uint ?g" by (simp_all add: p_def)
  ultimately have "\<bar>uint parentGasLimit - uint ?g\<bar> < uint parentGasLimit div 1024" "5000 \<le> uint ?g"
    unfolding n [symmetric] by linarith+
  then show ?thesis using gas_limit_iff [OF assms(2)] by blast
qed

theorem mined_gas_limit_accepted_witness: "VerifyGaslimit 42000000 (CalcGasLimit 42000000 50000000) = Inr ()"
  by (rule mined_gas_limit_accepted) (simp_all add: word_le_nat_alt word_less_nat_alt)

end
