(* ===== verification/Spec2Isabelle.thy ===== *)
theory Spec2Isabelle
  imports Prelude Lru Rlp Rlp_Laws Types_V2 Config_V2 Forks Pool Signers Engine Snapshots Epochs
    Certificates Voting Timeouts Mining Header_Check Bft
    Frames Rounds Types_Laws Signers_Laws Certificates_Laws Commits Epochs_Laws Header_Laws Moves Protocol Safety Liveness Examples
    Rlp_Raw Hex_Keys Tx_Gas
begin

text \<open>
  A verification library for the XDPoS consensus engine (version 2) of XDPoSChain.

  \<^item> \<open>Prelude\<close>: machine types and the state-and-error monad of the models.
  \<^item> \<open>Lru\<close>: \<open>common/lru/basiclru.go\<close>, the cache behind every lookup of the engine.
\<close>

end
